theory Spec2Isabelle
  imports Main
begin

section \<open>Payslip automation: a shallow embedding of the per-employee pipeline\<close>

text \<open>
  The development follows the Python sources \<^verbatim>\<open>src/main.py\<close>,
  \<^verbatim>\<open>src/data_io/load_data.py\<close>, \<^verbatim>\<open>src/email/outlook_sender.py\<close>,
  \<^verbatim>\<open>src/pdf/excel_pdf_exporter.py\<close> and \<^verbatim>\<open>src/utils/date_resolver.py\<close>.
  A Python \<^verbatim>\<open>str\<close> is a \<^typ>\<open>string\<close>, one \<^typ>\<open>char\<close> per code point (so the
  code points are those below 256); a Python \<^verbatim>\<open>int\<close> is an \<^typ>\<open>int\<close>; an exception is
  a value of the type \<open>exn\<close> on the left of a sum.
\<close>

subsection \<open>Exceptions\<close>

datatype exn =
    ValueError string
  | MissingColumns "string list"
  | KeyError string
  | IndexError
  | AttributeError string
  | FileNotFoundError string
  | RuntimeError string
  | TimeoutError
  | FormatError
  | ExternalError string

subsection \<open>Strings: whitespace, \<^verbatim>\<open>strip\<close>, \<^verbatim>\<open>re.sub\<close> of a character class\<close>

text \<open>
  \<^verbatim>\<open>str.strip()\<close> and the pattern \<^verbatim>\<open>\s\<close> of \<^verbatim>\<open>re\<close> use the same test on a code
  point; below 256 it holds of 9 to 13, 28 to 32, 133 and 160.
\<close>

definition is_space :: "char \<Rightarrow> bool" where
  "is_space c = (of_char c \<in> {9, 10, 11, 12, 13, 28, 29, 30, 31, 32, 133, 160 :: nat})"

definition strip :: "string \<Rightarrow> string" where
  "strip s = rev (dropWhile is_space (rev (dropWhile is_space s)))"

text \<open>The character class of the first substitution of \<^verbatim>\<open>safe_filename\<close>:
  \<^verbatim>\<open>[\\/:\*\?\"<>\|\n\r\t]\<close>.\<close>

definition illegal_char :: "char \<Rightarrow> bool" where
  "illegal_char c = (c \<in> {CHR 0x5C, CHR ''/'', CHR '':'', CHR ''*'', CHR ''?'', CHR 0x22,
     CHR ''<'', CHR ''>'', CHR ''|'', CHR 0x0A, CHR 0x0D, CHR 0x09})"

text \<open>\<^verbatim>\<open>re.sub("[class]+", r, s)\<close>: from left to right, every maximal run of characters of
  the class becomes the single character \<open>r\<close>.\<close>

function sub_runs :: "('a \<Rightarrow> bool) \<Rightarrow> 'a \<Rightarrow> 'a list \<Rightarrow> 'a list" where
  "sub_runs P r [] = []"
| "sub_runs P r (c # cs) =
     (if P c then r # sub_runs P r (dropWhile P cs) else c # sub_runs P r cs)"
  by pat_completeness auto
termination
  by (relation "measure (\<lambda>(P, r, s). length s)")
     (auto simp: length_dropWhile_le less_Suc_eq_le)

text \<open>\<^verbatim>\<open>s[:k]\<close>: a negative \<open>k\<close> counts from the end.\<close>

definition py_prefix :: "'a list \<Rightarrow> int \<Rightarrow> 'a list" where
  "py_prefix s k = (if 0 \<le> k then take (nat k) s else take (nat (int (length s) + k)) s)"

text \<open>
  \<^verbatim>\<open>
  def safe_filename(s: str, max_len: int = 80) -> str:
      s = re.sub(r"[\\/:\*\?\"<>\|\n\r\t]+", "_", str(s))
      s = re.sub(r"\s+", " ", s).strip()
      s = s.replace(" ", "_")
      return s[:max_len] if len(s) > max_len else s
  \<close>
\<close>

definition safe_filename :: "string \<Rightarrow> int \<Rightarrow> string" where
  "safe_filename s max_len =
     (let s1 = sub_runs illegal_char (CHR ''_'') s;
          s2 = strip (sub_runs is_space (CHR '' '') s1);
          s3 = map (\<lambda>c. if c = CHR '' '' then CHR ''_'' else c) s2
      in if int (length s3) > max_len then py_prefix s3 max_len else s3)"

definition default_max_len :: int where
  "default_max_len = 80"

text \<open>
  The same function on a \<^verbatim>\<open>str\<close> of any code points, given as the list of its code
  points. The whitespace test of \<^verbatim>\<open>str.strip()\<close> and of \<^verbatim>\<open>\s\<close> holds of the code
  points 9 to 13, 28 to 32, 133, 160, 5760, 8192 to 8202, 8232, 8233, 8239, 8287 and
  12288; the class of the first substitution holds the code points of its twelve
  characters; the blank is 32 and the underscore 95.
\<close>

definition uni_space :: "nat \<Rightarrow> bool" where
  "uni_space c = (c \<in> {9..13} \<union> {28..32} \<union> {133, 160, 5760} \<union> {8192..8202}
     \<union> {8232, 8233, 8239, 8287, 12288})"

definition uni_illegal :: "nat \<Rightarrow> bool" where
  "uni_illegal c = (c \<in> {92, 47, 58, 42, 63, 34, 60, 62, 124, 10, 13, 9})"

definition uni_strip :: "nat list \<Rightarrow> nat list" where
  "uni_strip s = rev (dropWhile uni_space (rev (dropWhile uni_space s)))"

definition safe_filename_uni :: "nat list \<Rightarrow> int \<Rightarrow> nat list" where
  "safe_filename_uni s max_len =
     (let s1 = sub_runs uni_illegal 95 s;
          s2 = uni_strip (sub_runs uni_space 32 s1);
          s3 = map (\<lambda>c. if c = 32 then 95 else c) s2
      in if int (length s3) > max_len then py_prefix s3 max_len else s3)"

text \<open>A string that holds no character of the replaced class and no whitespace.\<close>

definition clean :: "string \<Rightarrow> bool" where
  "clean s = (\<forall>c \<in> set s. \<not> illegal_char c \<and> \<not> is_space c)"

definition uni_clean :: "nat list \<Rightarrow> bool" where
  "uni_clean s = (\<forall>c \<in> set s. \<not> uni_illegal c \<and> \<not> uni_space c)"

subsection \<open>Period resolution (\<^verbatim>\<open>resolve_period\<close> of main.py)\<close>

text \<open>A \<^verbatim>\<open>datetime.date\<close>; the constructor accepts the years 1 to 9999.\<close>

record pdate =
  d_year :: int
  d_month :: int
  d_day :: int

definition is_leap :: "int \<Rightarrow> bool" where
  "is_leap y = (y mod 4 = 0 \<and> (y mod 100 \<noteq> 0 \<or> y mod 400 = 0))"

definition days_in_month :: "int \<Rightarrow> int \<Rightarrow> int" where
  "days_in_month y m =
     (if m = 2 then (if is_leap y then 29 else 28)
      else if m \<in> {4, 6, 9, 11} then 30 else 31)"

definition valid_date :: "pdate \<Rightarrow> bool" where
  "valid_date d = (1 \<le> d_year d \<and> d_year d \<le> 9999 \<and> 1 \<le> d_month d \<and> d_month d \<le> 12
     \<and> 1 \<le> d_day d \<and> d_day d \<le> days_in_month (d_year d) (d_month d))"

text \<open>\<^verbatim>\<open>date(year, month, day)\<close> raises ValueError outside the calendar.\<close>

definition mk_date :: "int \<Rightarrow> int \<Rightarrow> int \<Rightarrow> exn + pdate" where
  "mk_date y m d =
     (if y < 1 \<or> 9999 < y then Inl (ValueError ''year is out of range'')
      else if m < 1 \<or> 12 < m then Inl (ValueError ''month must be in 1..12'')
      else if d < 1 \<or> days_in_month y m < d then Inl (ValueError ''day is out of range for month'')
      else Inr \<lparr>d_year = y, d_month = m, d_day = d\<rparr>)"

definition month_names :: "string list" where
  "month_names = [''January'', ''February'', ''March'', ''April'', ''May'', ''June'', ''July'',
     ''August'', ''September'', ''October'', ''November'', ''December'']"

text \<open>
  The reference date: \<^verbatim>\<open>run.reference_date\<close> is absent or blank and today's date is
  taken, or it is a string that \<^verbatim>\<open>strptime(ref_str, "%Y-%m-%d")\<close> parses (\<open>Some\<close>) or
  rejects (\<open>None\<close>).
\<close>

datatype ref_src = Today pdate | Parsed "pdate option"

text \<open>
  The configuration that \<^verbatim>\<open>resolve_period\<close> reads. \<open>period_mode\<close> is the mode after
  \<^verbatim>\<open>str(...).strip().lower()\<close> (\<^verbatim>\<open>"manual"\<close> when the key is absent). The three format
  fields are the results of \<^verbatim>\<open>str.format\<close> and \<^verbatim>\<open>strftime\<close> on the configured
  patterns, as functions of the values substituted; \<^verbatim>\<open>str.format\<close> can raise.
\<close>

record period_cfg =
  period_mode :: string
  reference_date :: ref_src
  manual_year :: "int option"
  manual_month :: "int option"
  id_format :: "int \<Rightarrow> int \<Rightarrow> string \<Rightarrow> exn + string"
  display_format :: "int \<Rightarrow> int \<Rightarrow> string \<Rightarrow> exn + string"
  payslip_date_format :: "pdate \<Rightarrow> string"

record period_info =
  pi_year :: int
  pi_month :: int
  period_id :: string
  period_display :: string
  payslip_date_str :: string

text \<open>\<^verbatim>\<open>SystemExit(message)\<close> is an exception of its own; it is not an \<^verbatim>\<open>Exception\<close>.\<close>

datatype raised = Exc exn | SystemExit string

text \<open>The year and month of the period, lines 98 to 116 of main.py.\<close>

definition target_year_month :: "period_cfg \<Rightarrow> pdate \<Rightarrow> raised + int \<times> int" where
  "target_year_month cfg ref_dt =
     (if period_mode cfg = ''manual'' then
        Inr (case manual_year cfg of None \<Rightarrow> d_year ref_dt | Some y \<Rightarrow> y,
             case manual_month cfg of None \<Rightarrow> d_month ref_dt | Some m \<Rightarrow> m)
      else if period_mode cfg = ''auto_current_month'' then
        Inr (d_year ref_dt, d_month ref_dt)
      else if period_mode cfg = ''auto_previous_month'' then
        (if d_month ref_dt = 1 then Inr (d_year ref_dt - 1, 12)
         else Inr (d_year ref_dt, d_month ref_dt - 1))
      else Inl (SystemExit ''Invalid run.period_mode.''))"

text \<open>Lines 118 to 139: the month name, the two formatted strings and the date string.\<close>

definition format_period :: "period_cfg \<Rightarrow> int \<Rightarrow> int \<Rightarrow> raised + period_info" where
  "format_period cfg y m =
     (case mk_date y m 1 of
        Inl e \<Rightarrow> Inl (Exc e)
      | Inr first_day \<Rightarrow>
          (let month_name = month_names ! nat (m - 1) in
           case id_format cfg y m month_name of
             Inl e \<Rightarrow> Inl (Exc e)
           | Inr pid \<Rightarrow>
               (case display_format cfg y m month_name of
                  Inl e \<Rightarrow> Inl (Exc e)
                | Inr disp \<Rightarrow>
                    Inr \<lparr>pi_year = y, pi_month = m, period_id = pid, period_display = disp,
                         payslip_date_str = payslip_date_format cfg first_day\<rparr>)))"

definition resolve_period :: "period_cfg \<Rightarrow> raised + period_info" where
  "resolve_period cfg =
     (case (case reference_date cfg of
              Today d \<Rightarrow> Inr d
            | Parsed None \<Rightarrow> Inl (SystemExit ''Invalid run.reference_date. Expected YYYY-MM-DD'')
            | Parsed (Some d) \<Rightarrow> Inr d) of
        Inl e \<Rightarrow> Inl e
      | Inr ref_dt \<Rightarrow>
          (case target_year_month cfg ref_dt of
             Inl e \<Rightarrow> Inl e
           | Inr (y, m) \<Rightarrow> format_period cfg y m))"

subsection \<open>Period resolution (\<^verbatim>\<open>resolve_pay_period\<close> of utils/date_resolver.py)\<close>

text \<open>
  Here the mode is read as it is configured (\<^verbatim>\<open>"auto_previous_month"\<close> when absent), the
  manual year and month are looked up with \<^verbatim>\<open>run_cfg["manual_period"]["year"]\<close>, which
  raises KeyError when absent, and an unparsable reference date raises ValueError. The
  identifier is formatted from the year and the month alone: no month name is passed.
\<close>

record pay_period =
  pp_year :: int
  pp_month :: int
  pp_month_name :: string
  pp_period_id :: string
  pp_period_display :: string
  pp_start_date :: pdate
  pp_end_date :: pdate

text \<open>\<^verbatim>\<open>calendar.month_name[month]\<close>: a list of 13 entries, the first one empty; a negative
  index counts from the end.\<close>

definition calendar_month_name :: "int \<Rightarrow> exn + string" where
  "calendar_month_name m =
     (let j = (if m < 0 then 13 + m else m)
      in if 0 \<le> j \<and> j < 13 then Inr (([] # month_names) ! nat j)
         else Inl IndexError)"

definition pay_year_month :: "period_cfg \<Rightarrow> pdate \<Rightarrow> exn + int \<times> int" where
  "pay_year_month cfg ref_date =
     (if period_mode cfg = ''manual'' then
        (case manual_year cfg of
           None \<Rightarrow> Inl (KeyError ''year'')
         | Some y \<Rightarrow>
             (case manual_month cfg of
                None \<Rightarrow> Inl (KeyError ''month'')
              | Some m \<Rightarrow> Inr (y, m)))
      else if period_mode cfg = ''auto_current_month'' then
        Inr (d_year ref_date, d_month ref_date)
      else if period_mode cfg = ''auto_previous_month'' then
        (let year = d_year ref_date; month = d_month ref_date - 1
         in if month = 0 then Inr (year - 1, 12) else Inr (year, month))
      else Inl (ValueError ''Unknown period_mode''))"

definition pay_period_of :: "period_cfg \<Rightarrow> int \<Rightarrow> int \<Rightarrow> exn + pay_period" where
  "pay_period_of cfg y m =
     (case calendar_month_name m of
        Inl e \<Rightarrow> Inl e
      | Inr month_name \<Rightarrow>
          (case mk_date y m 1 of
             Inl e \<Rightarrow> Inl e
           | Inr start_date \<Rightarrow>
               (case mk_date y m (days_in_month y m) of
                  Inl e \<Rightarrow> Inl e
                | Inr end_date \<Rightarrow>
                    (case id_format cfg y m [] of
                       Inl e \<Rightarrow> Inl e
                     | Inr pid \<Rightarrow>
                         (case display_format cfg y m month_name of
                            Inl e \<Rightarrow> Inl e
                          | Inr disp \<Rightarrow>
                              Inr \<lparr>pp_year = y, pp_month = m, pp_month_name = month_name,
                                   pp_period_id = pid, pp_period_display = disp,
                                   pp_start_date = start_date, pp_end_date = end_date\<rparr>)))))"

definition resolve_pay_period :: "period_cfg \<Rightarrow> exn + pay_period" where
  "resolve_pay_period cfg =
     (case (case reference_date cfg of
              Today d \<Rightarrow> Inr d
            | Parsed None \<Rightarrow> Inl (ValueError ''reference_date must be in YYYY-MM-DD format'')
            | Parsed (Some d) \<Rightarrow> Inr d) of
        Inl e \<Rightarrow> Inl e
      | Inr ref_date \<Rightarrow>
          (case pay_year_month cfg ref_date of
             Inl e \<Rightarrow> Inl e
           | Inr (y, m) \<Rightarrow> pay_period_of cfg y m))"

subsection \<open>Loading the employee records (\<^verbatim>\<open>load_employees\<close> of data_io/load_data.py)\<close>

text \<open>
  The data frame that \<^verbatim>\<open>pd.read_excel(..., dtype=str)\<close> returns: the column names, and
  the rows in sheet order, each a map from a column name to its cell. A cell is text, or
  null (\<open>None\<close>, pandas' NaN): \<^verbatim>\<open>read_excel\<close> reads an empty cell as null.
\<close>

record data_frame =
  columns :: "string list"
  rows :: "(string \<Rightarrow> string option) list"

text \<open>An employee record is a dict with the keys ref, name and email; a field that is
  \<open>None\<close> stands for a key that is absent or holds \<^verbatim>\<open>None\<close> (the loop of main.py reads
  the keys with \<^verbatim>\<open>emp.get(key) or ""\<close>).\<close>

record employee =
  ref :: "string option"
  name :: "string option"
  email :: "string option"

text \<open>\<^verbatim>\<open>row[col].strip()\<close>: KeyError for a column the frame does not have,
  AttributeError for a null cell (a float has no \<^verbatim>\<open>strip\<close>).\<close>

definition cell_strip :: "data_frame \<Rightarrow> (string \<Rightarrow> string option) \<Rightarrow> string \<Rightarrow> exn + string" where
  "cell_strip df row col =
     (if col \<notin> set (columns df) then Inl (KeyError col)
      else case row col of
             None \<Rightarrow> Inl (AttributeError ''float object has no attribute strip'')
           | Some s \<Rightarrow> Inr (strip s))"

definition build_record ::
  "data_frame \<Rightarrow> string \<Rightarrow> string \<Rightarrow> string \<Rightarrow> (string \<Rightarrow> string option) \<Rightarrow> exn + employee" where
  "build_record df reference_col name_col email_col row =
     (case cell_strip df row reference_col of
        Inl e \<Rightarrow> Inl e
      | Inr r \<Rightarrow>
          (case cell_strip df row name_col of
             Inl e \<Rightarrow> Inl e
           | Inr n \<Rightarrow>
               (case cell_strip df row email_col of
                  Inl e \<Rightarrow> Inl e
                | Inr m \<Rightarrow> Inr \<lparr>ref = Some r, name = Some n, email = Some m\<rparr>)))"

text \<open>The loop over \<^verbatim>\<open>df_clean.iterrows()\<close>: the first row that raises ends the call.\<close>

fun build_records ::
  "data_frame \<Rightarrow> string \<Rightarrow> string \<Rightarrow> string \<Rightarrow> (string \<Rightarrow> string option) list \<Rightarrow> exn + employee list" where
  "build_records df reference_col name_col email_col [] = Inr []"
| "build_records df reference_col name_col email_col (row # rest) =
     (case build_record df reference_col name_col email_col row of
        Inl e \<Rightarrow> Inl e
      | Inr emp \<Rightarrow>
          (case build_records df reference_col name_col email_col rest of
             Inl e \<Rightarrow> Inl e
           | Inr emps \<Rightarrow> Inr (emp # emps)))"

text \<open>\<^verbatim>\<open>df.dropna(subset=required)\<close> keeps the rows with no null in the listed columns.\<close>

definition complete_row :: "string list \<Rightarrow> (string \<Rightarrow> string option) \<Rightarrow> bool" where
  "complete_row required row = list_all (\<lambda>col. row col \<noteq> None) required"

definition dropna :: "string list \<Rightarrow> (string \<Rightarrow> string option) list \<Rightarrow> (string \<Rightarrow> string option) list" where
  "dropna required rs = filter (complete_row required) rs"

text \<open>
  \<^verbatim>\<open>
  df = pd.read_excel(workbook_path, sheet_name=sheet_name, dtype=str)
  missing_cols = [col for col in required_non_null_columns if col not in df.columns]
  if missing_cols:
      raise ValueError(f"Missing required columns in Data Source: {missing_cols}")
  df_clean = df.dropna(subset=required_non_null_columns)
  employees = []
  for _, row in df_clean.iterrows():
      employees.append({"ref": row[reference_col].strip(),
                        "name": row[name_col].strip(),
                        "email": row[email_col].strip()})
  return employees
  \<close>
  The first argument is what \<^verbatim>\<open>read_excel\<close> gave: the frame, or the exception it raised
  (no file, no such sheet).
\<close>

definition load_employees ::
  "exn + data_frame \<Rightarrow> string \<Rightarrow> string \<Rightarrow> string \<Rightarrow> string list \<Rightarrow> exn + employee list" where
  "load_employees source reference_col name_col email_col required_non_null_columns =
     (case source of
        Inl e \<Rightarrow> Inl e
      | Inr df \<Rightarrow>
          (let missing_cols = filter (\<lambda>col. col \<notin> set (columns df)) required_non_null_columns
           in if missing_cols \<noteq> [] then Inl (MissingColumns missing_cols)
              else build_records df reference_col name_col email_col
                     (dropna required_non_null_columns (rows df))))"

text \<open>The record that a row with three text cells gives.\<close>

definition record_of :: "string \<Rightarrow> string \<Rightarrow> string \<Rightarrow> (string \<Rightarrow> string option) \<Rightarrow> employee" where
  "record_of reference_col name_col email_col row =
     \<lparr>ref = map_option strip (row reference_col),
      name = map_option strip (row name_col),
      email = map_option strip (row email_col)\<rparr>"

subsection \<open>The world outside: files, external calls, sessions\<close>

text \<open>
  Every call into an external library or automation service (openpyxl, COM, Excel,
  Outlook) is an event. The trace holds the calls attempted so far, in order, each with
  whether it returned (\<open>True\<close>) or raised (\<open>False\<close>).
\<close>

datatype event =
    ComInit
  | ComUninit
  | ExcelDispatch bool
  | ExcelConfigure bool
  | ExcelSetCalcAuto
  | ExcelQuit
  | WbOpen string
  | ExcelCalculate bool
  | ExcelWaitCalc int
  | WbSave
  | ExportFixed string "string option" int bool bool
  | WbClose
  | OutlookDispatch
  | MailCreateItem
  | MailSetTo string
  | MailSetSubject string
  | MailSetBody string
  | MailSetSentOnBehalf string
  | MailAttach string
  | MailDisplay
  | MailSend
  | TemplateLoad string
  | TemplateSave string string string string

text \<open>A template workbook as openpyxl shows it: the defined names with their
  destinations (sheet, cell), and the sheets.\<close>

record workbook =
  defined_names :: "string \<Rightarrow> (string \<times> string) list option"
  sheet_names :: "string list"

text \<open>
  What the program cannot decide: whether an external call raises, given the calls made
  before it (\<open>fails\<close>); whether an export that returned has written its file
  (\<open>export_writes\<close>); \<^verbatim>\<open>os.path.abspath\<close>; whether pywin32 could be imported; the
  workbook that \<^verbatim>\<open>load_workbook\<close> reads at a path.
\<close>

record env =
  fails :: "(event \<times> bool) list \<Rightarrow> event \<Rightarrow> exn option"
  export_writes :: "(event \<times> bool) list \<Rightarrow> bool"
  abspath :: "string \<Rightarrow> string"
  win32com_available :: bool
  workbook_at :: "string \<Rightarrow> workbook"

text \<open>
  The state: the files that exist, the trace, the warnings logged, and the two session
  handles \<^verbatim>\<open>ExcelPdfExporter.excel\<close> and \<^verbatim>\<open>OutlookEmailSender.outlook\<close>
  (\<open>False\<close> is \<^verbatim>\<open>None\<close>).
\<close>

record world =
  files :: "string set"
  trace :: "(event \<times> bool) list"
  warnings :: "string list"
  excel :: bool
  outlook :: bool

definition ext_call :: "env \<Rightarrow> event \<Rightarrow> world \<Rightarrow> (exn + unit) \<times> world" where
  "ext_call ev_env ev w =
     (case fails ev_env (trace w) ev of
        None \<Rightarrow> (Inr (), w\<lparr>trace := trace w @ [(ev, True)]\<rparr>)
      | Some e \<Rightarrow> (Inl e, w\<lparr>trace := trace w @ [(ev, False)]\<rparr>))"

text \<open>Calls in a row; the first that raises ends them.\<close>

fun ext_calls :: "env \<Rightarrow> event list \<Rightarrow> world \<Rightarrow> (exn + unit) \<times> world" where
  "ext_calls ev_env [] w = (Inr (), w)"
| "ext_calls ev_env (ev # evs) w =
     (case ext_call ev_env ev w of
        (Inl e, w') \<Rightarrow> (Inl e, w')
      | (Inr _, w') \<Rightarrow> ext_calls ev_env evs w')"

text \<open>
  \<^verbatim>\<open>with obj as x: body\<close>. When \<^verbatim>\<open>__enter__\<close> raises, neither the body nor
  \<^verbatim>\<open>__exit__\<close> runs. Otherwise \<^verbatim>\<open>__exit__\<close> runs however the body ends; both
  \<^verbatim>\<open>__exit__\<close> methods return \<^verbatim>\<open>None\<close>, so an exception of the body goes on, unless
  \<^verbatim>\<open>__exit__\<close> itself raises.
\<close>

definition with_session ::
  "(world \<Rightarrow> (exn + unit) \<times> world) \<Rightarrow> (world \<Rightarrow> (exn + unit) \<times> world) \<Rightarrow>
   (world \<Rightarrow> (exn + 'a) \<times> world) \<Rightarrow> world \<Rightarrow> (exn + 'a) \<times> world" where
  "with_session enter exit body w =
     (case enter w of
        (Inl e, w1) \<Rightarrow> (Inl e, w1)
      | (Inr _, w1) \<Rightarrow>
          (case body w1 of
             (r, w2) \<Rightarrow>
               (case exit w2 of
                  (Inl e, w3) \<Rightarrow> (Inl e, w3)
                | (Inr _, w3) \<Rightarrow> (r, w3))))"

subsection \<open>The mail sender (email/outlook_sender.py)\<close>

definition sender_enter :: "env \<Rightarrow> world \<Rightarrow> (exn + unit) \<times> world" where
  "sender_enter ev_env w =
     (case ext_call ev_env ComInit w of
        (Inl e, w1) \<Rightarrow> (Inl e, w1)
      | (Inr _, w1) \<Rightarrow>
          (case ext_call ev_env OutlookDispatch w1 of
             (Inl e, w2) \<Rightarrow> (Inl (RuntimeError ''Failed to start Outlook COM automation.''), w2)
           | (Inr _, w2) \<Rightarrow> (Inr (), w2\<lparr>outlook := True\<rparr>)))"

definition sender_exit :: "env \<Rightarrow> world \<Rightarrow> (exn + unit) \<times> world" where
  "sender_exit ev_env w = ext_call ev_env ComUninit (w\<lparr>outlook := False\<rparr>)"

text \<open>The calls of \<^verbatim>\<open>send_email\<close> that create the message and set its fields.\<close>

definition message_calls :: "string \<Rightarrow> string \<Rightarrow> string \<Rightarrow> string option \<Rightarrow> event list" where
  "message_calls to_address subject body sender_mailbox =
     [MailCreateItem, MailSetTo to_address, MailSetSubject subject, MailSetBody body]
     @ (case sender_mailbox of
          None \<Rightarrow> []
        | Some m \<Rightarrow> if m = [] then [] else [MailSetSentOnBehalf m])"

text \<open>The part of \<^verbatim>\<open>send_email\<close> after the message fields are set: the attachment, then
  \<^verbatim>\<open>Display\<close> or \<^verbatim>\<open>Send\<close>.\<close>

definition attach_and_send ::
  "env \<Rightarrow> string \<Rightarrow> string option \<Rightarrow> world \<Rightarrow> (exn + unit) \<times> world" where
  "attach_and_send ev_env send_mode attachment_path w =
     (let final = (if send_mode = ''display'' then MailDisplay else MailSend) in
      case attachment_path of
        None \<Rightarrow> ext_call ev_env final w
      | Some p \<Rightarrow>
          if p = [] then ext_call ev_env final w
          else if abspath ev_env p \<notin> files w
            then (Inl (FileNotFoundError (abspath ev_env p)), w)
          else ext_calls ev_env [MailAttach (abspath ev_env p), final] w)"

text \<open>
  \<^verbatim>\<open>
  def send_email(self, to_address, subject, body, attachment_path=None, sender_mailbox=None):
      if not to_address or not isinstance(to_address, str):
          raise ValueError("Recipient email address is missing or invalid")
      if not subject:
          raise ValueError("Email subject cannot be empty")
      if not body:
          raise ValueError("Email body cannot be empty")
      mail = self.outlook.CreateItem(0)
      mail.To = to_address
      mail.Subject = subject
      mail.Body = body
      if sender_mailbox:
          mail.SentOnBehalfOfName = sender_mailbox
      if attachment_path:
          attachment_path = os.path.abspath(attachment_path)
          if not os.path.exists(attachment_path):
              raise FileNotFoundError(f"Attachment not found: {attachment_path}")
          mail.Attachments.Add(attachment_path)
      if self.send_mode == "display":
          mail.Display()
      else:
          mail.Send()
  \<close>
  The three texts are strings here, so the \<^verbatim>\<open>isinstance\<close> test holds. Outside a
  \<^verbatim>\<open>with\<close> block \<^verbatim>\<open>self.outlook\<close> is \<^verbatim>\<open>None\<close> and \<^verbatim>\<open>CreateItem\<close> raises
  AttributeError.
\<close>

definition send_email ::
  "env \<Rightarrow> string \<Rightarrow> string \<Rightarrow> string \<Rightarrow> string \<Rightarrow> string option \<Rightarrow> string option \<Rightarrow>
   world \<Rightarrow> (exn + unit) \<times> world" where
  "send_email ev_env send_mode to_address subject body attachment_path sender_mailbox w =
     (if to_address = [] then (Inl (ValueError ''Recipient email address is missing or invalid''), w)
      else if subject = [] then (Inl (ValueError ''Email subject cannot be empty''), w)
      else if body = [] then (Inl (ValueError ''Email body cannot be empty''), w)
      else if \<not> outlook w
        then (Inl (AttributeError ''NoneType object has no attribute CreateItem''), w)
      else
        (case ext_calls ev_env (message_calls to_address subject body sender_mailbox) w of
           (Inl e, w1) \<Rightarrow> (Inl e, w1)
         | (Inr _, w1) \<Rightarrow> attach_and_send ev_env send_mode attachment_path w1))"

text \<open>The calls of the trace that reach the mail session.\<close>

fun is_mail_event :: "event \<Rightarrow> bool" where
  "is_mail_event MailCreateItem = True"
| "is_mail_event (MailSetTo _) = True"
| "is_mail_event (MailSetSubject _) = True"
| "is_mail_event (MailSetBody _) = True"
| "is_mail_event (MailSetSentOnBehalf _) = True"
| "is_mail_event (MailAttach _) = True"
| "is_mail_event MailDisplay = True"
| "is_mail_event MailSend = True"
| "is_mail_event _ = False"

definition mail_calls :: "(event \<times> bool) list \<Rightarrow> event list" where
  "mail_calls tr = filter is_mail_event (map fst tr)"

subsection \<open>The exporter (pdf/excel_pdf_exporter.py)\<close>

record exporter =
  visible :: bool
  timeout_seconds :: int
  force_full_recalc :: bool
  save_before_export :: bool
  use_fresh_instance :: bool

text \<open>\<^verbatim>\<open>ExcelPdfExporter()\<close>, as main.py constructs it.\<close>

definition default_exporter :: exporter where
  "default_exporter = \<lparr>visible = False, timeout_seconds = 30, force_full_recalc = True,
     save_before_export = True, use_fresh_instance = True\<rparr>"

text \<open>
  \<^verbatim>\<open>__enter__\<close>: RuntimeError without pywin32; then \<^verbatim>\<open>CoInitialize\<close>, the dispatch
  (which sets \<^verbatim>\<open>self.excel\<close>), the four property assignments, and the calculation mode,
  whose failure is swallowed.
\<close>

definition exporter_enter :: "env \<Rightarrow> exporter \<Rightarrow> world \<Rightarrow> (exn + unit) \<times> world" where
  "exporter_enter ev_env ex w =
     (if \<not> win32com_available ev_env
        then (Inl (RuntimeError ''ExcelPdfExporter requires Windows + Microsoft Excel + pywin32.''), w)
      else
        (case ext_calls ev_env [ComInit, ExcelDispatch (use_fresh_instance ex)] w of
           (Inl e, w1) \<Rightarrow> (Inl e, w1)
         | (Inr _, w1) \<Rightarrow>
             (case ext_call ev_env (ExcelConfigure (visible ex)) (w1\<lparr>excel := True\<rparr>) of
                (Inl e, w2) \<Rightarrow> (Inl e, w2)
              | (Inr _, w2) \<Rightarrow> (Inr (), snd (ext_call ev_env ExcelSetCalcAuto w2)))))"

text \<open>
  \<^verbatim>\<open>__exit__\<close>: \<^verbatim>\<open>Quit\<close> when there is a session, then \<^verbatim>\<open>self.excel = None\<close> and
  \<^verbatim>\<open>CoUninitialize\<close>; whatever these raise is swallowed.
\<close>

definition exporter_exit :: "env \<Rightarrow> world \<Rightarrow> (exn + unit) \<times> world" where
  "exporter_exit ev_env w =
     (let w1 = (if excel w then snd (ext_call ev_env ExcelQuit w) else w)
      in (Inr (), snd (ext_call ev_env ComUninit (w1\<lparr>excel := False\<rparr>))))"

text \<open>
  The wait for the recalculation, lines 194 to 211:
  \<^verbatim>\<open>
  start = time.time()
  while getattr(self.excel, "CalculationState", 0) != 0:
      if time.time() - start > self.timeout_seconds:
          raise TimeoutError(...)
      time.sleep(0.2)
  \<close>
  \<open>calc_state k\<close> is what the indicator reads at poll number \<open>k\<close> (from 0), and
  \<open>clock k\<close> is reading number \<open>k\<close> of \<^verbatim>\<open>time.time()\<close>, in milliseconds: reading 0 is
  \<open>start\<close>, and reading \<open>k + 1\<close> is the one taken after poll \<open>k\<close>. Between the reading
  \<open>k + 1\<close> and the next one lies the sleep of 200 ms. The loop is not bounded by its
  form, so the function is partial: \<open>None\<close> is a wait that never ends. The result holds
  the number of sleeps.
\<close>

partial_function (option) wait_loop ::
  "(nat \<Rightarrow> int) \<Rightarrow> (nat \<Rightarrow> int) \<Rightarrow> int \<Rightarrow> nat \<Rightarrow> ((exn + unit) \<times> nat) option" where
  "wait_loop calc_state clock timeout_ms k =
     (if calc_state k = 0 then Some (Inr (), k)
      else if clock (Suc k) - clock 0 > timeout_ms then Some (Inl TimeoutError, k)
      else wait_loop calc_state clock timeout_ms (Suc k))"

definition wait_for_calculation ::
  "exporter \<Rightarrow> (nat \<Rightarrow> int) \<Rightarrow> (nat \<Rightarrow> int) \<Rightarrow> ((exn + unit) \<times> nat) option" where
  "wait_for_calculation ex calc_state clock =
     wait_loop calc_state clock (1000 * timeout_seconds ex) 0"

text \<open>
  \<^verbatim>\<open>_force_recalc_and_wait\<close> inside the pipeline: the recalculation call, then the wait,
  whose outcome (done, TimeoutError, or an error of the session) comes from the world.
\<close>

definition force_recalc_and_wait :: "env \<Rightarrow> exporter \<Rightarrow> world \<Rightarrow> (exn + unit) \<times> world" where
  "force_recalc_and_wait ev_env ex w =
     ext_calls ev_env [ExcelCalculate (force_full_recalc ex), ExcelWaitCalc (timeout_seconds ex)] w"

record pdf_options =
  sheet_name :: "string option"
  quality :: string
  open_after_publish :: bool
  ignore_print_areas :: bool

definition quality_code :: "string \<Rightarrow> int" where
  "quality_code q = (if q = ''minimum'' then 1 else 0)"

definition sheet_arg :: "string option \<Rightarrow> string option" where
  "sheet_arg s = (case s of None \<Rightarrow> None | Some n \<Rightarrow> if n = [] then None else Some n)"

text \<open>The body of the \<^verbatim>\<open>try\<close> of \<^verbatim>\<open>export\<close>, after the workbook is open.\<close>

definition export_open ::
  "env \<Rightarrow> exporter \<Rightarrow> string \<Rightarrow> pdf_options \<Rightarrow> world \<Rightarrow> (exn + string) \<times> world" where
  "export_open ev_env ex output_pdf_path opts w =
     (case force_recalc_and_wait ev_env ex w of
        (Inl e, w1) \<Rightarrow> (Inl e, w1)
      | (Inr _, w1) \<Rightarrow>
          (let w2 = (if save_before_export ex then
                       (case ext_call ev_env WbSave w1 of
                          (Inl e, w') \<Rightarrow>
                            w'\<lparr>warnings := warnings w' @ [''Workbook save before export failed'']\<rparr>
                        | (Inr _, w') \<Rightarrow> w')
                     else w1)
           in case ext_call ev_env
                     (ExportFixed output_pdf_path (sheet_arg (sheet_name opts))
                        (quality_code (quality opts)) (ignore_print_areas opts)
                        (open_after_publish opts)) w2 of
                (Inl e, w3) \<Rightarrow> (Inl e, w3)
              | (Inr _, w3) \<Rightarrow>
                  (let w4 = (if export_writes ev_env (trace w3)
                             then w3\<lparr>files := insert output_pdf_path (files w3)\<rparr> else w3)
                   in if output_pdf_path \<notin> files w4
                        then (Inl (RuntimeError ''PDF export failed (no file created)''), w4)
                      else (Inr output_pdf_path, w4))))"

text \<open>
  \<^verbatim>\<open>export\<close>: no session, no source workbook, or the open raises (then there is nothing
  to close); otherwise the body above, and \<^verbatim>\<open>wb.Close(SaveChanges=False)\<close> in the
  \<^verbatim>\<open>finally\<close>, its own failure swallowed. The directories are not part of the state.
\<close>

definition export ::
  "env \<Rightarrow> exporter \<Rightarrow> string \<Rightarrow> string \<Rightarrow> pdf_options \<Rightarrow> world \<Rightarrow> (exn + string) \<times> world" where
  "export ev_env ex workbook_path output_pdf_path opts w =
     (if \<not> excel w
        then (Inl (RuntimeError ''ExcelPdfExporter not initialized. Use within a with block.''), w)
      else if abspath ev_env workbook_path \<notin> files w
        then (Inl (FileNotFoundError (abspath ev_env workbook_path)), w)
      else
        (case ext_call ev_env (WbOpen (abspath ev_env workbook_path)) w of
           (Inl e, w1) \<Rightarrow> (Inl e, w1)
         | (Inr _, w1) \<Rightarrow>
             (case export_open ev_env ex (abspath ev_env output_pdf_path) opts w1 of
                (r, w2) \<Rightarrow> (r, snd (ext_call ev_env WbClose w2)))))"

subsection \<open>The template writer (data_io/template_writer.py)\<close>

definition write_employee_to_template ::
  "env \<Rightarrow> string \<Rightarrow> string \<Rightarrow> string \<Rightarrow> string \<Rightarrow> world \<Rightarrow> (exn + unit) \<times> world" where
  "write_employee_to_template ev_env template_path output_path employee_ref named_range w =
     (case ext_call ev_env (TemplateLoad template_path) w of
        (Inl e, w1) \<Rightarrow> (Inl e, w1)
      | (Inr _, w1) \<Rightarrow>
          (case defined_names (workbook_at ev_env template_path) named_range of
             None \<Rightarrow> (Inl (ValueError ''Named range not found in workbook''), w1)
           | Some [] \<Rightarrow> (Inl (ValueError ''Named range has no destinations''), w1)
           | Some ((sheet, cell_ref) # _) \<Rightarrow>
               if sheet \<notin> set (sheet_names (workbook_at ev_env template_path))
                 then (Inl (KeyError sheet), w1)
               else
                 (case ext_call ev_env (TemplateSave output_path sheet cell_ref employee_ref) w1 of
                    (Inl e, w2) \<Rightarrow> (Inl e, w2)
                  | (Inr _, w2) \<Rightarrow> (Inr (), w2\<lparr>files := insert output_path (files w2)\<rparr>))))"

subsection \<open>The run (\<^verbatim>\<open>main\<close> of main.py)\<close>

text \<open>
  What \<^verbatim>\<open>main\<close> has resolved before the loop: the capabilities, the directories, the
  template, the period, the options. The pattern and the two templates are the
  results of \<^verbatim>\<open>str.format\<close> on the configured texts, as functions of the values
  substituted (reference, name and period).
\<close>

record run_ctx =
  pdf_enabled :: bool
  email_enabled :: bool
  xlsx_dir :: string
  pdf_dir :: string
  template_path :: string
  employee_ref_named_range :: string
  filename_pattern :: "string \<Rightarrow> string \<Rightarrow> string \<Rightarrow> exn + string"
  subject_tmpl :: "string \<Rightarrow> string \<Rightarrow> period_info \<Rightarrow> exn + string"
  body_tmpl :: "string \<Rightarrow> string \<Rightarrow> period_info \<Rightarrow> exn + string"
  period :: period_info
  pdf_opts :: pdf_options
  excel_exporter :: exporter
  send_mode :: string
  sender_mailbox :: "string option"

text \<open>\<^verbatim>\<open>(emp.get(key) or "").strip()\<close>\<close>

definition field_text :: "string option \<Rightarrow> string" where
  "field_text v = strip (case v of None \<Rightarrow> [] | Some s \<Rightarrow> s)"

definition path_join :: "string \<Rightarrow> string \<Rightarrow> string" where
  "path_join dir file = dir @ ''/'' @ file"

definition xlsx_path :: "run_ctx \<Rightarrow> string \<Rightarrow> string" where
  "xlsx_path ctx file_stem = path_join (xlsx_dir ctx) (file_stem @ ''.xlsx'')"

definition pdf_path :: "run_ctx \<Rightarrow> string \<Rightarrow> string" where
  "pdf_path ctx file_stem = path_join (pdf_dir ctx) (file_stem @ ''.pdf'')"

text \<open>Lines 333 to 335: the sanitised name of the employee's files.\<close>

definition file_stem_of :: "run_ctx \<Rightarrow> employee \<Rightarrow> exn + string" where
  "file_stem_of ctx emp =
     (case filename_pattern ctx (field_text (ref emp)) (field_text (name emp))
             (period_id (period ctx)) of
        Inl e \<Rightarrow> Inl e
      | Inr raw_filename \<Rightarrow> Inr (safe_filename raw_filename default_max_len))"

text \<open>Lines 347 to 357. \<^verbatim>\<open>excel_exporter\<close> is not \<^verbatim>\<open>None\<close> exactly when pdf is enabled.\<close>

definition pdf_stage :: "run_ctx \<Rightarrow> env \<Rightarrow> string \<Rightarrow> world \<Rightarrow> (exn + unit) \<times> world" where
  "pdf_stage ctx ev_env file_stem w =
     (if pdf_enabled ctx then
        (case with_session (exporter_enter ev_env (excel_exporter ctx)) (exporter_exit ev_env)
                (export ev_env (excel_exporter ctx) (xlsx_path ctx file_stem)
                   (pdf_path ctx file_stem) (pdf_opts ctx)) w of
           (Inl e, w') \<Rightarrow> (Inl e, w')
         | (Inr _, w') \<Rightarrow> (Inr (), w'))
      else (Inr (), w))"

definition skip_warning :: "string \<Rightarrow> string" where
  "skip_warning emp_ref = ''No email for ref='' @ emp_ref @ ''; skipping email.''"

text \<open>Lines 359 to 388. \<^verbatim>\<open>outlook_sender\<close> is not \<^verbatim>\<open>None\<close> exactly when email is
  enabled.\<close>

definition email_stage ::
  "run_ctx \<Rightarrow> env \<Rightarrow> employee \<Rightarrow> string \<Rightarrow> world \<Rightarrow> (exn + unit) \<times> world" where
  "email_stage ctx ev_env emp file_stem w =
     (if email_enabled ctx then
        (if field_text (email emp) = []
           then (Inr (), w\<lparr>warnings := warnings w @ [skip_warning (field_text (ref emp))]\<rparr>)
         else
           (case subject_tmpl ctx (field_text (name emp)) (field_text (ref emp)) (period ctx) of
              Inl e \<Rightarrow> (Inl e, w)
            | Inr subject \<Rightarrow>
                (case body_tmpl ctx (field_text (name emp)) (field_text (ref emp)) (period ctx) of
                   Inl e \<Rightarrow> (Inl e, w)
                 | Inr body \<Rightarrow>
                     (let attachment = (if pdf_enabled ctx then pdf_path ctx file_stem
                                        else xlsx_path ctx file_stem)
                      in with_session (sender_enter ev_env) (sender_exit ev_env)
                           (send_email ev_env (send_mode ctx) (field_text (email emp)) subject body
                              (Some attachment) (sender_mailbox ctx)) w))))
      else (Inr (), w))"

text \<open>
  One iteration of the loop, lines 324 to 390. The result \<open>Inr False\<close> is the
  \<^verbatim>\<open>continue\<close> of a record without a reference, \<open>Inr True\<close> an iteration that reached
  \<^verbatim>\<open>processed += 1\<close>, \<open>Inl e\<close> an exception that leaves the iteration: the loop body
  holds no \<^verbatim>\<open>try\<close>.
\<close>

definition process_employee :: "run_ctx \<Rightarrow> env \<Rightarrow> employee \<Rightarrow> world \<Rightarrow> (exn + bool) \<times> world" where
  "process_employee ctx ev_env emp w =
     (if field_text (ref emp) = []
        then (Inr False, w\<lparr>warnings := warnings w @ [''Skipping employee with missing ref.'']\<rparr>)
      else
        (case file_stem_of ctx emp of
           Inl e \<Rightarrow> (Inl e, w)
         | Inr file_stem \<Rightarrow>
             (case write_employee_to_template ev_env (template_path ctx)
                     (xlsx_path ctx file_stem) (field_text (ref emp))
                     (employee_ref_named_range ctx) w of
                (Inl e, w1) \<Rightarrow> (Inl e, w1)
              | (Inr _, w1) \<Rightarrow>
                  (case pdf_stage ctx ev_env file_stem w1 of
                     (Inl e, w2) \<Rightarrow> (Inl e, w2)
                   | (Inr _, w2) \<Rightarrow>
                       (case email_stage ctx ev_env emp file_stem w2 of
                          (Inl e, w3) \<Rightarrow> (Inl e, w3)
                        | (Inr _, w3) \<Rightarrow> (Inr True, w3))))))"

text \<open>The loop with its counter \<^verbatim>\<open>processed\<close>.\<close>

fun main_loop :: "run_ctx \<Rightarrow> env \<Rightarrow> employee list \<Rightarrow> world \<Rightarrow> nat \<Rightarrow> (exn + nat) \<times> world" where
  "main_loop ctx ev_env [] w processed = (Inr processed, w)"
| "main_loop ctx ev_env (emp # rest) w processed =
     (case process_employee ctx ev_env emp w of
        (Inl e, w') \<Rightarrow> (Inl e, w')
      | (Inr counted, w') \<Rightarrow>
          main_loop ctx ev_env rest w' (if counted then Suc processed else processed))"

record source_cfg =
  reference_col :: string
  name_col :: string
  email_col :: string
  required_cols :: "string list"

text \<open>
  \<^verbatim>\<open>main\<close> from the loading on (lines 264 to 394): the records, the exit when there is
  none, the construction of the sender (which rejects a send mode other than send and
  display), the loop. The result \<open>Inr n\<close> is the return after the line that reports
  \<open>n\<close> employees.
\<close>

definition main_run ::
  "run_ctx \<Rightarrow> env \<Rightarrow> source_cfg \<Rightarrow> exn + data_frame \<Rightarrow> world \<Rightarrow> (raised + nat) \<times> world" where
  "main_run ctx ev_env src source w =
     (case load_employees source (reference_col src) (name_col src) (email_col src)
             (required_cols src) of
        Inl e \<Rightarrow> (Inl (Exc e), w)
      | Inr employees \<Rightarrow>
          if employees = []
            then (Inl (SystemExit ''No employees found after filtering required columns.''), w)
          else if email_enabled ctx \<and> send_mode ctx \<noteq> ''send'' \<and> send_mode ctx \<noteq> ''display''
            then (Inl (Exc (ValueError ''send_mode must be send or display'')), w)
          else
            (case main_loop ctx ev_env employees w 0 of
               (Inl e, w') \<Rightarrow> (Inl (Exc e), w')
             | (Inr processed, w') \<Rightarrow> (Inr processed, w')))"

text \<open>
  The guard at the end of main.py: a SystemExit goes through, any other exception
  becomes a SystemExit with a message. A SystemExit that carries a message ends the
  process with status 1; a return from \<^verbatim>\<open>main\<close> ends it with status 0.
\<close>

datatype outcome = Completed nat | Exited string

definition main_guard :: "raised + nat \<Rightarrow> outcome" where
  "main_guard r =
     (case r of
        Inr processed \<Rightarrow> Completed processed
      | Inl (SystemExit msg) \<Rightarrow> Exited msg
      | Inl (Exc e) \<Rightarrow> Exited ''An unexpected error occurred.'')"

fun exit_code :: "outcome \<Rightarrow> int" where
  "exit_code (Completed _) = 0"
| "exit_code (Exited _) = 1"

text \<open>Counting in a trace: the calls of an event that returned, and all calls of it.\<close>

definition n_ok :: "event \<Rightarrow> (event \<times> bool) list \<Rightarrow> nat" where
  "n_ok ev tr = length (filter (\<lambda>c. c = (ev, True)) tr)"

definition n_calls :: "event \<Rightarrow> (event \<times> bool) list \<Rightarrow> nat" where
  "n_calls ev tr = length (filter (\<lambda>c. fst c = ev) tr)"

subsection \<open>Reading a trace\<close>

text \<open>The service an event belongs to.\<close>

datatype service = Com | ExcelApp | ExcelWorkbook | OutlookApp | MailItem | Template

fun service_of :: "event \<Rightarrow> service" where
  "service_of ComInit = Com"
| "service_of ComUninit = Com"
| "service_of (ExcelDispatch _) = ExcelApp"
| "service_of (ExcelConfigure _) = ExcelApp"
| "service_of ExcelSetCalcAuto = ExcelApp"
| "service_of ExcelQuit = ExcelApp"
| "service_of (WbOpen _) = ExcelWorkbook"
| "service_of (ExcelCalculate _) = ExcelWorkbook"
| "service_of (ExcelWaitCalc _) = ExcelWorkbook"
| "service_of WbSave = ExcelWorkbook"
| "service_of (ExportFixed _ _ _ _ _) = ExcelWorkbook"
| "service_of WbClose = ExcelWorkbook"
| "service_of OutlookDispatch = OutlookApp"
| "service_of MailCreateItem = MailItem"
| "service_of (MailSetTo _) = MailItem"
| "service_of (MailSetSubject _) = MailItem"
| "service_of (MailSetBody _) = MailItem"
| "service_of (MailSetSentOnBehalf _) = MailItem"
| "service_of (MailAttach _) = MailItem"
| "service_of MailDisplay = MailItem"
| "service_of MailSend = MailItem"
| "service_of (TemplateLoad _) = Template"
| "service_of (TemplateSave _ _ _ _) = Template"

text \<open>
  \<open>grows S w w'\<close>: from \<open>w\<close> to \<open>w'\<close> the trace has grown by calls to the services
  \<open>S\<close>, and no file has gone.
\<close>

definition grows :: "service set \<Rightarrow> world \<Rightarrow> world \<Rightarrow> bool" where
  "grows S w w' =
     (\<exists>tr. trace w' = trace w @ tr \<and> list_all (\<lambda>c. service_of (fst c) \<in> S) tr
        \<and> files w \<subseteq> files w')"

text \<open>Both session handles are \<^verbatim>\<open>None\<close>.\<close>

definition released :: "world \<Rightarrow> bool" where
  "released w = (\<not> excel w \<and> \<not> outlook w)"

text \<open>The call that ends a message: \<^verbatim>\<open>Display\<close> or \<^verbatim>\<open>Send\<close>.\<close>

definition final_call :: "run_ctx \<Rightarrow> event" where
  "final_call ctx = (if send_mode ctx = ''display'' then MailDisplay else MailSend)"

text \<open>The file stem of an employee whose name pattern formats.\<close>

definition stem_of :: "run_ctx \<Rightarrow> employee \<Rightarrow> string" where
  "stem_of ctx emp = (case file_stem_of ctx emp of Inl e \<Rightarrow> [] | Inr s \<Rightarrow> s)"

definition has_ref :: "employee \<Rightarrow> bool" where
  "has_ref emp = (field_text (ref emp) \<noteq> [])"

definition has_email :: "employee \<Rightarrow> bool" where
  "has_email emp = (field_text (email emp) \<noteq> [])"

text \<open>The paths given to \<^verbatim>\<open>Attachments.Add\<close>, the recipients set, the workbooks the
  template writer saved and the files the exports that returned were asked for.\<close>

fun attach_of :: "event \<times> bool \<Rightarrow> string list" where
  "attach_of (MailAttach p, _) = [p]"
| "attach_of _ = []"

definition attached :: "(event \<times> bool) list \<Rightarrow> string list" where
  "attached tr = concat (map attach_of tr)"

fun recipient_of :: "event \<times> bool \<Rightarrow> string list" where
  "recipient_of (MailSetTo a, _) = [a]"
| "recipient_of _ = []"

definition recipients :: "(event \<times> bool) list \<Rightarrow> string list" where
  "recipients tr = concat (map recipient_of tr)"

fun saved_of :: "event \<times> bool \<Rightarrow> string list" where
  "saved_of (TemplateSave p _ _ _, True) = [p]"
| "saved_of _ = []"

definition saved_workbooks :: "(event \<times> bool) list \<Rightarrow> string list" where
  "saved_workbooks tr = concat (map saved_of tr)"

fun exported_of :: "event \<times> bool \<Rightarrow> string list" where
  "exported_of (ExportFixed p _ _ _ _, True) = [p]"
| "exported_of _ = []"

definition exported_files :: "(event \<times> bool) list \<Rightarrow> string list" where
  "exported_files tr = concat (map exported_of tr)"

text \<open>
  A run where nothing outside goes wrong: no external call raises, every export writes
  its file, paths are absolute already, pywin32 is there.
\<close>

definition quiet :: "env \<Rightarrow> bool" where
  "quiet ev_env = ((\<forall>tr ev. fails ev_env tr ev = None) \<and> (\<forall>tr. export_writes ev_env tr)
     \<and> (\<forall>p. abspath ev_env p = p) \<and> win32com_available ev_env)"

text \<open>The named range of the template has a destination, on a sheet of the workbook.\<close>

definition template_ok :: "run_ctx \<Rightarrow> env \<Rightarrow> bool" where
  "template_ok ctx ev_env =
     (case defined_names (workbook_at ev_env (template_path ctx)) (employee_ref_named_range ctx) of
        None \<Rightarrow> False
      | Some [] \<Rightarrow> False
      | Some ((sheet, cell_ref) # _) \<Rightarrow>
          sheet \<in> set (sheet_names (workbook_at ev_env (template_path ctx))))"

text \<open>The name pattern and the two message templates format, and the subject and the
  body they give are not empty.\<close>

definition formats_ok :: "run_ctx \<Rightarrow> bool" where
  "formats_ok ctx =
     ((\<forall>r n d. \<exists>s. filename_pattern ctx r n d = Inr s)
      \<and> (\<forall>n r p. \<exists>s. subject_tmpl ctx n r p = Inr s \<and> s \<noteq> [])
      \<and> (\<forall>n r p. \<exists>s. body_tmpl ctx n r p = Inr s \<and> s \<noteq> []))"

text \<open>The calls of the two optional stages for one employee when nothing raises: the
  export session around one export, the mail session around one message.\<close>

definition pdf_calls :: "run_ctx \<Rightarrow> string \<Rightarrow> event list" where
  "pdf_calls ctx stem =
     [ComInit, ExcelDispatch (use_fresh_instance (excel_exporter ctx)),
      ExcelConfigure (visible (excel_exporter ctx)), ExcelSetCalcAuto,
      WbOpen (xlsx_path ctx stem), ExcelCalculate (force_full_recalc (excel_exporter ctx)),
      ExcelWaitCalc (timeout_seconds (excel_exporter ctx))]
     @ (if save_before_export (excel_exporter ctx) then [WbSave] else [])
     @ [ExportFixed (pdf_path ctx stem) (sheet_arg (sheet_name (pdf_opts ctx)))
          (quality_code (quality (pdf_opts ctx))) (ignore_print_areas (pdf_opts ctx))
          (open_after_publish (pdf_opts ctx)),
        WbClose, ExcelQuit, ComUninit]"

definition mail_session_calls :: "run_ctx \<Rightarrow> string \<Rightarrow> string \<Rightarrow> string \<Rightarrow> string \<Rightarrow> event list" where
  "mail_session_calls ctx to_address subject body attachment =
     [ComInit, OutlookDispatch] @ message_calls to_address subject body (sender_mailbox ctx)
     @ [MailAttach attachment, final_call ctx, ComUninit]"

subsection \<open>Concrete inputs\<close>

text \<open>A row given by its cells; a column that is not listed is null.\<close>

definition row_of :: "(string \<times> string option) list \<Rightarrow> string \<Rightarrow> string option" where
  "row_of cells col = (case map_of cells col of None \<Rightarrow> None | Some v \<Rightarrow> v)"

definition std_columns :: "string list" where
  "std_columns = [''Reference Number'', ''Employee Name'', ''Email'']"

text \<open>Two rows, the second without an email.\<close>

definition df_two_rows :: data_frame where
  "df_two_rows = \<lparr>columns = std_columns,
     rows = [row_of [(''Reference Number'', Some ''A1''), (''Employee Name'', Some '' Ann ''),
                     (''Email'', Some ''ann@example.org'')],
             row_of [(''Reference Number'', Some ''A2''), (''Employee Name'', Some ''Bob''),
                     (''Email'', None)]]\<rparr>"

text \<open>One row whose reference cell holds a single blank.\<close>

definition df_blank_ref :: data_frame where
  "df_blank_ref = \<lparr>columns = std_columns,
     rows = [row_of [(''Reference Number'', Some '' ''), (''Employee Name'', Some ''Bob''),
                     (''Email'', Some ''bob@example.org'')]]\<rparr>"

text \<open>A sheet that has the reference column only.\<close>

definition df_ref_only :: data_frame where
  "df_ref_only = \<lparr>columns = [''Reference Number''],
     rows = [row_of [(''Reference Number'', Some ''A1'')]]\<rparr>"

text \<open>A configuration in the mode \<^verbatim>\<open>auto_previous_month\<close> with the reference date
  given; its patterns hold no field but the month name of the display.\<close>

definition cfg_previous :: "pdate \<Rightarrow> period_cfg" where
  "cfg_previous d = \<lparr>period_mode = ''auto_previous_month'', reference_date = Parsed (Some d),
     manual_year = None, manual_month = None,
     id_format = (\<lambda>y m n. Inr ''period''), display_format = (\<lambda>y m n. Inr n),
     payslip_date_format = (\<lambda>d. ''first day'')\<rparr>"

definition jan_2026 :: pdate where
  "jan_2026 = \<lparr>d_year = 2026, d_month = 1, d_day = 25\<rparr>"

text \<open>The date that \<^verbatim>\<open>strptime("0001-01-15", "%Y-%m-%d")\<close> gives.\<close>

definition jan_year_one :: pdate where
  "jan_year_one = \<lparr>d_year = 1, d_month = 1, d_day = 15\<rparr>"

text \<open>An exporter with a timeout of one second.\<close>

definition quick_exporter :: exporter where
  "quick_exporter = default_exporter\<lparr>timeout_seconds := 1\<rparr>"

text \<open>A world where no external call raises and every export writes its file; the
  template has the named range on its payslip sheet.\<close>

definition template_wb :: workbook where
  "template_wb = \<lparr>defined_names = [''EmployeeRef'' \<mapsto> [(''Payslip'', ''B2'')]],
     sheet_names = [''Data Source'', ''Payslip'']\<rparr>"

definition quiet_env :: env where
  "quiet_env = \<lparr>fails = (\<lambda>tr ev. None), export_writes = (\<lambda>tr. True), abspath = (\<lambda>p. p),
     win32com_available = True, workbook_at = (\<lambda>p. template_wb)\<rparr>"

text \<open>The state at the start of a run, with the template in place.\<close>

definition start_world :: world where
  "start_world = \<lparr>files = {''/repo/template.xlsx''}, trace = [], warnings = [],
     excel = False, outlook = False\<rparr>"

text \<open>The same state inside the \<^verbatim>\<open>with\<close> block of the sender.\<close>

definition session_world :: world where
  "session_world = start_world\<lparr>outlook := True\<rparr>"

text \<open>A run for January 2026 with both capabilities on.\<close>

definition demo_period :: period_info where
  "demo_period = \<lparr>pi_year = 2026, pi_month = 1, period_id = ''2026-01'',
     period_display = ''January 2026'', payslip_date_str = ''01 January 2026''\<rparr>"

definition demo_ctx :: run_ctx where
  "demo_ctx = \<lparr>pdf_enabled = True, email_enabled = True,
     xlsx_dir = ''/out/2026-01/xlsx'', pdf_dir = ''/out/2026-01/pdf'',
     template_path = ''/repo/template.xlsx'', employee_ref_named_range = ''EmployeeRef'',
     filename_pattern = (\<lambda>r n d. Inr (r @ ''_'' @ n @ ''_'' @ d)),
     subject_tmpl = (\<lambda>n r p. Inr (''Payslip - '' @ period_display p)),
     body_tmpl = (\<lambda>n r p. Inr (''Dear '' @ n)),
     period = demo_period,
     pdf_opts = \<lparr>sheet_name = None, quality = ''standard'', open_after_publish = False,
                 ignore_print_areas = False\<rparr>,
     excel_exporter = default_exporter, send_mode = ''send'', sender_mailbox = None\<rparr>"

text \<open>Three employee records; the second has no email address (its cell held
  whitespace only, which \<^verbatim>\<open>load_employees\<close> trims to the empty string).\<close>

definition emp_a1 :: employee where
  "emp_a1 = \<lparr>ref = Some ''A1'', name = Some ''Ann'', email = Some ''ann@example.org''\<rparr>"

definition emp_a2 :: employee where
  "emp_a2 = \<lparr>ref = Some ''A2'', name = Some ''Bob'', email = Some []\<rparr>"

definition emp_a3 :: employee where
  "emp_a3 = \<lparr>ref = Some ''A3'', name = Some ''Cy'', email = Some ''cy@example.org''\<rparr>"

text \<open>A world where saving the workbook of A2 raises, and nothing else does.\<close>

definition a2_fails_env :: env where
  "a2_fails_env = quiet_env\<lparr>fails := (\<lambda>tr ev.
     if ev = TemplateSave ''/out/2026-01/xlsx/A2_Bob_2026-01.xlsx'' ''Payslip'' ''B2'' ''A2''
     then Some (ExternalError ''cannot write the workbook'') else None)\<rparr>"

text \<open>The sheet of the three employees, all with an email address, and the columns
  as main.py names them by default.\<close>

definition df_three :: data_frame where
  "df_three = \<lparr>columns = std_columns,
     rows = [row_of [(''Reference Number'', Some ''A1''), (''Employee Name'', Some ''Ann''),
                     (''Email'', Some ''ann@example.org'')],
             row_of [(''Reference Number'', Some ''A2''), (''Employee Name'', Some ''Bob''),
                     (''Email'', Some ''bob@example.org'')],
             row_of [(''Reference Number'', Some ''A3''), (''Employee Name'', Some ''Cy''),
                     (''Email'', Some ''cy@example.org'')]]\<rparr>"

definition demo_src :: source_cfg where
  "demo_src = \<lparr>reference_col = ''Reference Number'', name_col = ''Employee Name'',
     email_col = ''Email'', required_cols = std_columns\<rparr>"

text \<open>The second employee with an email address, as the sheet above has it.\<close>

definition emp_b2 :: employee where
  "emp_b2 = \<lparr>ref = Some ''A2'', name = Some ''Bob'', email = Some ''bob@example.org''\<rparr>"

text \<open>The same run with the pdf capability off.\<close>

definition xlsx_only_ctx :: run_ctx where
  "xlsx_only_ctx = demo_ctx\<lparr>pdf_enabled := False\<rparr>"

text \<open>The records that \<^verbatim>\<open>load_employees\<close> builds from the rows it keeps.\<close>

definition loaded_records :: "source_cfg \<Rightarrow> data_frame \<Rightarrow> employee list" where
  "loaded_records src df =
     map (record_of (reference_col src) (name_col src) (email_col src))
       (dropna (required_cols src) (rows df))"

text \<open>The sheet of the three employees where the email cell of A2 holds one blank.\<close>

definition df_blank_email :: data_frame where
  "df_blank_email = \<lparr>columns = std_columns,
     rows = [row_of [(''Reference Number'', Some ''A1''), (''Employee Name'', Some ''Ann''),
                     (''Email'', Some ''ann@example.org'')],
             row_of [(''Reference Number'', Some ''A2''), (''Employee Name'', Some ''Bob''),
                     (''Email'', Some '' '')],
             row_of [(''Reference Number'', Some ''A3''), (''Employee Name'', Some ''Cy''),
                     (''Email'', Some ''cy@example.org'')]]\<rparr>"

text \<open>The same sheet where the email cell of A2 is empty, which \<^verbatim>\<open>read_excel\<close> reads
  as null.\<close>

definition df_null_email :: data_frame where
  "df_null_email = \<lparr>columns = std_columns,
     rows = [row_of [(''Reference Number'', Some ''A1''), (''Employee Name'', Some ''Ann''),
                     (''Email'', Some ''ann@example.org'')],
             row_of [(''Reference Number'', Some ''A2''), (''Employee Name'', Some ''Bob''),
                     (''Email'', None)],
             row_of [(''Reference Number'', Some ''A3''), (''Employee Name'', Some ''Cy''),
                     (''Email'', Some ''cy@example.org'')]]\<rparr>"

section \<open>Properties\<close>

subsection \<open>Filename sanitisation\<close>

lemma sub_runs_set: "set (sub_runs P r s) \<subseteq> {c \<in> set s. \<not> P c} \<union> {r}"
proof (induction P r s rule: sub_runs.induct)
  case (1 P r)
  show ?case by simp
next
  case (2 P r c cs)
  show ?case
  proof (cases "P c")
    case True
    have "set (dropWhile P cs) \<subseteq> set cs" by (rule set_dropWhileD [THEN subsetI])
    with True 2(1) show ?thesis by auto
  next
    case False
    with 2(2) show ?thesis by auto
  qed
qed

lemma sub_runs_id: "\<forall>c \<in> set s. \<not> P c \<Longrightarrow> sub_runs P r s = s"
  by (induction s) auto

lemma strip_set: "set (strip s) \<subseteq> set s"
proof -
  have "set (dropWhile is_space (rev (dropWhile is_space s))) \<subseteq> set (rev (dropWhile is_space s))"
    by (rule set_dropWhileD [THEN subsetI])
  moreover have "set (dropWhile is_space s) \<subseteq> set s"
    by (rule set_dropWhileD [THEN subsetI])
  ultimately show ?thesis by (auto simp: strip_def)
qed

lemma dropWhile_none: "\<forall>c \<in> set s. \<not> P c \<Longrightarrow> dropWhile P s = s"
  by (cases s) auto

lemma strip_id: "\<forall>c \<in> set s. \<not> is_space c \<Longrightarrow> strip s = s"
  by (simp add: strip_def dropWhile_none)

lemma underscore_ok: "\<not> illegal_char (CHR ''_'')" "\<not> is_space (CHR ''_'')"
  by (simp_all add: illegal_char_def is_space_def)

lemma blank_facts: "\<not> illegal_char (CHR '' '')" "is_space (CHR '' '')"
  by (simp_all add: illegal_char_def is_space_def)

lemma safe_filename_stage3:
  "clean (map (\<lambda>c. if c = CHR '' '' then CHR ''_'' else c)
     (strip (sub_runs is_space (CHR '' '') (sub_runs illegal_char (CHR ''_'') s))))"
proof -
  let ?s1 = "sub_runs illegal_char (CHR ''_'') s"
  let ?s2 = "strip (sub_runs is_space (CHR '' '') ?s1)"
  have s1: "\<forall>c \<in> set ?s1. \<not> illegal_char c"
    using sub_runs_set [of illegal_char "CHR ''_''" s] underscore_ok by auto
  have "set ?s2 \<subseteq> {c \<in> set ?s1. \<not> is_space c} \<union> {CHR '' ''}"
    using strip_set [of "sub_runs is_space (CHR '' '') ?s1"]
      sub_runs_set [of is_space "CHR '' ''" ?s1] by blast
  with s1 have s2: "\<forall>c \<in> set ?s2. \<not> illegal_char c \<and> (is_space c \<longrightarrow> c = CHR '' '')"
    using blank_facts by auto
  show ?thesis
    unfolding clean_def using s2 underscore_ok by auto
qed

lemma py_prefix_set: "set (py_prefix s k) \<subseteq> set s"
  by (auto simp: py_prefix_def dest: in_set_takeD)

lemma safe_filename_clean: "clean (safe_filename s n)"
proof -
  let ?s3 = "map (\<lambda>c. if c = CHR '' '' then CHR ''_'' else c)
     (strip (sub_runs is_space (CHR '' '') (sub_runs illegal_char (CHR ''_'') s)))"
  have "set (safe_filename s n) \<subseteq> set ?s3"
    using py_prefix_set [of ?s3 n] by (simp add: safe_filename_def Let_def)
  with safe_filename_stage3 [of s] show ?thesis
    unfolding clean_def by blast
qed

lemma safe_filename_length: "0 \<le> n \<Longrightarrow> int (length (safe_filename s n)) \<le> n"
  by (simp add: safe_filename_def Let_def py_prefix_def)

lemma safe_filename_fixpoint:
  assumes "clean t" and "int (length t) \<le> n"
  shows "safe_filename t n = t"
proof -
  have a: "sub_runs illegal_char (CHR ''_'') t = t"
    using assms(1) by (simp add: clean_def sub_runs_id)
  have b: "sub_runs is_space (CHR '' '') t = t"
    using assms(1) by (simp add: clean_def sub_runs_id)
  have c: "strip t = t"
    using assms(1) by (simp add: clean_def strip_id)
  have "\<forall>c \<in> set t. c \<noteq> CHR '' ''"
    using assms(1) blank_facts(2) by (auto simp: clean_def)
  then have d: "map (\<lambda>c. if c = CHR '' '' then CHR ''_'' else c) t = t"
    by (induction t) auto
  show ?thesis
    using assms(2) by (simp add: safe_filename_def Let_def a b c d)
qed

lemma uni_strip_set: "set (uni_strip s) \<subseteq> set s"
proof -
  have "set (dropWhile uni_space (rev (dropWhile uni_space s))) \<subseteq> set (rev (dropWhile uni_space s))"
    by (rule set_dropWhileD [THEN subsetI])
  moreover have "set (dropWhile uni_space s) \<subseteq> set s"
    by (rule set_dropWhileD [THEN subsetI])
  ultimately show ?thesis by (auto simp: uni_strip_def)
qed

lemma uni_strip_id: "\<forall>c \<in> set s. \<not> uni_space c \<Longrightarrow> uni_strip s = s"
  by (simp add: uni_strip_def dropWhile_none)

lemma uni_underscore_ok: "\<not> uni_illegal 95" "\<not> uni_space 95"
  by (simp_all add: uni_illegal_def uni_space_def)

lemma uni_blank_facts: "\<not> uni_illegal 32" "uni_space 32"
  by (simp_all add: uni_illegal_def uni_space_def)

lemma safe_filename_uni_stage3:
  "uni_clean (map (\<lambda>c. if c = 32 then 95 else c)
     (uni_strip (sub_runs uni_space 32 (sub_runs uni_illegal 95 s))))"
proof -
  let ?s1 = "sub_runs uni_illegal 95 s"
  let ?s2 = "uni_strip (sub_runs uni_space 32 ?s1)"
  have s1: "\<forall>c \<in> set ?s1. \<not> uni_illegal c"
    using sub_runs_set [of uni_illegal 95 s] uni_underscore_ok by auto
  have "set ?s2 \<subseteq> {c \<in> set ?s1. \<not> uni_space c} \<union> {32}"
    using uni_strip_set [of "sub_runs uni_space 32 ?s1"]
      sub_runs_set [of uni_space 32 ?s1] by blast
  with s1 have s2: "\<forall>c \<in> set ?s2. \<not> uni_illegal c \<and> (uni_space c \<longrightarrow> c = 32)"
    using uni_blank_facts by auto
  show ?thesis
    unfolding uni_clean_def using s2 uni_underscore_ok by auto
qed

lemma safe_filename_uni_clean: "uni_clean (safe_filename_uni s n)"
proof -
  let ?s3 = "map (\<lambda>c. if c = 32 then 95 else c)
     (uni_strip (sub_runs uni_space 32 (sub_runs uni_illegal 95 s)))"
  have "set (safe_filename_uni s n) \<subseteq> set ?s3"
    using py_prefix_set [of ?s3 n] by (simp add: safe_filename_uni_def Let_def)
  with safe_filename_uni_stage3 [of s] show ?thesis
    unfolding uni_clean_def by blast
qed

lemma safe_filename_uni_length: "0 \<le> n \<Longrightarrow> int (length (safe_filename_uni s n)) \<le> n"
  by (simp add: safe_filename_uni_def Let_def py_prefix_def)

lemma safe_filename_uni_fixpoint:
  assumes "uni_clean t" and "int (length t) \<le> n"
  shows "safe_filename_uni t n = t"
proof -
  have a: "sub_runs uni_illegal 95 t = t"
    using assms(1) by (simp add: uni_clean_def sub_runs_id)
  have b: "sub_runs uni_space 32 t = t"
    using assms(1) by (simp add: uni_clean_def sub_runs_id)
  have c: "uni_strip t = t"
    using assms(1) by (simp add: uni_clean_def uni_strip_id)
  have "\<forall>c \<in> set t. c \<noteq> 32"
    using assms(1) uni_blank_facts(2) by (auto simp: uni_clean_def)
  then have d: "map (\<lambda>c. if c = 32 then 95 else c) t = t"
    by (induction t) auto
  show ?thesis
    using assms(2) by (simp add: safe_filename_uni_def Let_def a b c d)
qed

lemma of_char_is: "(of_char c = (of_char d :: nat)) = (c = d)"
  by (rule of_char_eq_iff)

lemma is_space_uni: "uni_space (of_char c) = is_space c"
proof -
  define n where "n = (of_char c :: nat)"
  have "n < 256" by (simp add: n_def)
  then have "uni_space n = (n \<in> {9, 10, 11, 12, 13, 28, 29, 30, 31, 32, 133, 160})"
    by (auto simp: uni_space_def)
  then show ?thesis by (simp add: n_def is_space_def)
qed

lemma illegal_char_uni: "uni_illegal (of_char c) = illegal_char c"
proof -
  have e: "of_char (CHR 0x5C) = (92::nat)" "of_char (CHR ''/'') = (47::nat)"
    "of_char (CHR '':'') = (58::nat)" "of_char (CHR ''*'') = (42::nat)"
    "of_char (CHR ''?'') = (63::nat)" "of_char (CHR 0x22) = (34::nat)"
    "of_char (CHR ''<'') = (60::nat)" "of_char (CHR ''>'') = (62::nat)"
    "of_char (CHR ''|'') = (124::nat)" "of_char (CHR 0x0A) = (10::nat)"
    "of_char (CHR 0x0D) = (13::nat)" "of_char (CHR 0x09) = (9::nat)"
    by simp_all
  show ?thesis
    unfolding uni_illegal_def illegal_char_def insert_iff empty_iff e [symmetric] of_char_is
    by (rule refl)
qed

lemma sub_runs_map:
  assumes "\<And>c. P (f c) = Q c"
  shows "sub_runs P (f r) (map f s) = map f (sub_runs Q r s)"
proof (induction "length s" arbitrary: s rule: less_induct)
  case less
  show ?case
  proof (cases s)
    case Nil
    then show ?thesis by simp
  next
    case (Cons c cs)
    have d: "dropWhile P (map f cs) = map f (dropWhile Q cs)"
      by (simp add: dropWhile_map comp_def assms)
    have "length (dropWhile Q cs) < length s"
      using Cons length_dropWhile_le [of Q cs] by simp
    from less [OF this] have ih1: "sub_runs P (f r) (map f (dropWhile Q cs))
        = map f (sub_runs Q r (dropWhile Q cs))" .
    have "length cs < length s" using Cons by simp
    from less [OF this] have ih2: "sub_runs P (f r) (map f cs) = map f (sub_runs Q r cs)" .
    show ?thesis
      using Cons ih1 ih2 by (simp add: assms d)
  qed
qed

lemma uni_strip_map: "uni_strip (map of_char s) = map of_char (strip s)"
  by (simp add: uni_strip_def strip_def dropWhile_map comp_def is_space_uni rev_map)

lemma py_prefix_map: "py_prefix (map f s) k = map f (py_prefix s k)"
  by (simp add: py_prefix_def take_map)

lemma blank_underscore_code: "of_char (CHR '' '') = (32::nat)" "of_char (CHR ''_'') = (95::nat)"
  by simp_all

lemma replace_blank_map:
  "map (\<lambda>c. if c = (32::nat) then 95 else c) (map of_char s)
     = map of_char (map (\<lambda>c. if c = CHR '' '' then CHR ''_'' else c) s)"
proof -
  have "\<And>c. (of_char c = (32::nat)) = (c = CHR '' '')"
    unfolding blank_underscore_code(1) [symmetric] of_char_is by (rule refl)
  then show ?thesis by (simp add: comp_def)
qed

lemma safe_filename_uni_agrees:
  "safe_filename_uni (map of_char s) n = map of_char (safe_filename s n)"
proof -
  have a: "sub_runs uni_illegal 95 (map of_char s) = map of_char (sub_runs illegal_char (CHR ''_'') s)"
    using sub_runs_map [of uni_illegal of_char illegal_char "CHR ''_''" s]
    by (simp add: illegal_char_uni)
  have b: "\<And>t. sub_runs uni_space 32 (map of_char t) = map of_char (sub_runs is_space (CHR '' '') t)"
    using sub_runs_map [of uni_space of_char is_space "CHR '' ''"]
    by (simp add: is_space_uni)
  show ?thesis
    by (simp add: safe_filename_uni_def safe_filename_def Let_def a b uni_strip_map
        replace_blank_map py_prefix_map del: map_map)
qed

text \<open>
  C6, as the code has it. \<^verbatim>\<open>safe_filename\<close> is idempotent; its result holds no
  character of the class it replaces (backslash, slash, colon, star, question mark,
  double quote, angle brackets, bar, newline, carriage return, tab) and no whitespace;
  and it is no longer than the cap. This holds for every cap that is not negative, the
  default 80 among them, on the strings of the run and on strings of any code points.
\<close>

theorem safe_filename_idempotent_clean_capped:
  "0 \<le> max_len \<Longrightarrow>
     (safe_filename (safe_filename s max_len) max_len = safe_filename s max_len
      \<and> (\<forall>c \<in> set (safe_filename s max_len). \<not> illegal_char c \<and> \<not> is_space c)
      \<and> int (length (safe_filename s max_len)) \<le> max_len)
     \<and> (safe_filename_uni (safe_filename_uni u max_len) max_len = safe_filename_uni u max_len
      \<and> (\<forall>c \<in> set (safe_filename_uni u max_len). \<not> uni_illegal c \<and> \<not> uni_space c)
      \<and> int (length (safe_filename_uni u max_len)) \<le> max_len)"
proof -
  assume h: "0 \<le> max_len"
  have a: "safe_filename (safe_filename s max_len) max_len = safe_filename s max_len
      \<and> (\<forall>c \<in> set (safe_filename s max_len). \<not> illegal_char c \<and> \<not> is_space c)
      \<and> int (length (safe_filename s max_len)) \<le> max_len"
    using h safe_filename_clean [of s max_len] safe_filename_length [of max_len s]
      safe_filename_fixpoint [of "safe_filename s max_len" max_len]
    by (simp add: clean_def)
  have b: "safe_filename_uni (safe_filename_uni u max_len) max_len = safe_filename_uni u max_len
      \<and> (\<forall>c \<in> set (safe_filename_uni u max_len). \<not> uni_illegal c \<and> \<not> uni_space c)
      \<and> int (length (safe_filename_uni u max_len)) \<le> max_len"
    using h safe_filename_uni_clean [of u max_len] safe_filename_uni_length [of max_len u]
      safe_filename_uni_fixpoint [of "safe_filename_uni u max_len" max_len]
    by (simp add: uni_clean_def)
  from a b show ?thesis by (rule conjI)
qed

theorem safe_filename_idempotent_clean_capped_witness:
  "(0::int) \<le> default_max_len
   \<and> safe_filename ''A1 Ann/Lee'' default_max_len = ''A1_Ann_Lee''
   \<and> safe_filename (safe_filename ''A1 Ann/Lee'' default_max_len) default_max_len
       = safe_filename ''A1 Ann/Lee'' default_max_len
   \<and> int (length (safe_filename ''A1 Ann/Lee'' default_max_len)) \<le> default_max_len
   \<and> safe_filename_uni [65, 49, 8195, 12288, 65, 47, 76] default_max_len = [65, 49, 95, 65, 95, 76]
   \<and> safe_filename_uni (safe_filename_uni [65, 49, 8195, 12288, 65, 47, 76] default_max_len)
         default_max_len
       = safe_filename_uni [65, 49, 8195, 12288, 65, 47, 76] default_max_len"
proof -
  have h: "(0::int) \<le> default_max_len"
    by (simp add: default_max_len_def)
  have v: "safe_filename ''A1 Ann/Lee'' default_max_len = ''A1_Ann_Lee''"
    by (simp add: safe_filename_def strip_def is_space_def illegal_char_def py_prefix_def
        default_max_len_def)
  have w: "safe_filename_uni [65, 49, 8195, 12288, 65, 47, 76] default_max_len
      = [65, 49, 95, 65, 95, 76]"
    by (simp add: safe_filename_uni_def uni_strip_def uni_space_def uni_illegal_def py_prefix_def
        default_max_len_def)
  note th = safe_filename_idempotent_clean_capped
    [OF h, of "''A1 Ann/Lee''" "[65, 49, 8195, 12288, 65, 47, 76]"]
  from th have a: "safe_filename (safe_filename ''A1 Ann/Lee'' default_max_len) default_max_len
       = safe_filename ''A1 Ann/Lee'' default_max_len"
    by (rule conjunct1 [THEN conjunct1])
  from th have b: "int (length (safe_filename ''A1 Ann/Lee'' default_max_len)) \<le> default_max_len"
    by (rule conjunct1 [THEN conjunct2, THEN conjunct2])
  from th have c: "safe_filename_uni (safe_filename_uni [65, 49, 8195, 12288, 65, 47, 76]
         default_max_len) default_max_len
       = safe_filename_uni [65, 49, 8195, 12288, 65, 47, 76] default_max_len"
    by (rule conjunct2 [THEN conjunct1])
  show ?thesis by (intro conjI h v a b w c)
qed

text \<open>
  C6 as stated fails in its middle part. The class holds no control character but
  newline, carriage return and tab, and \<^verbatim>\<open>\s\<close> adds the code points 11, 12 and 28
  to 31 only: NUL, which no file system allows in a name, and the code points 1 to 8
  and 14 to 27, which Windows does not allow, go through unchanged.
\<close>

theorem safe_filename_keeps_nul_counterexample:
  "safe_filename [CHR ''a'', CHR 0x00, CHR ''b''] default_max_len = [CHR ''a'', CHR 0x00, CHR ''b'']
   \<and> CHR 0x00 \<in> set (safe_filename [CHR ''a'', CHR 0x00, CHR ''b''] default_max_len)
   \<and> safe_filename_uni [97, 0, 98] default_max_len = [97, 0, 98]"
  by (simp add: safe_filename_def strip_def is_space_def illegal_char_def py_prefix_def
      safe_filename_uni_def uni_strip_def uni_space_def uni_illegal_def default_max_len_def)

subsection \<open>Loading the employee records\<close>

lemma strip_empty_iff: "strip t = [] \<longleftrightarrow> (\<forall>c \<in> set t. is_space c)"
proof
  assume "strip t = []"
  then have "\<forall>c \<in> set (dropWhile is_space t). is_space c"
    by (simp add: strip_def dropWhile_eq_Nil_conv)
  then have "dropWhile is_space t = []"
    using hd_dropWhile [of is_space t] by (cases "dropWhile is_space t") auto
  then show "\<forall>c \<in> set t. is_space c"
    by (simp add: dropWhile_eq_Nil_conv)
next
  assume "\<forall>c \<in> set t. is_space c"
  then show "strip t = []"
    by (auto simp: strip_def dropWhile_eq_Nil_conv dest: set_dropWhileD)
qed

lemma build_records_complete:
  assumes "rc \<in> set (columns df)" "nc \<in> set (columns df)" "ec \<in> set (columns df)"
    and "\<forall>r \<in> set rs. r rc \<noteq> None \<and> r nc \<noteq> None \<and> r ec \<noteq> None"
  shows "build_records df rc nc ec rs = Inr (map (record_of rc nc ec) rs)"
  using assms(4)
proof (induction rs)
  case Nil
  show ?case by simp
next
  case (Cons r rs)
  from Cons.prems obtain a b c where "r rc = Some a" "r nc = Some b" "r ec = Some c"
    by auto
  then have "build_record df rc nc ec r = Inr (record_of rc nc ec r)"
    using assms(1-3) by (simp add: build_record_def cell_strip_def record_of_def)
  with Cons show ?case by simp
qed

lemma complete_row_iff: "complete_row required r \<longleftrightarrow> (\<forall>c \<in> set required. r c \<noteq> None)"
  by (simp add: complete_row_def list_all_iff)

lemma load_employees_missing:
  "load_employees (Inr df) rc nc ec required =
     (if \<exists>c \<in> set required. c \<notin> set (columns df)
      then Inl (MissingColumns (filter (\<lambda>c. c \<notin> set (columns df)) required))
      else build_records df rc nc ec (dropna required (rows df)))"
  by (auto simp: load_employees_def Let_def filter_empty_conv)

lemmas load_eval = load_employees_def dropna_def complete_row_def build_record_def
  cell_strip_def strip_def is_space_def row_of_def std_columns_def

text \<open>
  C9. When a required column is absent from the sheet, \<^verbatim>\<open>load_employees\<close> raises one
  error that carries every absent required column, in the order of the requirement,
  and returns no record.
\<close>

theorem missing_columns_reported_together:
  assumes "\<exists>c \<in> set required. c \<notin> set (columns df)"
  shows "\<exists>missing. load_employees (Inr df) rc nc ec required = Inl (MissingColumns missing)
           \<and> missing = filter (\<lambda>c. c \<notin> set (columns df)) required
           \<and> set missing = {c \<in> set required. c \<notin> set (columns df)}"
  using assms by (auto simp: load_employees_missing)

theorem missing_columns_reported_together_witness:
  "(\<exists>c \<in> set std_columns. c \<notin> set (columns df_ref_only))
   \<and> load_employees (Inr df_ref_only) ''Reference Number'' ''Employee Name'' ''Email'' std_columns
       = Inl (MissingColumns [''Employee Name'', ''Email''])"
proof -
  have h: "\<exists>c \<in> set std_columns. c \<notin> set (columns df_ref_only)"
    by (simp add: std_columns_def df_ref_only_def)
  have m: "filter (\<lambda>c. c \<notin> set (columns df_ref_only)) std_columns = [''Employee Name'', ''Email'']"
    by (simp add: std_columns_def df_ref_only_def)
  from missing_columns_reported_together [OF h, of "''Reference Number''" "''Employee Name''" "''Email''"]
  have "load_employees (Inr df_ref_only) ''Reference Number'' ''Employee Name'' ''Email'' std_columns
       = Inl (MissingColumns (filter (\<lambda>c. c \<notin> set (columns df_ref_only)) std_columns))"
    by blast
  with h m show ?thesis by simp
qed

text \<open>
  C3, as the code has it. When every required column is in the sheet and the reference,
  name and email columns are among the required ones, a frame of N rows of which K hold
  a null in a required column gives exactly N - K records, in row order, each built from
  the trimmed cells of its row. The reference of a record is the trimmed text of the
  cell: it is empty exactly when the cell holds whitespace only.
\<close>

theorem load_employees_drops_null_rows:
  assumes "set required \<subseteq> set (columns df)"
    and "rc \<in> set required" "nc \<in> set required" "ec \<in> set required"
  shows "\<exists>recs. load_employees (Inr df) rc nc ec required = Inr recs
           \<and> recs = map (record_of rc nc ec)
                      (filter (\<lambda>r. \<forall>c \<in> set required. r c \<noteq> None) (rows df))
           \<and> length recs = length (rows df)
                 - length (filter (\<lambda>r. \<exists>c \<in> set required. r c = None) (rows df))
           \<and> (\<forall>r \<in> set (rows df). (\<forall>c \<in> set required. r c \<noteq> None) \<longrightarrow>
                 (\<exists>t. r rc = Some t \<and> ref (record_of rc nc ec r) = Some (strip t)
                    \<and> (strip t = [] \<longleftrightarrow> (\<forall>c \<in> set t. is_space c))))"
proof -
  let ?kept = "filter (\<lambda>r. \<forall>c \<in> set required. r c \<noteq> None) (rows df)"
  have "complete_row required = (\<lambda>r. \<forall>c \<in> set required. r c \<noteq> None)"
    by (rule ext) (rule complete_row_iff)
  then have kept: "dropna required (rows df) = ?kept"
    by (simp only: dropna_def)
  have cols: "rc \<in> set (columns df)" "nc \<in> set (columns df)" "ec \<in> set (columns df)"
    using assms by auto
  have "\<forall>r \<in> set ?kept. r rc \<noteq> None \<and> r nc \<noteq> None \<and> r ec \<noteq> None"
    using assms(2-4) by auto
  then have b: "build_records df rc nc ec ?kept = Inr (map (record_of rc nc ec) ?kept)"
    by (rule build_records_complete [OF cols])
  have l: "load_employees (Inr df) rc nc ec required = Inr (map (record_of rc nc ec) ?kept)"
    using assms(1) b by (auto simp: load_employees_missing kept)
  have n: "length ?kept = length (rows df)
             - length (filter (\<lambda>r. \<exists>c \<in> set required. r c = None) (rows df))"
    using sum_length_filter_compl [of "\<lambda>r. \<forall>c \<in> set required. r c \<noteq> None" "rows df"]
    by simp
  have s: "\<forall>r \<in> set (rows df). (\<forall>c \<in> set required. r c \<noteq> None) \<longrightarrow>
                 (\<exists>t. r rc = Some t \<and> ref (record_of rc nc ec r) = Some (strip t)
                    \<and> (strip t = [] \<longleftrightarrow> (\<forall>c \<in> set t. is_space c)))"
    using assms(2) by (auto simp: record_of_def strip_empty_iff)
  from l n s show ?thesis by simp
qed

theorem load_employees_drops_null_rows_witness:
  "set std_columns \<subseteq> set (columns df_two_rows)
   \<and> ''Reference Number'' \<in> set std_columns \<and> ''Employee Name'' \<in> set std_columns
   \<and> ''Email'' \<in> set std_columns
   \<and> load_employees (Inr df_two_rows) ''Reference Number'' ''Employee Name'' ''Email'' std_columns
       = Inr [\<lparr>ref = Some ''A1'', name = Some ''Ann'', email = Some ''ann@example.org''\<rparr>]
   \<and> (\<exists>recs. load_employees (Inr df_two_rows) ''Reference Number'' ''Employee Name'' ''Email''
                std_columns = Inr recs
         \<and> length recs = length (rows df_two_rows)
             - length (filter (\<lambda>r. \<exists>c \<in> set std_columns. r c = None) (rows df_two_rows)))"
proof -
  have h: "set std_columns \<subseteq> set (columns df_two_rows)"
    "''Reference Number'' \<in> set std_columns" "''Employee Name'' \<in> set std_columns"
    "''Email'' \<in> set std_columns"
    by (simp_all add: std_columns_def df_two_rows_def)
  have v: "load_employees (Inr df_two_rows) ''Reference Number'' ''Employee Name'' ''Email''
      std_columns = Inr [\<lparr>ref = Some ''A1'', name = Some ''Ann'', email = Some ''ann@example.org''\<rparr>]"
    by (simp add: load_eval df_two_rows_def)
  from load_employees_drops_null_rows [OF h]
  have "\<exists>recs. load_employees (Inr df_two_rows) ''Reference Number'' ''Employee Name'' ''Email''
                std_columns = Inr recs
         \<and> length recs = length (rows df_two_rows)
             - length (filter (\<lambda>r. \<exists>c \<in> set std_columns. r c = None) (rows df_two_rows))"
    by blast
  with h v show ?thesis by blast
qed

text \<open>
  C3 as stated fails: a row whose reference cell holds one blank has no null, so it is
  kept, and its record has the empty reference. (The loop of main.py skips such a
  record with a warning.)
\<close>

theorem load_employees_blank_ref_counterexample:
  "load_employees (Inr df_blank_ref) ''Reference Number'' ''Employee Name'' ''Email'' std_columns
     = Inr [\<lparr>ref = Some [], name = Some ''Bob'', email = Some ''bob@example.org''\<rparr>]"
  by (simp add: load_eval df_blank_ref_def)

subsection \<open>Period resolution\<close>

lemma days_in_month_bounds: "28 \<le> days_in_month y m"
  by (simp add: days_in_month_def)

lemma mk_date_first: "1 \<le> y \<Longrightarrow> y \<le> 9999 \<Longrightarrow> 1 \<le> m \<Longrightarrow> m \<le> 12 \<Longrightarrow>
    mk_date y m 1 = Inr \<lparr>d_year = y, d_month = m, d_day = 1\<rparr>"
  using days_in_month_bounds [of y m] by (simp add: mk_date_def)

lemma mk_date_last: "1 \<le> y \<Longrightarrow> y \<le> 9999 \<Longrightarrow> 1 \<le> m \<Longrightarrow> m \<le> 12 \<Longrightarrow>
    mk_date y m (days_in_month y m) = Inr \<lparr>d_year = y, d_month = m, d_day = days_in_month y m\<rparr>"
  using days_in_month_bounds [of y m] by (simp add: mk_date_def)

lemma format_period_ok:
  assumes "1 \<le> y" "y \<le> 9999" "1 \<le> m" "m \<le> 12"
    and "\<forall>y m n. \<exists>s. id_format cfg y m n = Inr s"
    and "\<forall>y m n. \<exists>s. display_format cfg y m n = Inr s"
  shows "\<exists>p. format_period cfg y m = Inr p \<and> pi_year p = y \<and> pi_month p = m"
proof -
  obtain s1 where s1: "id_format cfg y m (month_names ! nat (m - 1)) = Inr s1"
    using assms(5) by blast
  obtain s2 where s2: "display_format cfg y m (month_names ! nat (m - 1)) = Inr s2"
    using assms(6) by blast
  show ?thesis
    using assms(1-4) s1 s2 by (simp add: format_period_def mk_date_first Let_def)
qed

lemma pay_period_of_ok:
  assumes "1 \<le> y" "y \<le> 9999" "1 \<le> m" "m \<le> 12"
    and "\<forall>y m n. \<exists>s. id_format cfg y m n = Inr s"
    and "\<forall>y m n. \<exists>s. display_format cfg y m n = Inr s"
  shows "\<exists>q. pay_period_of cfg y m = Inr q \<and> pp_year q = y \<and> pp_month q = m"
proof -
  obtain nm where nm: "calendar_month_name m = Inr nm"
    using assms(3,4) by (simp add: calendar_month_name_def Let_def)
  obtain s1 where s1: "id_format cfg y m [] = Inr s1"
    using assms(5) by blast
  obtain s2 where s2: "display_format cfg y m nm = Inr s2"
    using assms(6) by blast
  show ?thesis
    using assms(1-4) nm s1 s2 by (simp add: pay_period_of_def mk_date_first mk_date_last)
qed

text \<open>
  C7, as the code has it. In the mode \<^verbatim>\<open>auto_previous_month\<close>, when the configured
  patterns format without error, both resolvers give month 12 of year Y - 1 for a
  reference date in January of a year Y from 2 on, and month M - 1 of year Y for a
  reference date in any other month M.
\<close>

theorem previous_month_resolved:
  assumes mode: "period_mode cfg = ''auto_previous_month''"
    and src: "reference_date cfg = Parsed (Some d) \<or> reference_date cfg = Today d"
    and valid: "valid_date d"
    and year: "d_month d = 1 \<longrightarrow> 2 \<le> d_year d"
    and fid: "\<forall>y m n. \<exists>s. id_format cfg y m n = Inr s"
    and fdisp: "\<forall>y m n. \<exists>s. display_format cfg y m n = Inr s"
  shows "(\<exists>p. resolve_period cfg = Inr p
            \<and> pi_year p = (if d_month d = 1 then d_year d - 1 else d_year d)
            \<and> pi_month p = (if d_month d = 1 then 12 else d_month d - 1))
       \<and> (\<exists>q. resolve_pay_period cfg = Inr q
            \<and> pp_year q = (if d_month d = 1 then d_year d - 1 else d_year d)
            \<and> pp_month q = (if d_month d = 1 then 12 else d_month d - 1))"
proof -
  let ?y = "if d_month d = 1 then d_year d - 1 else d_year d"
  let ?m = "if d_month d = 1 then 12 else d_month d - 1"
  have rng: "1 \<le> ?y" "?y \<le> 9999" "1 \<le> ?m" "?m \<le> 12"
    using valid year by (auto simp: valid_date_def)
  have t: "target_year_month cfg d = Inr (?y, ?m)"
    using mode by (simp add: target_year_month_def)
  have u: "pay_year_month cfg d = Inr (?y, ?m)"
    using mode by (simp add: pay_year_month_def Let_def)
  have a: "resolve_period cfg = format_period cfg ?y ?m"
    using src t by (auto simp: resolve_period_def)
  have b: "resolve_pay_period cfg = pay_period_of cfg ?y ?m"
    using src u by (auto simp: resolve_pay_period_def)
  from format_period_ok [OF rng fid fdisp] pay_period_of_ok [OF rng fid fdisp] a b
  show ?thesis by simp
qed

lemmas period_eval = cfg_previous_def resolve_period_def resolve_pay_period_def
  target_year_month_def pay_year_month_def format_period_def pay_period_of_def mk_date_def
  calendar_month_name_def valid_date_def days_in_month_def Let_def month_names_def

theorem previous_month_resolved_witness:
  "period_mode (cfg_previous jan_2026) = ''auto_previous_month''
   \<and> valid_date jan_2026 \<and> d_month jan_2026 = 1 \<and> d_year jan_2026 = 2026
   \<and> (\<exists>p. resolve_period (cfg_previous jan_2026) = Inr p \<and> pi_year p = 2025 \<and> pi_month p = 12)
   \<and> (\<exists>q. resolve_pay_period (cfg_previous jan_2026) = Inr q \<and> pp_year q = 2025 \<and> pp_month q = 12)"
proof -
  have h1: "period_mode (cfg_previous jan_2026) = ''auto_previous_month''"
    by (simp add: cfg_previous_def)
  have h2: "reference_date (cfg_previous jan_2026) = Parsed (Some jan_2026)
      \<or> reference_date (cfg_previous jan_2026) = Today jan_2026"
    by (simp add: cfg_previous_def)
  have h3: "valid_date jan_2026"
    by (simp add: jan_2026_def valid_date_def days_in_month_def)
  have h4: "d_month jan_2026 = 1 \<longrightarrow> 2 \<le> d_year jan_2026"
    by (simp add: jan_2026_def)
  have h5: "\<forall>y m n. \<exists>s. id_format (cfg_previous jan_2026) y m n = Inr s"
    by (simp add: cfg_previous_def)
  have h6: "\<forall>y m n. \<exists>s. display_format (cfg_previous jan_2026) y m n = Inr s"
    by (simp add: cfg_previous_def)
  have v: "d_month jan_2026 = 1" "d_year jan_2026 = 2026"
    by (simp_all add: jan_2026_def)
  from previous_month_resolved [OF h1 h2 h3 h4 h5 h6] h1 h3 v
  show ?thesis by simp
qed

text \<open>
  C7 as stated fails at January of year 1: the year before is 0, which
  \<^verbatim>\<open>date(year, month, 1)\<close> rejects, so both resolvers raise ValueError.
\<close>

theorem previous_month_year_one_counterexample:
  "valid_date jan_year_one \<and> d_month jan_year_one = 1
   \<and> period_mode (cfg_previous jan_year_one) = ''auto_previous_month''
   \<and> resolve_period (cfg_previous jan_year_one) = Inl (Exc (ValueError ''year is out of range''))
   \<and> resolve_pay_period (cfg_previous jan_year_one) = Inl (ValueError ''year is out of range'')"
  by (simp add: jan_year_one_def period_eval)

subsection \<open>The wait for the recalculation\<close>

lemma wait_loop_result:
  assumes adv: "\<forall>j. clock (Suc j) + 200 \<le> clock (Suc (Suc j))"
  shows "\<exists>r n. wait_loop calc_state clock T k = Some (r, n) \<and> k \<le> n
           \<and> (\<forall>j. k \<le> j \<and> j < n \<longrightarrow> calc_state j \<noteq> 0 \<and> clock (Suc j) - clock 0 \<le> T)
           \<and> (r = Inr () \<and> calc_state n = 0
               \<or> r = Inl TimeoutError \<and> calc_state n \<noteq> 0 \<and> T < clock (Suc n) - clock 0)"
proof (induction "nat (T + 200 - (clock (Suc k) - clock 0))" arbitrary: k rule: less_induct)
  case less
  show ?case
  proof (cases "calc_state k = 0")
    case True
    then have "wait_loop calc_state clock T k = Some (Inr (), k)"
      by (subst wait_loop.simps) simp
    with True show ?thesis by auto
  next
    case False
    show ?thesis
    proof (cases "T < clock (Suc k) - clock 0")
      case True
      with False have "wait_loop calc_state clock T k = Some (Inl TimeoutError, k)"
        by (subst wait_loop.simps) simp
      with True False show ?thesis by auto
    next
      case nt: False
      have step: "wait_loop calc_state clock T k = wait_loop calc_state clock T (Suc k)"
        using False nt by (subst wait_loop.simps) simp
      have "nat (T + 200 - (clock (Suc (Suc k)) - clock 0)) < nat (T + 200 - (clock (Suc k) - clock 0))"
        using adv [rule_format, of k] nt by linarith
      from less [OF this] obtain r n where
        rn: "wait_loop calc_state clock T (Suc k) = Some (r, n)" "Suc k \<le> n"
          "\<forall>j. Suc k \<le> j \<and> j < n \<longrightarrow> calc_state j \<noteq> 0 \<and> clock (Suc j) - clock 0 \<le> T"
          "r = Inr () \<and> calc_state n = 0
               \<or> r = Inl TimeoutError \<and> calc_state n \<noteq> 0 \<and> T < clock (Suc n) - clock 0"
        by blast
      have "\<forall>j. k \<le> j \<and> j < n \<longrightarrow> calc_state j \<noteq> 0 \<and> clock (Suc j) - clock 0 \<le> T"
      proof (intro allI impI)
        fix j assume "k \<le> j \<and> j < n"
        then consider "j = k" | "Suc k \<le> j \<and> j < n" by linarith
        then show "calc_state j \<noteq> 0 \<and> clock (Suc j) - clock 0 \<le> T"
          using False nt rn(3) by cases auto
      qed
      with rn step show ?thesis by auto
    qed
  qed
qed

lemma clock_lower:
  assumes adv: "\<forall>j. clock (Suc j) + 200 \<le> clock (Suc (Suc j))" and start: "clock 0 \<le> clock 1"
  shows "clock 0 + 200 * int n \<le> clock (Suc n)"
proof (induction n)
  case 0
  show ?case using start by simp
next
  case (Suc n)
  with adv [rule_format, of n] show ?case by simp
qed

text \<open>
  C8. The wait polls the indicator with a sleep between two polls. When every sleep
  moves the clock on by its 200 ms at least, the wait ends: with the indicator at done,
  or with TimeoutError at a poll that is not done and comes more than the timeout after
  the start. The number of sleeps is bounded by the timeout, and an indicator that is
  never done gives TimeoutError.
\<close>

theorem recalc_wait_bounded:
  assumes adv: "\<forall>j. clock (Suc j) + 200 \<le> clock (Suc (Suc j))" and start: "clock 0 \<le> clock 1"
  shows "\<exists>r n. wait_for_calculation ex calc_state clock = Some (r, n)
           \<and> 200 * int n \<le> max 0 (1000 * timeout_seconds ex) + 200
           \<and> (r = Inr () \<and> calc_state n = 0
               \<or> r = Inl TimeoutError \<and> calc_state n \<noteq> 0
                   \<and> 1000 * timeout_seconds ex < clock (Suc n) - clock 0)
           \<and> ((\<forall>k. calc_state k \<noteq> 0) \<longrightarrow> r = Inl TimeoutError)"
proof -
  let ?T = "1000 * timeout_seconds ex"
  from wait_loop_result [OF adv, of calc_state ?T 0] obtain r n where
    rn: "wait_loop calc_state clock ?T 0 = Some (r, n)"
      "\<forall>j. 0 \<le> j \<and> j < n \<longrightarrow> calc_state j \<noteq> 0 \<and> clock (Suc j) - clock 0 \<le> ?T"
      "r = Inr () \<and> calc_state n = 0
         \<or> r = Inl TimeoutError \<and> calc_state n \<noteq> 0 \<and> ?T < clock (Suc n) - clock 0"
    by blast
  have bound: "200 * int n \<le> max 0 ?T + 200"
  proof (cases n)
    case 0
    then show ?thesis by simp
  next
    case (Suc m)
    with rn(2) have "clock (Suc m) - clock 0 \<le> ?T" by simp
    with clock_lower [OF adv start, of m] Suc show ?thesis by simp
  qed
  from rn(3) have "(\<forall>k. calc_state k \<noteq> 0) \<longrightarrow> r = Inl TimeoutError" by auto
  with rn(1,3) bound show ?thesis
    unfolding wait_for_calculation_def by blast
qed

theorem recalc_wait_bounded_witness:
  "(\<forall>j. (\<lambda>k. 200 * int k) (Suc j) + 200 \<le> (\<lambda>k. 200 * int k) (Suc (Suc j)))
   \<and> (\<lambda>k. 200 * int k) 0 \<le> (\<lambda>k. 200 * int k) 1
   \<and> wait_for_calculation quick_exporter (\<lambda>k. 1) (\<lambda>k. 200 * int k) = Some (Inl TimeoutError, 5)
   \<and> wait_for_calculation quick_exporter (\<lambda>k. if k < 2 then 1 else 0) (\<lambda>k. 200 * int k)
       = Some (Inr (), 2)
   \<and> (\<exists>r n. wait_for_calculation quick_exporter (\<lambda>k. 1) (\<lambda>k. 200 * int k) = Some (r, n)
         \<and> 200 * int n \<le> max 0 (1000 * timeout_seconds quick_exporter) + 200)"
proof -
  have h1: "\<forall>j. (\<lambda>k. 200 * int k) (Suc j) + 200 \<le> (\<lambda>k. 200 * int k) (Suc (Suc j))"
    by simp
  have h2: "(\<lambda>k. 200 * int k) 0 \<le> (\<lambda>k. 200 * int k) 1"
    by simp
  have v1: "wait_for_calculation quick_exporter (\<lambda>k. 1) (\<lambda>k. 200 * int k)
      = Some (Inl TimeoutError, 5)"
    by (simp add: wait_for_calculation_def quick_exporter_def default_exporter_def wait_loop.simps)
  have v2: "wait_for_calculation quick_exporter (\<lambda>k. if k < 2 then 1 else 0) (\<lambda>k. 200 * int k)
      = Some (Inr (), 2)"
    by (simp add: wait_for_calculation_def quick_exporter_def default_exporter_def wait_loop.simps)
  from recalc_wait_bounded [OF h1 h2, of quick_exporter "\<lambda>k. 1"]
  have "\<exists>r n. wait_for_calculation quick_exporter (\<lambda>k. 1) (\<lambda>k. 200 * int k) = Some (r, n)
         \<and> 200 * int n \<le> max 0 (1000 * timeout_seconds quick_exporter) + 200"
    by blast
  with h1 h2 v1 v2 show ?thesis by blast
qed

subsection \<open>The mail sender\<close>

lemma ext_call_world:
  "snd (ext_call ev_env ev w) = w\<lparr>trace := trace w @ [(ev, fails ev_env (trace w) ev = None)]\<rparr>"
  by (simp add: ext_call_def split: option.splits)

lemma ext_call_ok:
  "ext_call ev_env ev w = (Inr u, w1) \<Longrightarrow> w1 = w\<lparr>trace := trace w @ [(ev, True)]\<rparr>"
  by (auto simp: ext_call_def split: option.splits)

lemma ext_calls_ok:
  "ext_calls ev_env evs w = (Inr u, w1) \<Longrightarrow> w1 = w\<lparr>trace := trace w @ map (\<lambda>e. (e, True)) evs\<rparr>"
proof (induction evs arbitrary: w)
  case Nil
  then show ?case by simp
next
  case (Cons ev evs)
  from Cons.prems obtain u' w' where a: "ext_call ev_env ev w = (Inr u', w')"
    and b: "ext_calls ev_env evs w' = (Inr u, w1)"
    by (auto split: prod.splits sum.splits)
  from Cons.IH [OF b] ext_call_ok [OF a] show ?case by simp
qed

lemma mail_calls_append: "mail_calls (xs @ ys) = mail_calls xs @ mail_calls ys"
  by (simp add: mail_calls_def)

lemma mail_calls_message:
  "mail_calls (map (\<lambda>e. (e, True)) (message_calls t s b m)) = message_calls t s b m"
  by (simp add: mail_calls_def message_calls_def split: option.splits)

text \<open>
  C4, as the code has it. With an empty recipient, subject or body, \<^verbatim>\<open>send_email\<close>
  raises ValueError and the state is as before: no call has reached the mail session.
  With an attachment path that does not exist, it raises FileNotFoundError once the
  message has been created in the mail session and its fields set (when these calls
  return): the trace holds these calls, and neither the attachment nor a send or
  display.
\<close>

theorem send_email_checks:
  "(to_address = [] \<or> subject = [] \<or> body = [] \<longrightarrow>
      (\<exists>msg. send_email ev_env mode to_address subject body att mbox w = (Inl (ValueError msg), w)))
   \<and> (to_address \<noteq> [] \<and> subject \<noteq> [] \<and> body \<noteq> [] \<and> outlook w \<and> p \<noteq> []
        \<and> abspath ev_env p \<notin> files w
        \<and> ext_calls ev_env (message_calls to_address subject body mbox) w = (Inr (), w1) \<longrightarrow>
      send_email ev_env mode to_address subject body (Some p) mbox w
        = (Inl (FileNotFoundError (abspath ev_env p)), w1)
      \<and> mail_calls (trace w1)
          = mail_calls (trace w) @ message_calls to_address subject body mbox
      \<and> MailCreateItem \<in> set (mail_calls (trace w1)))"
proof (intro conjI impI)
  assume "to_address = [] \<or> subject = [] \<or> body = []"
  then show "\<exists>msg. send_email ev_env mode to_address subject body att mbox w = (Inl (ValueError msg), w)"
    by (auto simp: send_email_def)
next
  assume h: "to_address \<noteq> [] \<and> subject \<noteq> [] \<and> body \<noteq> [] \<and> outlook w \<and> p \<noteq> []
        \<and> abspath ev_env p \<notin> files w
        \<and> ext_calls ev_env (message_calls to_address subject body mbox) w = (Inr (), w1)"
  then have w1: "w1 = w\<lparr>trace := trace w @ map (\<lambda>e. (e, True)) (message_calls to_address subject body mbox)\<rparr>"
    using ext_calls_ok by blast
  show "send_email ev_env mode to_address subject body (Some p) mbox w
        = (Inl (FileNotFoundError (abspath ev_env p)), w1)"
    using h w1 by (simp add: send_email_def attach_and_send_def Let_def)
  show m: "mail_calls (trace w1) = mail_calls (trace w) @ message_calls to_address subject body mbox"
    using w1 by (simp add: mail_calls_append mail_calls_message)
  show "MailCreateItem \<in> set (mail_calls (trace w1))"
    unfolding m by (simp add: message_calls_def)
qed

lemmas mail_eval = send_email_def attach_and_send_def message_calls_def ext_call_def
  quiet_env_def session_world_def start_world_def

theorem send_email_checks_witness:
  "(([]::string) = [] \<or> ''Payslip'' = [] \<or> ''Dear Ann'' = [])
   \<and> (\<exists>msg. send_email quiet_env ''send'' [] ''Payslip'' ''Dear Ann'' (Some ''/out/pdf/A1.pdf'') None
               session_world = (Inl (ValueError msg), session_world))
   \<and> outlook session_world \<and> ''/out/pdf/A1.pdf'' \<notin> files session_world
   \<and> mail_calls (trace (snd (send_email quiet_env ''send'' ''ann@example.org'' ''Payslip'' ''Dear Ann''
          (Some ''/out/pdf/A1.pdf'') None session_world)))
       = [MailCreateItem, MailSetTo ''ann@example.org'', MailSetSubject ''Payslip'',
          MailSetBody ''Dear Ann'']"
proof -
  let ?w1 = "session_world\<lparr>trace := [(MailCreateItem, True), (MailSetTo ''ann@example.org'', True),
        (MailSetSubject ''Payslip'', True), (MailSetBody ''Dear Ann'', True)]\<rparr>"
  have h1: "([]::string) = [] \<or> ''Payslip'' = [] \<or> ''Dear Ann'' = []"
    by simp
  have h2: "''ann@example.org'' \<noteq> [] \<and> ''Payslip'' \<noteq> [] \<and> ''Dear Ann'' \<noteq> []
      \<and> outlook session_world \<and> ''/out/pdf/A1.pdf'' \<noteq> []
      \<and> abspath quiet_env ''/out/pdf/A1.pdf'' \<notin> files session_world
      \<and> ext_calls quiet_env (message_calls ''ann@example.org'' ''Payslip'' ''Dear Ann'' None)
            session_world = (Inr (), ?w1)"
    by (simp add: mail_eval)
  have t: "mail_calls (trace session_world) = []"
    by (simp add: mail_calls_def session_world_def start_world_def)
  have a: "\<exists>msg. send_email quiet_env ''send'' [] ''Payslip'' ''Dear Ann'' (Some ''/out/pdf/A1.pdf'') None
               session_world = (Inl (ValueError msg), session_world)"
    using send_email_checks [of "[]" "''Payslip''" "''Dear Ann''" quiet_env "''send''"
        "Some ''/out/pdf/A1.pdf''" None session_world] h1
    by blast
  have b: "send_email quiet_env ''send'' ''ann@example.org'' ''Payslip'' ''Dear Ann''
          (Some ''/out/pdf/A1.pdf'') None session_world
        = (Inl (FileNotFoundError (abspath quiet_env ''/out/pdf/A1.pdf'')), ?w1)
      \<and> mail_calls (trace ?w1) = mail_calls (trace session_world)
          @ message_calls ''ann@example.org'' ''Payslip'' ''Dear Ann'' None"
    using send_email_checks [of "''ann@example.org''" "''Payslip''" "''Dear Ann''" quiet_env
        "''send''" None None session_world "''/out/pdf/A1.pdf''" ?w1] h2
    by blast
  have c: "outlook session_world \<and> ''/out/pdf/A1.pdf'' \<notin> files session_world"
    by (simp add: session_world_def start_world_def)
  from a b c h1 t show ?thesis
    by (simp add: message_calls_def)
qed

text \<open>
  C4 as stated fails in its second half: with a missing attachment, four calls have
  reached the mail session (the message is created and its recipient, subject and body
  are set) when FileNotFoundError is raised.
\<close>

theorem send_email_missing_attachment_counterexample:
  "send_email quiet_env ''send'' ''ann@example.org'' ''Payslip'' ''Dear Ann''
     (Some ''/out/pdf/A1.pdf'') None session_world
   = (Inl (FileNotFoundError ''/out/pdf/A1.pdf''),
      session_world\<lparr>trace := [(MailCreateItem, True), (MailSetTo ''ann@example.org'', True),
        (MailSetSubject ''Payslip'', True), (MailSetBody ''Dear Ann'', True)]\<rparr>)"
  by (simp add: mail_eval)

subsection \<open>The run: what each step does to the trace and to the sessions\<close>

lemma grows_refl: "grows S w w"
  by (simp add: grows_def)

lemma grows_trans: "grows S w w1 \<Longrightarrow> grows S w1 w2 \<Longrightarrow> grows S w w2"
  by (auto simp: grows_def)

lemma grows_mono: "grows S w w' \<Longrightarrow> S \<subseteq> S' \<Longrightarrow> grows S' w w'"
  by (auto simp: grows_def list_all_iff)

lemma ext_call_effect:
  "ext_call ev_env ev w = (r, w') \<Longrightarrow> w' = w\<lparr>trace := trace w @ [(ev, r = Inr ())]\<rparr>"
  by (auto simp: ext_call_def split: option.splits)

lemma ext_call_grows: "ext_call ev_env ev w = (r, w') \<Longrightarrow> service_of ev \<in> S \<Longrightarrow> grows S w w'"
  by (auto simp: grows_def dest!: ext_call_effect)

lemma ext_call_handles:
  "ext_call ev_env ev w = (r, w') \<Longrightarrow> excel w' = excel w \<and> outlook w' = outlook w"
  by (auto dest!: ext_call_effect)

lemma ext_calls_grows:
  "ext_calls ev_env evs w = (r, w') \<Longrightarrow> \<forall>ev \<in> set evs. service_of ev \<in> S \<Longrightarrow> grows S w w'"
proof (induction evs arbitrary: w)
  case Nil
  then show ?case by (simp add: grows_refl)
next
  case (Cons ev evs)
  obtain r1 w1 where c: "ext_call ev_env ev w = (r1, w1)" by (cases "ext_call ev_env ev w")
  with Cons.prems have g: "grows S w w1" by (auto intro: ext_call_grows)
  show ?case
  proof (cases r1)
    case (Inl e)
    with c Cons.prems g show ?thesis by simp
  next
    case (Inr u)
    with c Cons.prems have "ext_calls ev_env evs w1 = (r, w')" by simp
    from Cons.IH [OF this] Cons.prems(2) g show ?thesis by (auto intro: grows_trans)
  qed
qed

lemma ext_calls_handles:
  "ext_calls ev_env evs w = (r, w') \<Longrightarrow> excel w' = excel w \<and> outlook w' = outlook w"
proof (induction evs arbitrary: w)
  case Nil
  then show ?case by simp
next
  case (Cons ev evs)
  obtain r1 w1 where c: "ext_call ev_env ev w = (r1, w1)" by (cases "ext_call ev_env ev w")
  from ext_call_handles [OF c] have h: "excel w1 = excel w \<and> outlook w1 = outlook w" .
  show ?case
  proof (cases r1)
    case (Inl e)
    with c Cons.prems h show ?thesis by simp
  next
    case (Inr u)
    with c Cons.prems have "ext_calls ev_env evs w1 = (r, w')" by simp
    from Cons.IH [OF this] h show ?thesis by simp
  qed
qed

lemma grows_files: "grows S w w1 \<Longrightarrow> grows S w (w1\<lparr>files := insert p (files w1)\<rparr>)"
  by (auto simp: grows_def)

lemma grows_warnings: "grows S w w1 \<Longrightarrow> grows S w (w1\<lparr>warnings := ws\<rparr>)"
  by (auto simp: grows_def)

lemma grows_excel: "grows S w w1 \<Longrightarrow> grows S w (w1\<lparr>excel := b\<rparr>)"
  by (auto simp: grows_def)

lemma grows_outlook: "grows S w w1 \<Longrightarrow> grows S w (w1\<lparr>outlook := b\<rparr>)"
  by (auto simp: grows_def)

lemma grows_excel_pre: "grows S (w\<lparr>excel := b\<rparr>) w1 \<Longrightarrow> grows S w w1"
  by (auto simp: grows_def)

lemma grows_outlook_pre: "grows S (w\<lparr>outlook := b\<rparr>) w1 \<Longrightarrow> grows S w w1"
  by (auto simp: grows_def)

lemma write_template_grows:
  "write_employee_to_template ev_env tp out r nr w = (res, w') \<Longrightarrow>
     grows {Template} w w' \<and> excel w' = excel w \<and> outlook w' = outlook w"
  unfolding write_employee_to_template_def
  by (auto split: prod.splits sum.splits option.splits list.splits if_splits
      intro!: grows_files intro: grows_trans
      dest!: ext_call_effect simp: grows_def)

lemma force_recalc_grows:
  assumes "force_recalc_and_wait ev_env ex w = (res, w')"
  shows "grows {ExcelWorkbook} w w' \<and> excel w' = excel w \<and> outlook w' = outlook w"
proof -
  have e: "ext_calls ev_env [ExcelCalculate (force_full_recalc ex), ExcelWaitCalc (timeout_seconds ex)] w
      = (res, w')"
    using assms unfolding force_recalc_and_wait_def .
  have "grows {ExcelWorkbook} w w'"
    by (rule ext_calls_grows [OF e]) simp
  with ext_calls_handles [OF e] show ?thesis by simp
qed

lemma export_open_grows:
  "export_open ev_env ex out opts w = (res, w') \<Longrightarrow>
     grows {ExcelWorkbook} w w' \<and> excel w' = excel w \<and> outlook w' = outlook w"
  unfolding export_open_def Let_def
  apply (clarsimp split: prod.splits sum.splits if_splits dest!: force_recalc_grows ext_call_effect)
  apply (auto simp: grows_def)
  done

lemma export_grows:
  "export ev_env ex wbp out opts w = (res, w') \<Longrightarrow>
     grows {ExcelWorkbook} w w' \<and> excel w' = excel w \<and> outlook w' = outlook w"
  unfolding export_def
  apply (clarsimp simp: grows_refl split: prod.splits sum.splits if_splits
      dest!: export_open_grows ext_call_effect)
  apply (auto simp: grows_def ext_call_world)
  done


lemma n_ok_simps:
  "n_ok ev [] = 0"
  "n_ok ev (c # cs) = (if c = (ev, True) then 1 else 0) + n_ok ev cs"
  "n_ok ev (xs @ ys) = n_ok ev xs + n_ok ev ys"
  by (simp_all add: n_ok_def)

lemma n_calls_simps:
  "n_calls ev [] = 0"
  "n_calls ev (c # cs) = (if fst c = ev then 1 else 0) + n_calls ev cs"
  "n_calls ev (xs @ ys) = n_calls ev xs + n_calls ev ys"
  by (simp_all add: n_calls_def)

lemma attached_simps:
  "attached [] = []"
  "attached (c # cs) = attach_of c @ attached cs"
  "attached (xs @ ys) = attached xs @ attached ys"
  by (simp_all add: attached_def)

lemma silent_n_ok: "list_all (\<lambda>c. service_of (fst c) \<in> S) tr \<Longrightarrow> service_of ev \<notin> S \<Longrightarrow> n_ok ev tr = 0"
  by (induction tr) (auto simp: n_ok_simps)

lemma silent_n_calls: "list_all (\<lambda>c. service_of (fst c) \<in> S) tr \<Longrightarrow> service_of ev \<notin> S \<Longrightarrow> n_calls ev tr = 0"
  by (induction tr) (auto simp: n_calls_simps)

lemma attach_of_service: "service_of (fst c) \<noteq> MailItem \<Longrightarrow> attach_of c = []"
  by (cases c, cases "fst c") auto

lemma silent_attached: "list_all (\<lambda>c. service_of (fst c) \<in> S) tr \<Longrightarrow> MailItem \<notin> S \<Longrightarrow> attached tr = []"
  by (induction tr) (auto simp: attached_simps intro!: attach_of_service)

lemma grows_n_ok: "grows S w w' \<Longrightarrow> service_of ev \<notin> S \<Longrightarrow> n_ok ev (trace w') = n_ok ev (trace w)"
  by (auto simp: grows_def n_ok_simps silent_n_ok)

lemma grows_n_calls: "grows S w w' \<Longrightarrow> service_of ev \<notin> S \<Longrightarrow> n_calls ev (trace w') = n_calls ev (trace w)"
  by (auto simp: grows_def n_calls_simps silent_n_calls)

lemma grows_attached: "grows S w w' \<Longrightarrow> MailItem \<notin> S \<Longrightarrow> attached (trace w') = attached (trace w)"
  by (auto simp: grows_def attached_simps silent_attached)

lemma exporter_enter_effect:
  assumes "exporter_enter ev_env ex w = (r, w')"
  shows "grows {Com, ExcelApp} w w' \<and> outlook w' = outlook w
     \<and> n_calls ExcelQuit (trace w') = n_calls ExcelQuit (trace w)
     \<and> (r = Inr () \<longrightarrow> excel w'
           \<and> n_ok (ExcelDispatch (use_fresh_instance ex)) (trace w')
               = Suc (n_ok (ExcelDispatch (use_fresh_instance ex)) (trace w)))
     \<and> (r \<noteq> Inr () \<longrightarrow> excel w' \<longrightarrow> \<not> excel w \<longrightarrow>
           trace w' \<noteq> [] \<and> last (trace w') = (ExcelConfigure (visible ex), False))"
  using assms unfolding exporter_enter_def
  apply (clarsimp split: prod.splits sum.splits if_splits simp: grows_refl dest!: ext_call_effect)
  apply (auto simp: grows_def ext_call_world n_ok_simps n_calls_simps)
  done


lemma exporter_exit_effect:
  assumes "exporter_exit ev_env w = (r, w')"
  shows "r = Inr () \<and> grows {Com, ExcelApp} w w' \<and> outlook w' = outlook w \<and> \<not> excel w'
     \<and> n_ok (ExcelDispatch b) (trace w') = n_ok (ExcelDispatch b) (trace w)
     \<and> n_calls ExcelQuit (trace w')
         = (if excel w then Suc (n_calls ExcelQuit (trace w)) else n_calls ExcelQuit (trace w))"
  using assms unfolding exporter_exit_def Let_def
  by (auto simp: grows_def ext_call_world n_ok_simps n_calls_simps)

lemma export_counts:
  assumes "export ev_env ex wbp out opts w = (res, w')"
  shows "n_ok (ExcelDispatch b) (trace w') = n_ok (ExcelDispatch b) (trace w)
     \<and> n_calls ExcelQuit (trace w') = n_calls ExcelQuit (trace w)"
  using export_grows [OF assms]
    grows_n_ok [of "{ExcelWorkbook}" w w' "ExcelDispatch b"]
    grows_n_calls [of "{ExcelWorkbook}" w w' ExcelQuit]
  by simp

lemma pdf_stage_effect:
  assumes "pdf_stage ctx ev_env stem w = (r, w')" and "\<not> excel w"
  shows "grows {Com, ExcelApp, ExcelWorkbook} w w' \<and> outlook w' = outlook w
     \<and> (r = Inr () \<longrightarrow> \<not> excel w'
           \<and> n_ok (ExcelDispatch (use_fresh_instance (excel_exporter ctx))) (trace w')
               = n_ok (ExcelDispatch (use_fresh_instance (excel_exporter ctx))) (trace w)
                 + (if pdf_enabled ctx then 1 else 0)
           \<and> n_calls ExcelQuit (trace w')
               = n_calls ExcelQuit (trace w) + (if pdf_enabled ctx then 1 else 0))
     \<and> (excel w' \<longrightarrow> r \<noteq> Inr () \<and> trace w' \<noteq> []
           \<and> last (trace w') = (ExcelConfigure (visible (excel_exporter ctx)), False))"
proof (cases "pdf_enabled ctx")
  case False
  with assms show ?thesis by (auto simp: pdf_stage_def grows_refl)
next
  case True
  let ?ex = "excel_exporter ctx"
  obtain r1 w1 where en: "exporter_enter ev_env ?ex w = (r1, w1)"
    by (cases "exporter_enter ev_env ?ex w")
  note e1 = exporter_enter_effect [OF en]
  show ?thesis
  proof (cases r1)
    case (Inl e)
    with en True assms(1) have "r = Inl e" "w' = w1"
      by (auto simp: pdf_stage_def with_session_def)
    with e1 Inl assms(2) show ?thesis
      by (auto intro: grows_mono)
  next
    case (Inr u)
    obtain r2 w2 where ex: "export ev_env ?ex (xlsx_path ctx stem) (pdf_path ctx stem) (pdf_opts ctx) w1
        = (r2, w2)"
      by (cases "export ev_env ?ex (xlsx_path ctx stem) (pdf_path ctx stem) (pdf_opts ctx) w1")
    obtain r3 w3 where xt: "exporter_exit ev_env w2 = (r3, w3)"
      by (cases "exporter_exit ev_env w2")
    note e2 = export_grows [OF ex] export_counts [OF ex]
    note e3 = exporter_exit_effect [OF xt]
    from en Inr ex xt e3 True assms(1) have res: "w' = w3" "r = Inr () \<longleftrightarrow> (\<exists>p. r2 = Inr p)"
      by (auto simp: pdf_stage_def with_session_def split: sum.splits)
    have g: "grows {Com, ExcelApp, ExcelWorkbook} w w3"
      using e1 e2(1) e3
      by (blast intro: grows_trans grows_mono [where S' = "{Com, ExcelApp, ExcelWorkbook}"])
    from e1 e2 e3 Inr have c: "excel w1" "excel w2" "\<not> excel w3" "outlook w3 = outlook w"
      by auto
    from e1 e2(2) [of "use_fresh_instance ?ex"] e3 [of "use_fresh_instance ?ex"] Inr c
    have n: "n_ok (ExcelDispatch (use_fresh_instance ?ex)) (trace w3)
               = Suc (n_ok (ExcelDispatch (use_fresh_instance ?ex)) (trace w))"
      "n_calls ExcelQuit (trace w3) = Suc (n_calls ExcelQuit (trace w))"
      by auto
    from res g c n True show ?thesis by simp
  qed
qed

lemma sender_enter_effect:
  assumes "sender_enter ev_env w = (r, w')"
  shows "grows {Com, OutlookApp} w w' \<and> excel w' = excel w
     \<and> (r = Inr () \<longrightarrow> outlook w'
           \<and> n_ok OutlookDispatch (trace w') = Suc (n_ok OutlookDispatch (trace w)))
     \<and> (r \<noteq> Inr () \<longrightarrow> outlook w' = outlook w)"
  using assms unfolding sender_enter_def
  apply (clarsimp split: prod.splits sum.splits if_splits dest!: ext_call_effect)
  apply (auto simp: grows_def n_ok_simps)
  done

lemma sender_exit_effect:
  assumes "sender_exit ev_env w = (r, w')"
  shows "grows {Com} w w' \<and> excel w' = excel w \<and> \<not> outlook w'"
  using assms unfolding sender_exit_def
  by (auto simp: grows_def dest!: ext_call_effect)

lemma attach_and_send_effect:
  assumes "attach_and_send ev_env mode att w = (r, w')"
  shows "grows {MailItem} w w' \<and> excel w' = excel w \<and> outlook w' = outlook w
     \<and> (r = Inr () \<longrightarrow> (\<forall>p. att = Some p \<and> p \<noteq> [] \<longrightarrow>
           attached (trace w') = attached (trace w) @ [abspath ev_env p]))"
  using assms unfolding attach_and_send_def Let_def
  apply (clarsimp split: prod.splits sum.splits if_splits option.splits dest!: ext_call_effect)
  apply (auto simp: grows_def attached_simps grows_refl dest!: ext_call_effect
      split: prod.splits sum.splits if_splits)
  done


lemma message_calls_service: "\<forall>ev \<in> set (message_calls t sb b m). service_of ev \<in> {MailItem}"
  by (auto simp: message_calls_def split: option.splits)

lemma attached_message_calls: "attached (map (\<lambda>e. (e, True)) (message_calls t sb b m)) = []"
  by (auto simp: message_calls_def attached_def split: option.splits)

lemma send_email_effect:
  assumes "send_email ev_env mode t sb b att m w = (r, w')"
  shows "grows {MailItem} w w' \<and> excel w' = excel w \<and> outlook w' = outlook w
     \<and> (r = Inr () \<longrightarrow> (\<forall>p. att = Some p \<and> p \<noteq> [] \<longrightarrow>
           attached (trace w') = attached (trace w) @ [abspath ev_env p]))"
proof (cases "t = [] \<or> sb = [] \<or> b = [] \<or> \<not> outlook w")
  case True
  with assms show ?thesis by (auto simp: send_email_def grows_refl split: if_splits)
next
  case False
  obtain r1 w1 where c: "ext_calls ev_env (message_calls t sb b m) w = (r1, w1)"
    by (cases "ext_calls ev_env (message_calls t sb b m) w")
  have g1: "grows {MailItem} w w1"
    by (rule ext_calls_grows [OF c]) (rule message_calls_service)
  note h1 = ext_calls_handles [OF c]
  show ?thesis
  proof (cases r1)
    case (Inl e)
    with c False assms have "r = Inl e" "w' = w1" by (auto simp: send_email_def)
    with g1 h1 show ?thesis by simp
  next
    case (Inr u)
    with c False assms have a: "attach_and_send ev_env mode att w1 = (r, w')"
      by (auto simp: send_email_def)
    note e = attach_and_send_effect [OF a]
    from c Inr have "w1 = w\<lparr>trace := trace w @ map (\<lambda>e. (e, True)) (message_calls t sb b m)\<rparr>"
      by (auto dest: ext_calls_ok)
    then have "attached (trace w1) = attached (trace w)"
      by (simp add: attached_simps attached_message_calls)
    with e g1 h1 show ?thesis by (auto intro: grows_trans)
  qed
qed

lemma path_nonempty: "pdf_path ctx stem \<noteq> []" "xlsx_path ctx stem \<noteq> []"
  by (simp_all add: pdf_path_def xlsx_path_def path_join_def)

lemma email_stage_effect:
  assumes "email_stage ctx ev_env emp stem w = (r, w')" and "\<not> outlook w"
  shows "grows {Com, OutlookApp, MailItem} w w' \<and> excel w' = excel w \<and> \<not> outlook w'
     \<and> (r = Inr () \<longrightarrow>
           n_ok OutlookDispatch (trace w') = n_ok OutlookDispatch (trace w)
               + (if email_enabled ctx \<and> has_email emp then 1 else 0)
           \<and> attached (trace w') = attached (trace w)
               @ (if email_enabled ctx \<and> has_email emp
                  then [abspath ev_env (if pdf_enabled ctx then pdf_path ctx stem
                                        else xlsx_path ctx stem)]
                  else []))"
proof (cases "email_enabled ctx \<and> has_email emp")
  case False
  with assms show ?thesis
    by (auto simp: email_stage_def has_email_def grows_def split: if_splits)
next
  case True
  let ?nm = "field_text (name emp)" and ?rf = "field_text (ref emp)"
  let ?att = "if pdf_enabled ctx then pdf_path ctx stem else xlsx_path ctx stem"
  show ?thesis
  proof (cases "subject_tmpl ctx ?nm ?rf (period ctx)")
    case (Inl e)
    with True assms show ?thesis
      by (auto simp: email_stage_def has_email_def grows_refl)
  next
    case sj: (Inr subject)
    show ?thesis
    proof (cases "body_tmpl ctx ?nm ?rf (period ctx)")
      case (Inl e)
      with True sj assms show ?thesis
        by (auto simp: email_stage_def has_email_def grows_refl)
    next
      case bd: (Inr body)
      from True sj bd assms(1) have ws:
        "with_session (sender_enter ev_env) (sender_exit ev_env)
           (send_email ev_env (send_mode ctx) (field_text (email emp)) subject body
              (Some ?att) (sender_mailbox ctx)) w = (r, w')"
        by (simp add: email_stage_def has_email_def Let_def)
      obtain r1 w1 where en: "sender_enter ev_env w = (r1, w1)"
        by (cases "sender_enter ev_env w")
      note e1 = sender_enter_effect [OF en]
      show ?thesis
      proof (cases r1)
        case (Inl e)
        with en ws have "r = Inl e" "w' = w1" by (auto simp: with_session_def)
        with e1 Inl assms(2) show ?thesis by (auto intro: grows_mono)
      next
        case (Inr u)
        obtain r2 w2 where se: "send_email ev_env (send_mode ctx) (field_text (email emp)) subject body
              (Some ?att) (sender_mailbox ctx) w1 = (r2, w2)"
          by (cases "send_email ev_env (send_mode ctx) (field_text (email emp)) subject body
              (Some ?att) (sender_mailbox ctx) w1")
        obtain r3 w3 where xt: "sender_exit ev_env w2 = (r3, w3)"
          by (cases "sender_exit ev_env w2")
        note e2 = send_email_effect [OF se]
        note e3 = sender_exit_effect [OF xt]
        from en Inr se xt ws have res: "w' = w3" "r = Inr () \<longrightarrow> r2 = Inr ()"
          by (auto simp: with_session_def split: sum.splits)
        have g1: "grows {Com, OutlookApp, MailItem} w w1"
          using e1 by (auto intro: grows_mono)
        have g2: "grows {Com, OutlookApp, MailItem} w1 w2"
          using e2 by (auto intro: grows_mono)
        have g3: "grows {Com, OutlookApp, MailItem} w2 w3"
          using e3 by (auto intro: grows_mono)
        have g: "grows {Com, OutlookApp, MailItem} w w3"
          using g1 g2 g3 by (blast intro: grows_trans)
        have h: "excel w3 = excel w" "\<not> outlook w3"
          using e1 e2 e3 by auto
        have n1: "n_ok OutlookDispatch (trace w1) = Suc (n_ok OutlookDispatch (trace w))"
          using e1 Inr by simp
        have n2: "n_ok OutlookDispatch (trace w2) = n_ok OutlookDispatch (trace w1)"
          using e2 by (auto intro: grows_n_ok)
        have n3: "n_ok OutlookDispatch (trace w3) = n_ok OutlookDispatch (trace w2)"
          using e3 by (auto intro: grows_n_ok)
        have a1: "attached (trace w1) = attached (trace w)"
          using e1 by (auto intro: grows_attached)
        have a2: "r2 = Inr () \<longrightarrow> attached (trace w2) = attached (trace w1) @ [abspath ev_env ?att]"
          using e2 path_nonempty [of ctx stem] by auto
        have a3: "attached (trace w3) = attached (trace w2)"
          using e3 by (auto intro: grows_attached)
        from res g h n1 n2 n3 a1 a2 a3 True show ?thesis by simp
      qed
    qed
  qed
qed

lemma process_employee_skip:
  "\<not> has_ref emp \<Longrightarrow> process_employee ctx ev_env emp w
     = (Inr False, w\<lparr>warnings := warnings w @ [''Skipping employee with missing ref.'']\<rparr>)"
  by (simp add: process_employee_def has_ref_def)

lemma process_employee_effect:
  assumes pe: "process_employee ctx ev_env emp w = (r, w')" and rel: "released w"
  shows "\<not> outlook w'
     \<and> (excel w' \<longrightarrow> (\<exists>e. r = Inl e) \<and> trace w' \<noteq> []
           \<and> last (trace w') = (ExcelConfigure (visible (excel_exporter ctx)), False))
     \<and> (\<forall>c. r = Inr c \<longrightarrow> c = has_ref emp
           \<and> n_ok (ExcelDispatch (use_fresh_instance (excel_exporter ctx))) (trace w')
               = n_ok (ExcelDispatch (use_fresh_instance (excel_exporter ctx))) (trace w)
                 + (if c \<and> pdf_enabled ctx then 1 else 0)
           \<and> n_calls ExcelQuit (trace w')
               = n_calls ExcelQuit (trace w) + (if c \<and> pdf_enabled ctx then 1 else 0)
           \<and> n_ok OutlookDispatch (trace w') = n_ok OutlookDispatch (trace w)
               + (if c \<and> email_enabled ctx \<and> has_email emp then 1 else 0)
           \<and> attached (trace w') = attached (trace w)
               @ (if c \<and> email_enabled ctx \<and> has_email emp
                  then [abspath ev_env (if pdf_enabled ctx then pdf_path ctx (stem_of ctx emp)
                                        else xlsx_path ctx (stem_of ctx emp))]
                  else []))"
proof (cases "has_ref emp")
  case False
  with pe rel show ?thesis
    by (auto simp: process_employee_skip released_def)
next
  case True
  let ?ex = "excel_exporter ctx"
  from rel have r0: "\<not> excel w" "\<not> outlook w" by (simp_all add: released_def)
  show ?thesis
  proof (cases "file_stem_of ctx emp")
    case (Inl e)
    with True pe r0 show ?thesis
      by (auto simp: process_employee_def has_ref_def)
  next
    case st: (Inr stem)
    then have so: "stem_of ctx emp = stem" by (simp add: stem_of_def)
    obtain r1 w1 where wt: "write_employee_to_template ev_env (template_path ctx)
        (xlsx_path ctx stem) (field_text (ref emp)) (employee_ref_named_range ctx) w = (r1, w1)"
      by (cases "write_employee_to_template ev_env (template_path ctx)
        (xlsx_path ctx stem) (field_text (ref emp)) (employee_ref_named_range ctx) w")
    note e1 = write_template_grows [OF wt]
    from e1 r0 have r1': "\<not> excel w1" "\<not> outlook w1" by simp_all
    have c1: "n_ok (ExcelDispatch (use_fresh_instance ?ex)) (trace w1)
               = n_ok (ExcelDispatch (use_fresh_instance ?ex)) (trace w)"
        "n_calls ExcelQuit (trace w1) = n_calls ExcelQuit (trace w)"
        "n_ok OutlookDispatch (trace w1) = n_ok OutlookDispatch (trace w)"
        "attached (trace w1) = attached (trace w)"
      using e1 by (auto intro: grows_n_ok grows_n_calls grows_attached)
    show ?thesis
    proof (cases r1)
      case (Inl e)
      with True st wt pe have "r = Inl e" "w' = w1"
        by (auto simp: process_employee_def has_ref_def)
      with r1' show ?thesis by simp
    next
      case i1: (Inr u1)
      obtain r2 w2 where ps: "pdf_stage ctx ev_env stem w1 = (r2, w2)"
        by (cases "pdf_stage ctx ev_env stem w1")
      note e2 = pdf_stage_effect [OF ps r1'(1)]
      from e2 r1' have o2: "\<not> outlook w2" by simp
      have c2: "n_ok OutlookDispatch (trace w2) = n_ok OutlookDispatch (trace w1)"
        "attached (trace w2) = attached (trace w1)"
        using e2 by (auto intro: grows_n_ok grows_attached)
      show ?thesis
      proof (cases r2)
        case (Inl e)
        with True st wt i1 ps pe have "r = Inl e" "w' = w2"
          by (auto simp: process_employee_def has_ref_def)
        with e2 o2 Inl show ?thesis by simp
      next
        case i2: (Inr u2)
        with e2 have x2: "\<not> excel w2" by simp
        obtain r3 w3 where es: "email_stage ctx ev_env emp stem w2 = (r3, w3)"
          by (cases "email_stage ctx ev_env emp stem w2")
        note e3 = email_stage_effect [OF es o2]
        from e3 x2 have r3': "\<not> excel w3" "\<not> outlook w3" by simp_all
        have c3: "n_ok (ExcelDispatch (use_fresh_instance ?ex)) (trace w3)
               = n_ok (ExcelDispatch (use_fresh_instance ?ex)) (trace w2)"
          "n_calls ExcelQuit (trace w3) = n_calls ExcelQuit (trace w2)"
          using e3 by (auto intro: grows_n_ok grows_n_calls)
        from True st wt i1 ps i2 es pe have res: "w' = w3"
          "r = (case r3 of Inl e \<Rightarrow> Inl e | Inr u \<Rightarrow> Inr True)"
          by (auto simp: process_employee_def has_ref_def split: sum.splits)
        show ?thesis
        proof (cases r3)
          case (Inl e)
          with res r3' show ?thesis by simp
        next
          case (Inr u3)
          with res have "r = Inr True" by simp
          with res(1) r3' True e2 i2 e3 Inr c1 c2 c3 so show ?thesis
            by simp
        qed
      qed
    qed
  qed
qed

lemma process_employee_counted:
  assumes pe: "process_employee ctx ev_env emp w = (Inr c, w')" and rel: "released w"
  shows "released w'" "c = has_ref emp"
    "n_ok (ExcelDispatch (use_fresh_instance (excel_exporter ctx))) (trace w')
       = n_ok (ExcelDispatch (use_fresh_instance (excel_exporter ctx))) (trace w)
         + (if c \<and> pdf_enabled ctx then 1 else 0)"
    "n_calls ExcelQuit (trace w')
       = n_calls ExcelQuit (trace w) + (if c \<and> pdf_enabled ctx then 1 else 0)"
    "n_ok OutlookDispatch (trace w') = n_ok OutlookDispatch (trace w)
       + (if c \<and> email_enabled ctx \<and> has_email emp then 1 else 0)"
    "attached (trace w') = attached (trace w)
       @ (if c \<and> email_enabled ctx \<and> has_email emp
          then [abspath ev_env (if pdf_enabled ctx then pdf_path ctx (stem_of ctx emp)
                                else xlsx_path ctx (stem_of ctx emp))]
          else [])"
proof -
  note e = process_employee_effect [OF pe rel]
  from e have a: "\<not> outlook w'" by (rule conjunct1)
  from e have "excel w' \<longrightarrow> (\<exists>e. (Inr c :: exn + bool) = Inl e) \<and> trace w' \<noteq> []
           \<and> last (trace w') = (ExcelConfigure (visible (excel_exporter ctx)), False)"
    by (rule conjunct2 [THEN conjunct1])
  then have b: "\<not> excel w'" by blast
  from a b show "released w'" by (simp add: released_def)
  note f = e [THEN conjunct2, THEN conjunct2, rule_format, OF refl]
  from f show "c = has_ref emp" by (rule conjunct1)
  from f show "n_ok (ExcelDispatch (use_fresh_instance (excel_exporter ctx))) (trace w')
       = n_ok (ExcelDispatch (use_fresh_instance (excel_exporter ctx))) (trace w)
         + (if c \<and> pdf_enabled ctx then 1 else 0)"
    by (rule conjunct2 [THEN conjunct1])
  from f show "n_calls ExcelQuit (trace w')
       = n_calls ExcelQuit (trace w) + (if c \<and> pdf_enabled ctx then 1 else 0)"
    by (rule conjunct2 [THEN conjunct2, THEN conjunct1])
  from f show "n_ok OutlookDispatch (trace w') = n_ok OutlookDispatch (trace w)
       + (if c \<and> email_enabled ctx \<and> has_email emp then 1 else 0)"
    by (rule conjunct2 [THEN conjunct2, THEN conjunct2, THEN conjunct1])
  from f show "attached (trace w') = attached (trace w)
       @ (if c \<and> email_enabled ctx \<and> has_email emp
          then [abspath ev_env (if pdf_enabled ctx then pdf_path ctx (stem_of ctx emp)
                                else xlsx_path ctx (stem_of ctx emp))]
          else [])"
    by (rule conjunct2 [THEN conjunct2, THEN conjunct2, THEN conjunct2])
qed

lemma process_employee_raised:
  assumes pe: "process_employee ctx ev_env emp w = (Inl e, w')" and rel: "released w"
  shows "\<not> outlook w'"
    "excel w' \<longrightarrow> trace w' \<noteq> []
       \<and> last (trace w') = (ExcelConfigure (visible (excel_exporter ctx)), False)"
  using process_employee_effect [OF pe rel] by blast+

lemma main_loop_completed:
  assumes "main_loop ctx ev_env emps w p = (Inr p', w')" and "released w"
  shows "released w' \<and> p' = p + length (filter has_ref emps)
     \<and> n_ok (ExcelDispatch (use_fresh_instance (excel_exporter ctx))) (trace w')
         = n_ok (ExcelDispatch (use_fresh_instance (excel_exporter ctx))) (trace w)
           + (if pdf_enabled ctx then length (filter has_ref emps) else 0)
     \<and> n_calls ExcelQuit (trace w')
         = n_calls ExcelQuit (trace w)
           + (if pdf_enabled ctx then length (filter has_ref emps) else 0)
     \<and> n_ok OutlookDispatch (trace w') = n_ok OutlookDispatch (trace w)
         + (if email_enabled ctx
            then length (filter (\<lambda>e. has_ref e \<and> has_email e) emps) else 0)
     \<and> attached (trace w') = attached (trace w)
         @ (if email_enabled ctx
            then map (\<lambda>e. abspath ev_env (if pdf_enabled ctx then pdf_path ctx (stem_of ctx e)
                                           else xlsx_path ctx (stem_of ctx e)))
                   (filter (\<lambda>e. has_ref e \<and> has_email e) emps)
            else [])"
  using assms
proof (induction emps arbitrary: w p)
  case Nil
  then have "p' = p" "w' = w" by simp_all
  with Nil.prems(2) show ?case by simp
next
  case (Cons emp rest)
  obtain r1 w1 where pe: "process_employee ctx ev_env emp w = (r1, w1)"
    by (cases "process_employee ctx ev_env emp w")
  show ?case
  proof (cases r1)
    case (Inl e)
    with pe Cons.prems(1) show ?thesis by simp
  next
    case (Inr c)
    note pc = process_employee_counted [OF pe [unfolded Inr] Cons.prems(2)]
    from pe Inr Cons.prems(1)
    have ml: "main_loop ctx ev_env rest w1 (if c then Suc p else p) = (Inr p', w')" by simp
    note ih = Cons.IH [OF ml pc(1)]
    show ?thesis
    proof (cases "has_ref emp")
      case True
      with pc(2) have c: "c" by simp
      from ih pc(3-6) c True show ?thesis
        by simp
    next
      case False
      with pc(2) have c: "\<not> c" by simp
      from ih pc(3-6) c False show ?thesis
        by simp
    qed
  qed
qed

lemma main_loop_raised:
  assumes "main_loop ctx ev_env emps w p = (Inl e, w')" and "released w"
  shows "\<not> outlook w' \<and> (excel w' \<longrightarrow> trace w' \<noteq> []
       \<and> last (trace w') = (ExcelConfigure (visible (excel_exporter ctx)), False))"
  using assms
proof (induction emps arbitrary: w p)
  case Nil
  then show ?case by simp
next
  case (Cons emp rest)
  obtain r1 w1 where pe: "process_employee ctx ev_env emp w = (r1, w1)"
    by (cases "process_employee ctx ev_env emp w")
  show ?case
  proof (cases r1)
    case (Inl e1)
    with pe Cons.prems(1) have "e = e1" "w' = w1" by simp_all
    with process_employee_raised [OF pe [unfolded Inl] Cons.prems(2)] show ?thesis by simp
  next
    case (Inr c)
    note pc = process_employee_counted(1) [OF pe [unfolded Inr] Cons.prems(2)]
    from pe Inr Cons.prems(1)
    have ml: "main_loop ctx ev_env rest w1 (if c then Suc p else p) = (Inl e, w')" by simp
    from Cons.IH [OF ml pc] show ?thesis .
  qed
qed

subsection \<open>The run when nothing outside goes wrong\<close>

lemma quiet_ext_call:
  "quiet ev_env \<Longrightarrow> ext_call ev_env ev w = (Inr (), w\<lparr>trace := trace w @ [(ev, True)]\<rparr>)"
  by (simp add: quiet_def ext_call_def)

lemma quiet_template:
  assumes "quiet ev_env" and "template_ok ctx ev_env"
  shows "\<exists>sheet cell_ref.
     write_employee_to_template ev_env (template_path ctx) out rf (employee_ref_named_range ctx) w
       = (Inr (), w\<lparr>trace := trace w @ [(TemplateLoad (template_path ctx), True),
                                         (TemplateSave out sheet cell_ref rf, True)],
                    files := insert out (files w)\<rparr>)"
  using assms
  by (auto simp: write_employee_to_template_def template_ok_def quiet_ext_call
      split: option.splits list.splits)

lemma quiet_pdf_stage:
  assumes "quiet ev_env" and "pdf_enabled ctx" and "xlsx_path ctx stem \<in> files w"
  shows "pdf_stage ctx ev_env stem w
     = (Inr (), w\<lparr>trace := trace w @ map (\<lambda>e. (e, True)) (pdf_calls ctx stem),
                  files := insert (pdf_path ctx stem) (files w), excel := False\<rparr>)"
proof -
  have q: "\<forall>tr. export_writes ev_env tr" "\<forall>p. abspath ev_env p = p" "win32com_available ev_env"
    using assms(1) by (simp_all add: quiet_def)
  show ?thesis
    using assms(2,3) q
    by (simp add: pdf_stage_def with_session_def exporter_enter_def exporter_exit_def export_def
        export_open_def force_recalc_and_wait_def quiet_ext_call [OF assms(1)] Let_def pdf_calls_def)
qed

lemma quiet_ext_calls:
  "quiet ev_env \<Longrightarrow> ext_calls ev_env evs w = (Inr (), w\<lparr>trace := trace w @ map (\<lambda>e. (e, True)) evs\<rparr>)"
  by (induction evs arbitrary: w) (simp_all add: quiet_ext_call)

lemma quiet_email_stage:
  assumes "quiet ev_env" and "email_enabled ctx" and "has_email emp"
    and "subject_tmpl ctx (field_text (name emp)) (field_text (ref emp)) (period ctx) = Inr subject"
    and "body_tmpl ctx (field_text (name emp)) (field_text (ref emp)) (period ctx) = Inr body"
    and "subject \<noteq> []" and "body \<noteq> []"
    and "(if pdf_enabled ctx then pdf_path ctx stem else xlsx_path ctx stem) \<in> files w"
  shows "email_stage ctx ev_env emp stem w
     = (Inr (), w\<lparr>trace := trace w @ map (\<lambda>e. (e, True))
                     (mail_session_calls ctx (field_text (email emp)) subject body
                        (if pdf_enabled ctx then pdf_path ctx stem else xlsx_path ctx stem)),
                  outlook := False\<rparr>)"
proof -
  have q: "\<forall>p. abspath ev_env p = p"
    using assms(1) by (simp add: quiet_def)
  have ne: "(if pdf_enabled ctx then pdf_path ctx stem else xlsx_path ctx stem) \<noteq> []"
    by (simp add: pdf_path_def xlsx_path_def path_join_def)
  show ?thesis
    using assms(2-8) q ne
    by (simp add: email_stage_def has_email_def with_session_def sender_enter_def sender_exit_def
        send_email_def attach_and_send_def quiet_ext_call [OF assms(1)]
        quiet_ext_calls [OF assms(1)] Let_def mail_session_calls_def final_call_def)
qed

lemma proj_append:
  "saved_workbooks (xs @ ys) = saved_workbooks xs @ saved_workbooks ys"
  "exported_files (xs @ ys) = exported_files xs @ exported_files ys"
  "recipients (xs @ ys) = recipients xs @ recipients ys"
  by (simp_all add: saved_workbooks_def exported_files_def recipients_def)

lemma proj_cons:
  "saved_workbooks [] = []" "saved_workbooks (c # cs) = saved_of c @ saved_workbooks cs"
  "exported_files [] = []" "exported_files (c # cs) = exported_of c @ exported_files cs"
  "recipients [] = []" "recipients (c # cs) = recipient_of c @ recipients cs"
  by (simp_all add: saved_workbooks_def exported_files_def recipients_def)

lemma proj_template:
  "saved_workbooks [(TemplateLoad tp, True), (TemplateSave out sh cl rf, True)] = [out]"
  "exported_files [(TemplateLoad tp, True), (TemplateSave out sh cl rf, True)] = []"
  "recipients [(TemplateLoad tp, True), (TemplateSave out sh cl rf, True)] = []"
  "n_calls (final_call ctx) [(TemplateLoad tp, True), (TemplateSave out sh cl rf, True)] = 0"
  by (simp_all add: saved_workbooks_def exported_files_def recipients_def n_calls_def final_call_def)

lemma n_calls_final_template:
  "n_calls (final_call ctx) ((TemplateLoad tp, True) # (TemplateSave out sh cl rf, True) # cs)
     = n_calls (final_call ctx) cs"
  by (simp add: n_calls_def final_call_def)

lemma proj_pdf_calls:
  "saved_workbooks (map (\<lambda>e. (e, True)) (pdf_calls ctx stem)) = []"
  "exported_files (map (\<lambda>e. (e, True)) (pdf_calls ctx stem)) = [pdf_path ctx stem]"
  "recipients (map (\<lambda>e. (e, True)) (pdf_calls ctx stem)) = []"
  "n_calls (final_call ctx) (map (\<lambda>e. (e, True)) (pdf_calls ctx stem)) = 0"
  by (simp_all add: saved_workbooks_def exported_files_def recipients_def n_calls_def final_call_def
      pdf_calls_def)

lemma proj_mail_calls:
  "saved_workbooks (map (\<lambda>e. (e, True)) (mail_session_calls ctx t sb b a)) = []"
  "exported_files (map (\<lambda>e. (e, True)) (mail_session_calls ctx t sb b a)) = []"
  "recipients (map (\<lambda>e. (e, True)) (mail_session_calls ctx t sb b a)) = [t]"
  "n_calls (final_call ctx) (map (\<lambda>e. (e, True)) (mail_session_calls ctx t sb b a)) = 1"
  by (auto simp: saved_workbooks_def exported_files_def recipients_def n_calls_def final_call_def
      mail_session_calls_def message_calls_def split: option.splits)

lemma quiet_process_employee:
  assumes q: "quiet ev_env" and t: "template_ok ctx ev_env" and f: "formats_ok ctx"
    and r: "has_ref emp"
  shows "\<exists>w'. process_employee ctx ev_env emp w = (Inr True, w')
     \<and> saved_workbooks (trace w') = saved_workbooks (trace w) @ [xlsx_path ctx (stem_of ctx emp)]
     \<and> exported_files (trace w') = exported_files (trace w)
         @ (if pdf_enabled ctx then [pdf_path ctx (stem_of ctx emp)] else [])
     \<and> recipients (trace w') = recipients (trace w)
         @ (if email_enabled ctx \<and> has_email emp then [field_text (email emp)] else [])
     \<and> n_calls (final_call ctx) (trace w') = n_calls (final_call ctx) (trace w)
         + (if email_enabled ctx \<and> has_email emp then 1 else 0)
     \<and> warnings w' = warnings w
         @ (if email_enabled ctx \<and> \<not> has_email emp then [skip_warning (field_text (ref emp))]
            else [])
     \<and> files w' = files w \<union> {xlsx_path ctx (stem_of ctx emp)}
         \<union> (if pdf_enabled ctx then {pdf_path ctx (stem_of ctx emp)} else {})"
proof -
  let ?nm = "field_text (name emp)" and ?rf = "field_text (ref emp)"
  from f obtain raw where raw: "filename_pattern ctx ?rf ?nm (period_id (period ctx)) = Inr raw"
    unfolding formats_ok_def by blast
  define stem where "stem = safe_filename raw default_max_len"
  have st: "file_stem_of ctx emp = Inr stem"
    by (simp add: file_stem_of_def raw stem_def)
  then have so: "stem_of ctx emp = stem" by (simp add: stem_of_def)
  from f obtain subject where sj: "subject_tmpl ctx ?nm ?rf (period ctx) = Inr subject" "subject \<noteq> []"
    unfolding formats_ok_def by blast
  from f obtain body where bd: "body_tmpl ctx ?nm ?rf (period ctx) = Inr body" "body \<noteq> []"
    unfolding formats_ok_def by blast
  from quiet_template [OF q t, of "xlsx_path ctx stem" ?rf w] obtain sheet cell_ref where
    wt: "write_employee_to_template ev_env (template_path ctx) (xlsx_path ctx stem) ?rf
           (employee_ref_named_range ctx) w
         = (Inr (), w\<lparr>trace := trace w @ [(TemplateLoad (template_path ctx), True),
                                       (TemplateSave (xlsx_path ctx stem) sheet cell_ref ?rf, True)],
                    files := insert (xlsx_path ctx stem) (files w)\<rparr>)"
    by blast
  let ?w1 = "w\<lparr>trace := trace w @ [(TemplateLoad (template_path ctx), True),
                                       (TemplateSave (xlsx_path ctx stem) sheet cell_ref ?rf, True)],
                    files := insert (xlsx_path ctx stem) (files w)\<rparr>"
  obtain w2 where ps: "pdf_stage ctx ev_env stem ?w1 = (Inr (), w2)"
    and w2: "w2 = (if pdf_enabled ctx
                   then ?w1\<lparr>trace := trace ?w1 @ map (\<lambda>e. (e, True)) (pdf_calls ctx stem),
                             files := insert (pdf_path ctx stem) (files ?w1), excel := False\<rparr>
                   else ?w1)"
  proof (cases "pdf_enabled ctx")
    case True
    have "xlsx_path ctx stem \<in> files ?w1" by simp
    from quiet_pdf_stage [OF q True this] True that show ?thesis by simp
  next
    case False
    then have "pdf_stage ctx ev_env stem ?w1 = (Inr (), ?w1)" by (simp add: pdf_stage_def)
    with False that show ?thesis by simp
  qed
  let ?att = "if pdf_enabled ctx then pdf_path ctx stem else xlsx_path ctx stem"
  have att: "?att \<in> files w2" by (simp add: w2)
  obtain w3 where es: "email_stage ctx ev_env emp stem w2 = (Inr (), w3)"
    and w3: "w3 = (if email_enabled ctx \<and> has_email emp
                   then w2\<lparr>trace := trace w2 @ map (\<lambda>e. (e, True))
                            (mail_session_calls ctx (field_text (email emp)) subject body ?att),
                          outlook := False\<rparr>
                   else if email_enabled ctx
                   then w2\<lparr>warnings := warnings w2 @ [skip_warning ?rf]\<rparr>
                   else w2)"
  proof (cases "email_enabled ctx \<and> has_email emp")
    case True
    from quiet_email_stage [OF q _ _ sj(1) bd(1) sj(2) bd(2) att] True that show ?thesis by simp
  next
    case False
    then have "email_stage ctx ev_env emp stem w2
        = (Inr (), if email_enabled ctx then w2\<lparr>warnings := warnings w2 @ [skip_warning ?rf]\<rparr> else w2)"
      by (auto simp: email_stage_def has_email_def)
    with False that show ?thesis by auto
  qed
  have pe: "process_employee ctx ev_env emp w = (Inr True, w3)"
    using r st wt ps es by (simp add: process_employee_def has_ref_def)
  have a: "saved_workbooks (trace w3) = saved_workbooks (trace w) @ [xlsx_path ctx stem]"
    by (simp add: w3 w2 proj_append proj_cons proj_pdf_calls proj_mail_calls)
  have b: "exported_files (trace w3) = exported_files (trace w)
         @ (if pdf_enabled ctx then [pdf_path ctx stem] else [])"
    by (simp add: w3 w2 proj_append proj_cons proj_pdf_calls proj_mail_calls)
  have c: "recipients (trace w3) = recipients (trace w)
         @ (if email_enabled ctx \<and> has_email emp then [field_text (email emp)] else [])"
    by (simp add: w3 w2 proj_append proj_cons proj_pdf_calls proj_mail_calls)
  have d: "n_calls (final_call ctx) (trace w3) = n_calls (final_call ctx) (trace w)
         + (if email_enabled ctx \<and> has_email emp then 1 else 0)"
    by (simp add: w3 w2 n_calls_simps(1,3) n_calls_final_template proj_template proj_pdf_calls proj_mail_calls)
  have e: "warnings w3 = warnings w
         @ (if email_enabled ctx \<and> \<not> has_email emp then [skip_warning ?rf] else [])"
    by (simp add: w3 w2)
  have g: "files w3 = files w \<union> {xlsx_path ctx stem}
         \<union> (if pdf_enabled ctx then {pdf_path ctx stem} else {})"
    by (auto simp: w3 w2)
  from pe a b c d e g show ?thesis unfolding so by blast
qed

subsection \<open>The run: failures, sessions, attachments\<close>

lemma main_loop_append:
  "main_loop ctx ev_env (xs @ ys) w p =
     (case main_loop ctx ev_env xs w p of
        (Inl e, w') \<Rightarrow> (Inl e, w')
      | (Inr p', w') \<Rightarrow> main_loop ctx ev_env ys w' p')"
  by (induction xs arbitrary: w p) (auto split: prod.splits sum.splits)

lemmas run_eval = process_employee_def file_stem_of_def field_text_def strip_def is_space_def
  safe_filename_def illegal_char_def py_prefix_def default_max_len_def
  write_employee_to_template_def pdf_stage_def email_stage_def with_session_def
  exporter_enter_def exporter_exit_def export_def export_open_def force_recalc_and_wait_def
  sender_enter_def sender_exit_def send_email_def attach_and_send_def message_calls_def
  ext_call_def xlsx_path_def pdf_path_def path_join_def skip_warning_def
  quality_code_def sheet_arg_def default_exporter_def
  demo_ctx_def demo_period_def quiet_env_def template_wb_def start_world_def Let_def
  emp_a1_def emp_a2_def emp_a3_def emp_b2_def a2_fails_env_def xlsx_only_ctx_def

lemmas trace_eval = n_ok_def n_calls_def saved_workbooks_def exported_files_def recipients_def
  attached_def

lemma demo_load:
  "load_employees (Inr df_three) (reference_col demo_src) (name_col demo_src) (email_col demo_src)
     (required_cols demo_src) = Inr ([emp_a1] @ emp_b2 # [emp_a3])"
  by (simp add: load_eval df_three_def demo_src_def emp_a1_def emp_b2_def emp_a3_def)

text \<open>
  C1, as the code has it. The loop body holds no handler. When the pipeline of one
  employee raises, the exception leaves the loop at that record: the state is the one
  that record left, the records after it are not processed, no count is reported, and
  \<^verbatim>\<open>main\<close> ends with the exception, which the guard turns into a SystemExit with a
  message: the process ends with status 1.
\<close>

theorem exception_ends_the_run:
  assumes "load_employees source (reference_col src) (name_col src) (email_col src)
             (required_cols src) = Inr (before @ emp # rest)"
    and "\<not> (email_enabled ctx \<and> send_mode ctx \<noteq> ''send'' \<and> send_mode ctx \<noteq> ''display'')"
    and "main_loop ctx ev_env before w 0 = (Inr n, w1)"
    and "process_employee ctx ev_env emp w1 = (Inl e, w2)"
  shows "main_loop ctx ev_env (before @ emp # rest) w 0 = (Inl e, w2)
     \<and> main_run ctx ev_env src source w = (Inl (Exc e), w2)
     \<and> exit_code (main_guard (fst (main_run ctx ev_env src source w))) = 1"
proof -
  have l: "main_loop ctx ev_env (before @ emp # rest) w 0 = (Inl e, w2)"
    using assms(3,4) by (simp add: main_loop_append)
  have r: "main_run ctx ev_env src source w = (Inl (Exc e), w2)"
    using assms(1,2) l by (auto simp: main_run_def)
  from l r show ?thesis by (simp add: main_guard_def)
qed

theorem exception_ends_the_run_witness:
  "load_employees (Inr df_three) (reference_col demo_src) (name_col demo_src) (email_col demo_src)
     (required_cols demo_src) = Inr ([emp_a1] @ emp_b2 # [emp_a3])
   \<and> fst (main_loop demo_ctx a2_fails_env [emp_a1] start_world 0) = Inr 1
   \<and> fst (process_employee demo_ctx a2_fails_env emp_b2
            (snd (main_loop demo_ctx a2_fails_env [emp_a1] start_world 0)))
       = Inl (ExternalError ''cannot write the workbook'')
   \<and> fst (main_run demo_ctx a2_fails_env demo_src (Inr df_three) start_world)
       = Inl (Exc (ExternalError ''cannot write the workbook''))
   \<and> exit_code (main_guard (fst (main_run demo_ctx a2_fails_env demo_src (Inr df_three) start_world)))
       = 1"
proof -
  let ?w1 = "snd (main_loop demo_ctx a2_fails_env [emp_a1] start_world 0)"
  let ?w2 = "snd (process_employee demo_ctx a2_fails_env emp_b2 ?w1)"
  have h2: "\<not> (email_enabled demo_ctx \<and> send_mode demo_ctx \<noteq> ''send''
      \<and> send_mode demo_ctx \<noteq> ''display'')"
    by (simp add: demo_ctx_def)
  have f3: "fst (main_loop demo_ctx a2_fails_env [emp_a1] start_world 0) = Inr 1"
    by (simp add: run_eval)
  then have h3: "main_loop demo_ctx a2_fails_env [emp_a1] start_world 0 = (Inr 1, ?w1)"
    by (simp add: prod_eq_iff)
  have f4: "fst (process_employee demo_ctx a2_fails_env emp_b2 ?w1)
      = Inl (ExternalError ''cannot write the workbook'')"
    by (simp add: run_eval)
  then have h4: "process_employee demo_ctx a2_fails_env emp_b2 ?w1
      = (Inl (ExternalError ''cannot write the workbook''), ?w2)"
    by (simp add: prod_eq_iff)
  note th = exception_ends_the_run [OF demo_load h2 h3 h4]
  from th have "main_run demo_ctx a2_fails_env demo_src (Inr df_three) start_world
      = (Inl (Exc (ExternalError ''cannot write the workbook'')), ?w2)"
    by (rule conjunct2 [THEN conjunct1])
  then have m: "fst (main_run demo_ctx a2_fails_env demo_src (Inr df_three) start_world)
      = Inl (Exc (ExternalError ''cannot write the workbook''))"
    by (simp only: fst_conv)
  from th have x: "exit_code (main_guard (fst (main_run demo_ctx a2_fails_env demo_src
      (Inr df_three) start_world))) = 1"
    by (rule conjunct2 [THEN conjunct2])
  show ?thesis by (intro conjI demo_load f3 f4 m x)
qed

text \<open>
  C1 as stated fails. Three employees, and saving the workbook of A2 raises: the run
  ends with status 1, not 0, and the only workbook saved is that of A1; A3 is never
  reached.
\<close>

theorem failed_employee_stops_run_counterexample:
  "exit_code (main_guard (fst (main_run demo_ctx a2_fails_env demo_src (Inr df_three) start_world)))
     = 1
   \<and> saved_workbooks (trace (snd (main_run demo_ctx a2_fails_env demo_src (Inr df_three) start_world)))
     = [''/out/2026-01/xlsx/A1_Ann_2026-01.xlsx'']"
  by (simp add: main_run_def demo_load [simplified] main_guard_def run_eval trace_eval)

text \<open>
  C2, as the code has it. Both \<^verbatim>\<open>with\<close> blocks stand inside the loop, so a session
  is entered and left once for each employee that reaches its stage. From a state with
  both handles released, a run that completes has started the export session once for
  every processed employee (when pdf is on) and has quit it as often, has started the
  mail session once for every processed employee with an email address (when email is
  on), and ends with both handles released. On every exit path the mail handle is
  released at the end; the Excel handle is released unless the run ended with an
  exception of the property assignments inside \<^verbatim>\<open>__enter__\<close>.
\<close>

theorem sessions_per_employee:
  assumes "main_loop ctx ev_env emps w p = (r, w')" and "released w"
  shows "\<not> outlook w'
     \<and> (excel w' \<longrightarrow> (\<exists>e. r = Inl e) \<and> trace w' \<noteq> []
           \<and> last (trace w') = (ExcelConfigure (visible (excel_exporter ctx)), False))
     \<and> (\<forall>p'. r = Inr p' \<longrightarrow> released w'
           \<and> n_ok (ExcelDispatch (use_fresh_instance (excel_exporter ctx))) (trace w')
               = n_ok (ExcelDispatch (use_fresh_instance (excel_exporter ctx))) (trace w)
                 + (if pdf_enabled ctx then length (filter has_ref emps) else 0)
           \<and> n_calls ExcelQuit (trace w')
               = n_calls ExcelQuit (trace w)
                 + (if pdf_enabled ctx then length (filter has_ref emps) else 0)
           \<and> n_ok OutlookDispatch (trace w') = n_ok OutlookDispatch (trace w)
               + (if email_enabled ctx
                  then length (filter (\<lambda>e. has_ref e \<and> has_email e) emps) else 0))"
proof (cases r)
  case (Inl e)
  from main_loop_raised [OF assms(1) [unfolded Inl] assms(2)] Inl show ?thesis by simp
next
  case (Inr p')
  from main_loop_completed [OF assms(1) [unfolded Inr] assms(2)] Inr show ?thesis
    by (simp add: released_def)
qed

theorem sessions_per_employee_witness:
  "released start_world
   \<and> fst (main_loop demo_ctx quiet_env [emp_a1, emp_a2, emp_a3] start_world 0) = Inr 3
   \<and> released (snd (main_loop demo_ctx quiet_env [emp_a1, emp_a2, emp_a3] start_world 0))
   \<and> n_ok (ExcelDispatch (use_fresh_instance (excel_exporter demo_ctx)))
        (trace (snd (main_loop demo_ctx quiet_env [emp_a1, emp_a2, emp_a3] start_world 0)))
       = n_ok (ExcelDispatch (use_fresh_instance (excel_exporter demo_ctx))) (trace start_world)
         + (if pdf_enabled demo_ctx then length (filter has_ref [emp_a1, emp_a2, emp_a3]) else 0)"
proof -
  let ?w' = "snd (main_loop demo_ctx quiet_env [emp_a1, emp_a2, emp_a3] start_world 0)"
  have h2: "released start_world"
    by (simp add: released_def start_world_def)
  have f1: "fst (main_loop demo_ctx quiet_env [emp_a1, emp_a2, emp_a3] start_world 0) = Inr 3"
    by (simp add: run_eval)
  then have h1: "main_loop demo_ctx quiet_env [emp_a1, emp_a2, emp_a3] start_world 0 = (Inr 3, ?w')"
    by (simp add: prod_eq_iff)
  note th = sessions_per_employee [OF h1 h2, THEN conjunct2, THEN conjunct2, rule_format, OF refl]
  from th have a: "released ?w'"
    by (rule conjunct1)
  from th have b: "n_ok (ExcelDispatch (use_fresh_instance (excel_exporter demo_ctx))) (trace ?w')
       = n_ok (ExcelDispatch (use_fresh_instance (excel_exporter demo_ctx))) (trace start_world)
         + (if pdf_enabled demo_ctx then length (filter has_ref [emp_a1, emp_a2, emp_a3]) else 0)"
    by (rule conjunct2 [THEN conjunct1])
  show ?thesis by (intro conjI h2 f1 a b)
qed

text \<open>
  C2 as stated fails. In a run of three employees where nothing raises, the export
  session is started three times and quit three times, and the mail session is started
  twice: once per employee, not once per run.
\<close>

theorem session_once_per_run_counterexample:
  "fst (main_loop demo_ctx quiet_env [emp_a1, emp_a2, emp_a3] start_world 0) = Inr 3
   \<and> n_ok (ExcelDispatch True)
        (trace (snd (main_loop demo_ctx quiet_env [emp_a1, emp_a2, emp_a3] start_world 0))) = 3
   \<and> n_calls ExcelQuit
        (trace (snd (main_loop demo_ctx quiet_env [emp_a1, emp_a2, emp_a3] start_world 0))) = 3
   \<and> n_ok OutlookDispatch
        (trace (snd (main_loop demo_ctx quiet_env [emp_a1, emp_a2, emp_a3] start_world 0))) = 2"
  by (simp add: run_eval trace_eval)

lemma quiet_main_loop:
  assumes q: "quiet ev_env" and t: "template_ok ctx ev_env" and f: "formats_ok ctx"
    and r: "\<forall>e \<in> set emps. has_ref e"
  shows "\<exists>w'. main_loop ctx ev_env emps w p = (Inr (p + length emps), w')
     \<and> saved_workbooks (trace w') = saved_workbooks (trace w)
         @ map (\<lambda>e. xlsx_path ctx (stem_of ctx e)) emps
     \<and> exported_files (trace w') = exported_files (trace w)
         @ (if pdf_enabled ctx then map (\<lambda>e. pdf_path ctx (stem_of ctx e)) emps else [])
     \<and> recipients (trace w') = recipients (trace w)
         @ (if email_enabled ctx then map (\<lambda>e. field_text (email e)) (filter has_email emps)
            else [])
     \<and> n_calls (final_call ctx) (trace w') = n_calls (final_call ctx) (trace w)
         + (if email_enabled ctx then length (filter has_email emps) else 0)
     \<and> warnings w' = warnings w
         @ (if email_enabled ctx
            then map (\<lambda>e. skip_warning (field_text (ref e))) (filter (\<lambda>e. \<not> has_email e) emps)
            else [])
     \<and> files w' = files w \<union> (\<lambda>e. xlsx_path ctx (stem_of ctx e)) ` set emps
         \<union> (if pdf_enabled ctx then (\<lambda>e. pdf_path ctx (stem_of ctx e)) ` set emps else {})"
  using r
proof (induction emps arbitrary: w p)
  case Nil
  show ?case by simp
next
  case (Cons emp rest)
  from Cons.prems have hr: "has_ref emp" and rr: "\<forall>e \<in> set rest. has_ref e" by simp_all
  from quiet_process_employee [OF q t f hr, of w] obtain w1 where
    pe: "process_employee ctx ev_env emp w = (Inr True, w1)"
    and a1: "saved_workbooks (trace w1) = saved_workbooks (trace w) @ [xlsx_path ctx (stem_of ctx emp)]"
    and b1: "exported_files (trace w1) = exported_files (trace w)
         @ (if pdf_enabled ctx then [pdf_path ctx (stem_of ctx emp)] else [])"
    and c1: "recipients (trace w1) = recipients (trace w)
         @ (if email_enabled ctx \<and> has_email emp then [field_text (email emp)] else [])"
    and d1: "n_calls (final_call ctx) (trace w1) = n_calls (final_call ctx) (trace w)
         + (if email_enabled ctx \<and> has_email emp then 1 else 0)"
    and e1: "warnings w1 = warnings w
         @ (if email_enabled ctx \<and> \<not> has_email emp then [skip_warning (field_text (ref emp))]
            else [])"
    and g1: "files w1 = files w \<union> {xlsx_path ctx (stem_of ctx emp)}
         \<union> (if pdf_enabled ctx then {pdf_path ctx (stem_of ctx emp)} else {})"
    by blast
  from Cons.IH [OF rr, of w1 "Suc p"] obtain w' where
    ml: "main_loop ctx ev_env rest w1 (Suc p) = (Inr (Suc p + length rest), w')"
    and a2: "saved_workbooks (trace w') = saved_workbooks (trace w1)
         @ map (\<lambda>e. xlsx_path ctx (stem_of ctx e)) rest"
    and b2: "exported_files (trace w') = exported_files (trace w1)
         @ (if pdf_enabled ctx then map (\<lambda>e. pdf_path ctx (stem_of ctx e)) rest else [])"
    and c2: "recipients (trace w') = recipients (trace w1)
         @ (if email_enabled ctx then map (\<lambda>e. field_text (email e)) (filter has_email rest)
            else [])"
    and d2: "n_calls (final_call ctx) (trace w') = n_calls (final_call ctx) (trace w1)
         + (if email_enabled ctx then length (filter has_email rest) else 0)"
    and e2: "warnings w' = warnings w1
         @ (if email_enabled ctx
            then map (\<lambda>e. skip_warning (field_text (ref e))) (filter (\<lambda>e. \<not> has_email e) rest)
            else [])"
    and g2: "files w' = files w1 \<union> (\<lambda>e. xlsx_path ctx (stem_of ctx e)) ` set rest
         \<union> (if pdf_enabled ctx then (\<lambda>e. pdf_path ctx (stem_of ctx e)) ` set rest else {})"
    by blast
  have m: "main_loop ctx ev_env (emp # rest) w p = (Inr (p + length (emp # rest)), w')"
    using pe ml by simp
  have a: "saved_workbooks (trace w') = saved_workbooks (trace w)
         @ map (\<lambda>e. xlsx_path ctx (stem_of ctx e)) (emp # rest)"
    by (simp add: a1 a2)
  have b: "exported_files (trace w') = exported_files (trace w)
         @ (if pdf_enabled ctx then map (\<lambda>e. pdf_path ctx (stem_of ctx e)) (emp # rest) else [])"
    by (simp add: b1 b2)
  have c: "recipients (trace w') = recipients (trace w)
         @ (if email_enabled ctx then map (\<lambda>e. field_text (email e)) (filter has_email (emp # rest))
            else [])"
    by (simp add: c1 c2)
  have d: "n_calls (final_call ctx) (trace w') = n_calls (final_call ctx) (trace w)
         + (if email_enabled ctx then length (filter has_email (emp # rest)) else 0)"
    by (simp add: d1 d2)
  have e: "warnings w' = warnings w
         @ (if email_enabled ctx
            then map (\<lambda>e. skip_warning (field_text (ref e))) (filter (\<lambda>e. \<not> has_email e) (emp # rest))
            else [])"
    by (simp add: e1 e2)
  have g: "files w' = files w \<union> (\<lambda>e. xlsx_path ctx (stem_of ctx e)) ` set (emp # rest)
         \<union> (if pdf_enabled ctx then (\<lambda>e. pdf_path ctx (stem_of ctx e)) ` set (emp # rest) else {})"
    by (auto simp: g1 g2)
  from m a b c d e g show ?case by blast
qed

lemma load_employees_complete:
  assumes "set required \<subseteq> set (columns df)"
    and "rc \<in> set required" "nc \<in> set required" "ec \<in> set required"
  shows "load_employees (Inr df) rc nc ec required
     = Inr (map (record_of rc nc ec) (dropna required (rows df)))"
proof -
  have cols: "rc \<in> set (columns df)" "nc \<in> set (columns df)" "ec \<in> set (columns df)"
    using assms by auto
  have "\<forall>r \<in> set (dropna required (rows df)). r rc \<noteq> None \<and> r nc \<noteq> None \<and> r ec \<noteq> None"
    using assms(2-4) by (auto simp: dropna_def complete_row_iff)
  then have "build_records df rc nc ec (dropna required (rows df))
      = Inr (map (record_of rc nc ec) (dropna required (rows df)))"
    by (rule build_records_complete [OF cols])
  with assms(1) show ?thesis
    by (auto simp: load_employees_missing)
qed

lemma dropna_length:
  "length (dropna required rs)
     = length rs - length (filter (\<lambda>r. \<exists>c \<in> set required. r c = None) rs)"
proof -
  have "complete_row required = (\<lambda>r. \<forall>c \<in> set required. r c \<noteq> None)"
    by (rule ext) (rule complete_row_iff)
  then have "dropna required rs = filter (\<lambda>r. \<forall>c \<in> set required. r c \<noteq> None) rs"
    by (simp only: dropna_def)
  then show ?thesis
    using sum_length_filter_compl [of "\<lambda>r. \<forall>c \<in> set required. r c \<noteq> None" rs] by simp
qed

lemma strip_nonspace: "strip t \<noteq> [] \<Longrightarrow> \<exists>c \<in> set (strip t). \<not> is_space c"
proof -
  assume a: "strip t \<noteq> []"
  let ?v = "dropWhile is_space (rev (dropWhile is_space t))"
  from a have v: "?v \<noteq> []" by (simp add: strip_def)
  then have "\<not> is_space (hd ?v)" by (rule hd_dropWhile)
  moreover from v have "hd ?v \<in> set (strip t)" by (simp add: strip_def)
  ultimately show ?thesis by blast
qed

lemma field_text_stripped:
  "field_text (Some (strip t)) = [] \<longleftrightarrow> (\<forall>c \<in> set t. is_space c)"
proof -
  have "field_text (Some (strip t)) = [] \<longleftrightarrow> (\<forall>c \<in> set (strip t). is_space c)"
    by (simp add: field_text_def strip_empty_iff)
  also have "\<dots> \<longleftrightarrow> strip t = []"
    using strip_nonspace [of t] by auto
  also have "\<dots> \<longleftrightarrow> (\<forall>c \<in> set t. is_space c)"
    by (rule strip_empty_iff)
  finally show ?thesis .
qed

text \<open>
  C5, as the code has it. Take a run from the sheet on, where nothing outside goes
  wrong, the required columns are in the sheet and hold the reference, name and email
  columns (the default of main.py), some row has no null in them, and every such row
  has a reference. A row with a null in a required column (an empty email cell among
  them) is dropped at load: the records are the N - K rows without one. Every record
  is processed: one workbook and (with pdf on) one fixed-layout file each, in order.
  A record whose email cell holds whitespace only has no email address: its
  notification alone is skipped, with one warning, and it is counted. The count is the
  number of records. The witness is the sheet of A1, A2 and A3 where the email cell of
  A2 holds a blank: three workbooks, three fixed-layout files, sends to A1 and A3, one
  skip logged for A2, count 3.
\<close>

theorem blank_email_skips_notification_only:
  assumes q: "quiet ev_env" and t: "template_ok ctx ev_env" and f: "formats_ok ctx"
    and sm: "email_enabled ctx \<longrightarrow> send_mode ctx = ''send'' \<or> send_mode ctx = ''display''"
    and cols: "set (required_cols src) \<subseteq> set (columns df)"
    and req: "reference_col src \<in> set (required_cols src)" "name_col src \<in> set (required_cols src)"
      "email_col src \<in> set (required_cols src)"
    and refs: "\<forall>e \<in> set (loaded_records src df). has_ref e"
    and ne: "loaded_records src df \<noteq> []"
  shows "\<exists>w'. main_run ctx ev_env src (Inr df) w = (Inr (length (loaded_records src df)), w')
     \<and> length (loaded_records src df) = length (rows df)
         - length (filter (\<lambda>r. \<exists>c \<in> set (required_cols src). r c = None) (rows df))
     \<and> saved_workbooks (trace w') = saved_workbooks (trace w)
         @ map (\<lambda>e. xlsx_path ctx (stem_of ctx e)) (loaded_records src df)
     \<and> exported_files (trace w') = exported_files (trace w)
         @ (if pdf_enabled ctx then map (\<lambda>e. pdf_path ctx (stem_of ctx e)) (loaded_records src df)
            else [])
     \<and> recipients (trace w') = recipients (trace w)
         @ (if email_enabled ctx
            then map (\<lambda>e. field_text (email e)) (filter has_email (loaded_records src df))
            else [])
     \<and> n_calls (final_call ctx) (trace w') = n_calls (final_call ctx) (trace w)
         + (if email_enabled ctx then length (filter has_email (loaded_records src df)) else 0)
     \<and> warnings w' = warnings w
         @ (if email_enabled ctx
            then map (\<lambda>e. skip_warning (field_text (ref e)))
                   (filter (\<lambda>e. \<not> has_email e) (loaded_records src df))
            else [])
     \<and> (\<forall>r \<in> set (dropna (required_cols src) (rows df)).
           \<exists>t. r (email_col src) = Some t
             \<and> (has_email (record_of (reference_col src) (name_col src) (email_col src) r)
                  \<longleftrightarrow> \<not> (\<forall>c \<in> set t. is_space c)))"
proof -
  let ?emps = "loaded_records src df"
  have ld: "load_employees (Inr df) (reference_col src) (name_col src) (email_col src)
      (required_cols src) = Inr ?emps"
    unfolding loaded_records_def by (rule load_employees_complete [OF cols req])
  have n: "length ?emps = length (rows df)
         - length (filter (\<lambda>r. \<exists>c \<in> set (required_cols src). r c = None) (rows df))"
    by (simp add: loaded_records_def dropna_length)
  have em: "\<forall>r \<in> set (dropna (required_cols src) (rows df)).
           \<exists>t. r (email_col src) = Some t
             \<and> (has_email (record_of (reference_col src) (name_col src) (email_col src) r)
                  \<longleftrightarrow> \<not> (\<forall>c \<in> set t. is_space c))"
  proof
    fix r assume "r \<in> set (dropna (required_cols src) (rows df))"
    then have "r (email_col src) \<noteq> None"
      using req(3) by (auto simp: dropna_def complete_row_iff)
    then obtain t where t: "r (email_col src) = Some t" by auto
    then have "has_email (record_of (reference_col src) (name_col src) (email_col src) r)
        \<longleftrightarrow> \<not> (\<forall>c \<in> set t. is_space c)"
      by (simp add: has_email_def record_of_def field_text_stripped)
    with t show "\<exists>t. r (email_col src) = Some t
             \<and> (has_email (record_of (reference_col src) (name_col src) (email_col src) r)
                  \<longleftrightarrow> \<not> (\<forall>c \<in> set t. is_space c))"
      by blast
  qed
  from quiet_main_loop [OF q t f refs, of w 0] obtain w' where
    ml: "main_loop ctx ev_env ?emps w 0 = (Inr (0 + length ?emps), w')"
    and a: "saved_workbooks (trace w') = saved_workbooks (trace w)
         @ map (\<lambda>e. xlsx_path ctx (stem_of ctx e)) ?emps"
    and b: "exported_files (trace w') = exported_files (trace w)
         @ (if pdf_enabled ctx then map (\<lambda>e. pdf_path ctx (stem_of ctx e)) ?emps else [])"
    and c: "recipients (trace w') = recipients (trace w)
         @ (if email_enabled ctx then map (\<lambda>e. field_text (email e)) (filter has_email ?emps)
            else [])"
    and d: "n_calls (final_call ctx) (trace w') = n_calls (final_call ctx) (trace w)
         + (if email_enabled ctx then length (filter has_email ?emps) else 0)"
    and e: "warnings w' = warnings w
         @ (if email_enabled ctx
            then map (\<lambda>e. skip_warning (field_text (ref e))) (filter (\<lambda>e. \<not> has_email e) ?emps)
            else [])"
    by blast
  have mr: "main_run ctx ev_env src (Inr df) w = (Inr (length ?emps), w')"
    using ld ne sm ml by (auto simp: main_run_def)
  from mr n a b c d e em show ?thesis by blast
qed

theorem blank_email_skips_notification_only_witness:
  "quiet quiet_env \<and> template_ok demo_ctx quiet_env \<and> formats_ok demo_ctx
   \<and> set (required_cols demo_src) \<subseteq> set (columns df_blank_email)
   \<and> email_col demo_src \<in> set (required_cols demo_src)
   \<and> loaded_records demo_src df_blank_email = [emp_a1, emp_a2, emp_a3]
   \<and> has_ref emp_a1 \<and> has_ref emp_a2 \<and> has_ref emp_a3 \<and> \<not> has_email emp_a2
   \<and> pdf_enabled demo_ctx \<and> email_enabled demo_ctx
   \<and> (\<exists>w'. main_run demo_ctx quiet_env demo_src (Inr df_blank_email) start_world = (Inr 3, w')
         \<and> saved_workbooks (trace w')
             = [''/out/2026-01/xlsx/A1_Ann_2026-01.xlsx'', ''/out/2026-01/xlsx/A2_Bob_2026-01.xlsx'',
                ''/out/2026-01/xlsx/A3_Cy_2026-01.xlsx'']
         \<and> exported_files (trace w')
             = [''/out/2026-01/pdf/A1_Ann_2026-01.pdf'', ''/out/2026-01/pdf/A2_Bob_2026-01.pdf'',
                ''/out/2026-01/pdf/A3_Cy_2026-01.pdf'']
         \<and> recipients (trace w') = [''ann@example.org'', ''cy@example.org'']
         \<and> n_calls MailSend (trace w') = 2
         \<and> warnings w' = [''No email for ref=A2; skipping email.''])"
proof -
  let ?emps = "[emp_a1, emp_a2, emp_a3]"
  have h1: "quiet quiet_env"
    by (simp add: quiet_def quiet_env_def)
  have h2: "template_ok demo_ctx quiet_env"
    by (simp add: template_ok_def demo_ctx_def quiet_env_def template_wb_def)
  have h3: "formats_ok demo_ctx"
    by (simp add: formats_ok_def demo_ctx_def)
  have h4: "email_enabled demo_ctx \<longrightarrow> send_mode demo_ctx = ''send'' \<or> send_mode demo_ctx = ''display''"
    by (simp add: demo_ctx_def)
  have h5: "set (required_cols demo_src) \<subseteq> set (columns df_blank_email)"
    by (simp add: demo_src_def df_blank_email_def)
  have h6: "reference_col demo_src \<in> set (required_cols demo_src)"
    "name_col demo_src \<in> set (required_cols demo_src)"
    "email_col demo_src \<in> set (required_cols demo_src)"
    by (simp_all add: demo_src_def std_columns_def)
  have lr: "loaded_records demo_src df_blank_email = ?emps"
    by (simp add: loaded_records_def record_of_def load_eval demo_src_def df_blank_email_def
        emp_a1_def emp_a2_def emp_a3_def)
  have e1: "has_ref emp_a1" "has_ref emp_a2" "has_ref emp_a3"
    "has_email emp_a1" "\<not> has_email emp_a2" "has_email emp_a3"
    by (simp_all add: has_ref_def has_email_def emp_a1_def emp_a2_def emp_a3_def field_text_def
        strip_def is_space_def)
  then have h7: "\<forall>e \<in> set (loaded_records demo_src df_blank_email). has_ref e"
    unfolding lr by simp
  have h8: "loaded_records demo_src df_blank_email \<noteq> []"
    unfolding lr by simp
  have c: "pdf_enabled demo_ctx" "email_enabled demo_ctx" "final_call demo_ctx = MailSend"
    by (simp_all add: demo_ctx_def final_call_def)
  have s1: "stem_of demo_ctx emp_a1 = ''A1_Ann_2026-01''"
    by (simp add: stem_of_def run_eval)
  have s2: "stem_of demo_ctx emp_a2 = ''A2_Bob_2026-01''"
    by (simp add: stem_of_def run_eval)
  have s3: "stem_of demo_ctx emp_a3 = ''A3_Cy_2026-01''"
    by (simp add: stem_of_def run_eval)
  note s = s1 s2 s3
  have ft: "field_text (email emp_a1) = ''ann@example.org''"
    "field_text (email emp_a3) = ''cy@example.org''" "field_text (ref emp_a2) = ''A2''"
    by (simp_all add: emp_a1_def emp_a2_def emp_a3_def field_text_def strip_def is_space_def)
  have dirs: "xlsx_dir demo_ctx = ''/out/2026-01/xlsx''" "pdf_dir demo_ctx = ''/out/2026-01/pdf''"
    by (simp_all add: demo_ctx_def)
  have t0: "trace start_world = []" "warnings start_world = []"
    by (simp_all add: start_world_def)
  have v1: "saved_workbooks (trace start_world) @ map (\<lambda>e. xlsx_path demo_ctx (stem_of demo_ctx e)) ?emps
      = [''/out/2026-01/xlsx/A1_Ann_2026-01.xlsx'', ''/out/2026-01/xlsx/A2_Bob_2026-01.xlsx'',
         ''/out/2026-01/xlsx/A3_Cy_2026-01.xlsx'']"
    by (simp add: t0 s dirs saved_workbooks_def xlsx_path_def path_join_def)
  have v2: "exported_files (trace start_world)
        @ (if pdf_enabled demo_ctx then map (\<lambda>e. pdf_path demo_ctx (stem_of demo_ctx e)) ?emps else [])
      = [''/out/2026-01/pdf/A1_Ann_2026-01.pdf'', ''/out/2026-01/pdf/A2_Bob_2026-01.pdf'',
         ''/out/2026-01/pdf/A3_Cy_2026-01.pdf'']"
    by (simp add: t0 s c dirs exported_files_def pdf_path_def path_join_def)
  have v3: "recipients (trace start_world)
        @ (if email_enabled demo_ctx then map (\<lambda>e. field_text (email e)) (filter has_email ?emps)
           else [])
      = [''ann@example.org'', ''cy@example.org'']"
    by (simp add: t0 c e1 ft recipients_def)
  have v4: "n_calls (final_call demo_ctx) (trace start_world)
        + (if email_enabled demo_ctx then length (filter has_email ?emps) else 0) = 2"
    by (simp add: t0 c e1 n_calls_def)
  have v5: "warnings start_world
        @ (if email_enabled demo_ctx
           then map (\<lambda>e. skip_warning (field_text (ref e))) (filter (\<lambda>e. \<not> has_email e) ?emps)
           else [])
      = [''No email for ref=A2; skipping email.'']"
    by (simp add: t0 c e1 ft skip_warning_def)
  from blank_email_skips_notification_only [OF h1 h2 h3 h4 h5 h6 h7 h8, of start_world]
  obtain w' where
    m: "main_run demo_ctx quiet_env demo_src (Inr df_blank_email) start_world
          = (Inr (length (loaded_records demo_src df_blank_email)), w')"
    and a: "saved_workbooks (trace w') = saved_workbooks (trace start_world)
        @ map (\<lambda>e. xlsx_path demo_ctx (stem_of demo_ctx e)) (loaded_records demo_src df_blank_email)"
    and b: "exported_files (trace w') = exported_files (trace start_world)
        @ (if pdf_enabled demo_ctx
           then map (\<lambda>e. pdf_path demo_ctx (stem_of demo_ctx e)) (loaded_records demo_src df_blank_email)
           else [])"
    and d: "recipients (trace w') = recipients (trace start_world)
        @ (if email_enabled demo_ctx
           then map (\<lambda>e. field_text (email e)) (filter has_email (loaded_records demo_src df_blank_email))
           else [])"
    and n: "n_calls (final_call demo_ctx) (trace w') = n_calls (final_call demo_ctx) (trace start_world)
        + (if email_enabled demo_ctx
           then length (filter has_email (loaded_records demo_src df_blank_email)) else 0)"
    and w: "warnings w' = warnings start_world
        @ (if email_enabled demo_ctx
           then map (\<lambda>e. skip_warning (field_text (ref e)))
                  (filter (\<lambda>e. \<not> has_email e) (loaded_records demo_src df_blank_email))
           else [])"
    by blast
  from m have m': "main_run demo_ctx quiet_env demo_src (Inr df_blank_email) start_world = (Inr 3, w')"
    unfolding lr by simp
  from n [unfolded lr v4] have n': "n_calls MailSend (trace w') = 2"
    by (simp only: c(3))
  have bigc: "main_run demo_ctx quiet_env demo_src (Inr df_blank_email) start_world = (Inr 3, w')
         \<and> saved_workbooks (trace w')
             = [''/out/2026-01/xlsx/A1_Ann_2026-01.xlsx'', ''/out/2026-01/xlsx/A2_Bob_2026-01.xlsx'',
                ''/out/2026-01/xlsx/A3_Cy_2026-01.xlsx'']
         \<and> exported_files (trace w')
             = [''/out/2026-01/pdf/A1_Ann_2026-01.pdf'', ''/out/2026-01/pdf/A2_Bob_2026-01.pdf'',
                ''/out/2026-01/pdf/A3_Cy_2026-01.pdf'']
         \<and> recipients (trace w') = [''ann@example.org'', ''cy@example.org'']
         \<and> n_calls MailSend (trace w') = 2
         \<and> warnings w' = [''No email for ref=A2; skipping email.'']"
    using m' a [unfolded lr v1] b [unfolded lr v2] d [unfolded lr v3] n' w [unfolded lr v5]
    by (intro conjI)
  have ex: "\<exists>w'. main_run demo_ctx quiet_env demo_src (Inr df_blank_email) start_world = (Inr 3, w')
         \<and> saved_workbooks (trace w')
             = [''/out/2026-01/xlsx/A1_Ann_2026-01.xlsx'', ''/out/2026-01/xlsx/A2_Bob_2026-01.xlsx'',
                ''/out/2026-01/xlsx/A3_Cy_2026-01.xlsx'']
         \<and> exported_files (trace w')
             = [''/out/2026-01/pdf/A1_Ann_2026-01.pdf'', ''/out/2026-01/pdf/A2_Bob_2026-01.pdf'',
                ''/out/2026-01/pdf/A3_Cy_2026-01.pdf'']
         \<and> recipients (trace w') = [''ann@example.org'', ''cy@example.org'']
         \<and> n_calls MailSend (trace w') = 2
         \<and> warnings w' = [''No email for ref=A2; skipping email.'']"
    by (rule exI [of _ w']) (rule bigc)
  show ?thesis by (intro conjI h1 h2 h3 h5 h6(3) lr e1(1,2,3,5) c(1,2) ex)
qed

text \<open>
  C5 as stated fails. With the email cell of A2 empty (null in the frame) and the
  default required columns, the row of A2 is dropped at load: the run reports 2
  employees, makes two workbooks and two fixed-layout files, and logs no skip.
\<close>

theorem null_email_row_dropped_counterexample:
  "fst (main_run demo_ctx quiet_env demo_src (Inr df_null_email) start_world) = Inr 2
   \<and> saved_workbooks (trace (snd (main_run demo_ctx quiet_env demo_src (Inr df_null_email)
        start_world)))
       = [''/out/2026-01/xlsx/A1_Ann_2026-01.xlsx'', ''/out/2026-01/xlsx/A3_Cy_2026-01.xlsx'']
   \<and> exported_files (trace (snd (main_run demo_ctx quiet_env demo_src (Inr df_null_email)
        start_world)))
       = [''/out/2026-01/pdf/A1_Ann_2026-01.pdf'', ''/out/2026-01/pdf/A3_Cy_2026-01.pdf'']
   \<and> warnings (snd (main_run demo_ctx quiet_env demo_src (Inr df_null_email) start_world)) = []"
proof -
  have l: "load_employees (Inr df_null_email) (reference_col demo_src) (name_col demo_src)
      (email_col demo_src) (required_cols demo_src) = Inr [emp_a1, emp_a3]"
    by (simp add: load_eval df_null_email_def demo_src_def emp_a1_def emp_a3_def)
  show ?thesis
    by (simp add: main_run_def l main_guard_def run_eval trace_eval)
qed

text \<open>
  C10. For an employee that is processed and gets a notification, exactly one file is
  attached: the workbook (.xlsx) of that employee when pdf is off, the fixed-layout
  file (.pdf) of that employee when pdf is on.
\<close>

theorem attachment_follows_pdf_capability:
  assumes "process_employee ctx ev_env emp w = (Inr True, w')" and "released w"
    and "email_enabled ctx" and "has_email emp"
  shows "attached (trace w') = attached (trace w)
           @ [abspath ev_env (if pdf_enabled ctx then pdf_path ctx (stem_of ctx emp)
                              else xlsx_path ctx (stem_of ctx emp))]
     \<and> (\<not> pdf_enabled ctx \<longrightarrow> attached (trace w') = attached (trace w)
           @ [abspath ev_env (xlsx_dir ctx @ ''/'' @ stem_of ctx emp @ ''.xlsx'')])
     \<and> (pdf_enabled ctx \<longrightarrow> attached (trace w') = attached (trace w)
           @ [abspath ev_env (pdf_dir ctx @ ''/'' @ stem_of ctx emp @ ''.pdf'')])"
  using process_employee_counted(6) [OF assms(1,2)] assms(3,4)
  by (simp add: xlsx_path_def pdf_path_def path_join_def)

theorem attachment_follows_pdf_capability_witness:
  "released start_world \<and> email_enabled xlsx_only_ctx \<and> \<not> pdf_enabled xlsx_only_ctx
   \<and> has_email emp_a1
   \<and> fst (process_employee xlsx_only_ctx quiet_env emp_a1 start_world) = Inr True
   \<and> attached (trace (snd (process_employee xlsx_only_ctx quiet_env emp_a1 start_world)))
       = [''/out/2026-01/xlsx/A1_Ann_2026-01.xlsx'']"
proof -
  let ?w' = "snd (process_employee xlsx_only_ctx quiet_env emp_a1 start_world)"
  have h2: "released start_world"
    by (simp add: released_def start_world_def)
  have h3: "email_enabled xlsx_only_ctx" and np: "\<not> pdf_enabled xlsx_only_ctx"
    by (simp_all add: xlsx_only_ctx_def demo_ctx_def)
  have h4: "has_email emp_a1"
    by (simp add: has_email_def emp_a1_def field_text_def strip_def is_space_def)
  have f1: "fst (process_employee xlsx_only_ctx quiet_env emp_a1 start_world) = Inr True"
    by (simp add: run_eval)
  then have h1: "process_employee xlsx_only_ctx quiet_env emp_a1 start_world = (Inr True, ?w')"
    by (simp add: prod_eq_iff)
  have s: "stem_of xlsx_only_ctx emp_a1 = ''A1_Ann_2026-01''"
    by (simp add: stem_of_def run_eval)
  have v: "attached (trace start_world)
      @ [abspath quiet_env (xlsx_dir xlsx_only_ctx @ ''/'' @ stem_of xlsx_only_ctx emp_a1 @ ''.xlsx'')]
      = [''/out/2026-01/xlsx/A1_Ann_2026-01.xlsx'']"
    unfolding s by (simp add: attached_def start_world_def quiet_env_def xlsx_only_ctx_def demo_ctx_def)
  from attachment_follows_pdf_capability [OF h1 h2 h3 h4, THEN conjunct2, THEN conjunct1] np
  have "attached (trace ?w') = attached (trace start_world)
      @ [abspath quiet_env (xlsx_dir xlsx_only_ctx @ ''/'' @ stem_of xlsx_only_ctx emp_a1 @ ''.xlsx'')]"
    by blast
  then have a: "attached (trace ?w') = [''/out/2026-01/xlsx/A1_Ann_2026-01.xlsx'']"
    by (simp only: v)
  show ?thesis by (intro conjI h2 h3 np h4 f1 a)
qed


end
